(* ===== verification/Prelude.thy ===== *)
theory Prelude
  imports Main "HOL-Library.Word"
begin

text \<open>
  Shared vocabulary of the development: the faults a C statement can run into, the
  state-and-fault computations every operation of the model is written in, their
  weakest-precondition calculus, and the conversions between the C integer types
  the sources mix.  No definition of this theory models a function of the
  repository; they are the part of the C language the other theories use.
\<close>

section \<open>Faults and computations\<close>

text \<open>
  A statement whose behaviour C leaves undefined, an \<open>assert\<close> that does not hold and a
  loop that never ends are values of their own: no theorem can pass over them silently.
\<close>

datatype fault =
    NullDeref      \<comment> \<open>a member access through a null pointer\<close>
  | UseAfterFree   \<comment> \<open>a member access through a pointer to a released object\<close>
  | AssertFail     \<comment> \<open>\<open>assert(...)\<close> of the source aborts\<close>
  | OutOfBounds    \<comment> \<open>an array or heap block is accessed outside its bounds\<close>
  | Unterminated   \<comment> \<open>a string is read with \<open>%s\<close> past the array it is in: it has no zero there\<close>
  | BadRealloc     \<comment> \<open>\<open>realloc(p, 0)\<close>\<close>
  | Diverge        \<comment> \<open>the loop does not end\<close>

type_synonym ('s, 'a) act = "'s \<Rightarrow> fault + 'a \<times> 's"

definition ret :: "'a \<Rightarrow> ('s, 'a) act" where
  "ret x = (\<lambda>s. Inr (x, s))"

definition halt :: "fault \<Rightarrow> ('s, 'a) act" where
  "halt e = (\<lambda>s. Inl e)"

definition bnd :: "('s, 'a) act \<Rightarrow> ('a \<Rightarrow> ('s, 'b) act) \<Rightarrow> ('s, 'b) act" where
  "bnd f g = (\<lambda>s. case f s of Inl e \<Rightarrow> Inl e | Inr (x, s') \<Rightarrow> g x s')"

definition gets :: "('s \<Rightarrow> 'a) \<Rightarrow> ('s, 'a) act" where
  "gets f = (\<lambda>s. Inr (f s, s))"

definition modifies :: "('s \<Rightarrow> 's) \<Rightarrow> ('s, unit) act" where
  "modifies f = (\<lambda>s. Inr ((), f s))"

text \<open>\<open>assert(b)\<close>.\<close>

definition c_assert :: "bool \<Rightarrow> ('s, unit) act" where
  "c_assert b = (if b then ret () else halt AssertFail)"

lemma bnd_cong [fundef_cong]:
  assumes "f s = f' s" and "\<And>x t. f' s = Inr (x, t) \<Longrightarrow> g x t = g' x t" and "s = s'"
  shows "bnd f g s = bnd f' g' s'"
  using assms by (auto simp: bnd_def split: sum.split prod.split)

lemma bnd_ret [simp]: "bnd (ret x) g = g x"
  by (simp add: bnd_def ret_def)

lemma bnd_halt [simp]: "bnd (halt e) g = halt e"
  by (simp add: bnd_def halt_def)

lemma bnd_assoc: "bnd (bnd f g) h = bnd f (\<lambda>x. bnd (g x) h)"
  by (auto simp: bnd_def fun_eq_iff split: sum.split)

section \<open>Weakest preconditions\<close>

text \<open>
  \<open>wpe E f Q s\<close>: run from \<open>s\<close>, the computation \<open>f\<close> ends in a state and with a value that
  satisfy \<open>Q\<close>, or stops with a fault of the set \<open>E\<close>.  With \<open>E = {}\<close> it is total
  correctness, with \<open>E = UNIV\<close> partial correctness.
\<close>

definition wpe :: "fault set \<Rightarrow> ('s, 'a) act \<Rightarrow> ('a \<Rightarrow> 's \<Rightarrow> bool) \<Rightarrow> 's \<Rightarrow> bool" where
  "wpe E f Q s = (case f s of Inl e \<Rightarrow> e \<in> E | Inr (x, s') \<Rightarrow> Q x s')"

named_theorems wp \<open>weakest-precondition equations\<close>

lemma wpe_ret [wp]: "wpe E (ret x) Q s = Q x s"
  by (simp add: wpe_def ret_def)

lemma wpe_ret_fun [wp]: "wpe E (ret x) Q = Q x"
  by (rule ext) (simp add: wpe_ret)

lemma wpe_halt [wp]: "wpe E (halt e) Q s = (e \<in> E)"
  by (simp add: wpe_def halt_def)

lemma wpe_bnd [wp]: "wpe E (bnd f g) Q s = wpe E f (\<lambda>x. wpe E (g x) Q) s"
  by (auto simp: wpe_def bnd_def split: sum.split)

lemma wpe_bnd_fun: "wpe E (bnd f g) Q = wpe E f (\<lambda>x. wpe E (g x) Q)"
  by (rule ext) (simp add: wpe_bnd)

lemmas wp_fun = wpe_ret_fun wpe_bnd_fun

lemma wpe_gets [wp]: "wpe E (gets f) Q s = Q (f s) s"
  by (simp add: wpe_def gets_def)

lemma wpe_modifies [wp]: "wpe E (modifies f) Q s = Q () (f s)"
  by (simp add: wpe_def modifies_def)

lemma wpe_if [wp]: "wpe E (if b then f else g) Q s = (if b then wpe E f Q s else wpe E g Q s)"
  by simp

lemma wpe_case_option [wp]:
  "wpe E (case z of None \<Rightarrow> f | Some x \<Rightarrow> g x) Q s =
     (case z of None \<Rightarrow> wpe E f Q s | Some x \<Rightarrow> wpe E (g x) Q s)"
  by (cases z) simp_all

lemma wpe_case_prod [wp]:
  "wpe E (case z of (x, y) \<Rightarrow> f x y) Q s = (case z of (x, y) \<Rightarrow> wpe E (f x y) Q s)"
  by (cases z) simp

lemma wpe_c_assert [wp]: "wpe E (c_assert b) Q s = (if b then Q () s else AssertFail \<in> E)"
  by (simp add: c_assert_def wp)

lemma wpe_conseq:
  assumes "wpe E f Q s" and "\<And>x s'. Q x s' \<Longrightarrow> R x s'"
  shows "wpe E f R s"
  using assms by (auto simp: wpe_def split: sum.splits)

lemma wpe_faults:
  assumes "wpe E f Q s" and "E \<subseteq> F"
  shows "wpe F f Q s"
  using assms by (auto simp: wpe_def split: sum.splits)

lemma wpe_conj:
  assumes "wpe E f Q s" and "wpe E f R s"
  shows "wpe E f (\<lambda>x s'. Q x s' \<and> R x s') s"
  using assms by (auto simp: wpe_def split: sum.splits)

lemma wpe_Inr: "wpe E f Q s \<Longrightarrow> f s = Inr (x, t) \<Longrightarrow> Q x t"
  by (simp add: wpe_def)

lemma wpe_Inl: "wpe E f Q s \<Longrightarrow> f s = Inl e \<Longrightarrow> e \<in> E"
  by (simp add: wpe_def)

lemma wpe_total: "wpe {} f Q s \<Longrightarrow> \<exists>x t. f s = Inr (x, t) \<and> Q x t"
  by (auto simp: wpe_def split: sum.splits)

lemma wpe_only: "wpe {e} f (\<lambda>_ _. False) s \<Longrightarrow> f s = Inl e"
  by (auto simp: wpe_def split: sum.splits)

lemma wpe_run: "f s = Inr (x, t) \<Longrightarrow> wpe E f Q s = Q x t"
  by (simp add: wpe_def)

text \<open>The same as introduction rules, for proofs that follow the program.\<close>

lemma wpe_bndI: "wpe E f (\<lambda>x. wpe E (g x) Q) s \<Longrightarrow> wpe E (bnd f g) Q s"
  by (simp add: wpe_bnd)

lemma wpe_retI: "Q x s \<Longrightarrow> wpe E (ret x) Q s"
  by (simp add: wpe_ret)

lemma wpe_haltI: "e \<in> E \<Longrightarrow> wpe E (halt e) Q s"
  by (simp add: wpe_halt)

lemma wpe_ifI:
  "(b \<Longrightarrow> wpe E f Q s) \<Longrightarrow> (\<not> b \<Longrightarrow> wpe E g Q s) \<Longrightarrow> wpe E (if b then f else g) Q s"
  by simp

lemma wpe_prodI: "wpe E (f x y) Q s \<Longrightarrow> wpe E (case (x, y) of (x, y) \<Rightarrow> f x y) Q s"
  by simp

lemmas wp_steps = wpe_bndI wpe_retI wpe_haltI wpe_ifI wpe_prodI

section \<open>Integer conversions\<close>

text \<open>
  \<open>size_t\<close> is 64 bits wide and \<open>int\<close> 32 bits wide.  Values of \<open>size_t\<close> are kept as
  naturals below \<open>2 ^ 64\<close>, with the wrap-around of each operation written out, and values of
  \<open>int\<close> as integers; \<open>to_int\<close> and \<open>of_int_size\<close> are the implicit conversions.
\<close>

type_synonym byte = "8 word"

definition size_add :: "nat \<Rightarrow> nat \<Rightarrow> nat" where
  "size_add a b = (a + b) mod 2 ^ 64"

definition size_sub :: "nat \<Rightarrow> nat \<Rightarrow> nat" where
  "size_sub a b = (a + (2 ^ 64 - b)) mod 2 ^ 64"

definition to_int :: "nat \<Rightarrow> int" where
  "to_int n = (let m = int (n mod 2 ^ 32) in if m < 2 ^ 31 then m else m - 2 ^ 32)"

definition of_int_size :: "int \<Rightarrow> nat" where
  "of_int_size i = nat (i mod 2 ^ 64)"

lemma size_sub_le: "b \<le> a \<Longrightarrow> a < 2 ^ 64 \<Longrightarrow> size_sub a b = a - b"
  by (simp add: size_sub_def le_mod_geq)

lemma size_add_small: "a + b < 2 ^ 64 \<Longrightarrow> size_add a b = a + b"
  by (simp add: size_add_def)

lemma to_int_small: "n < 2 ^ 31 \<Longrightarrow> to_int n = int n"
  by (simp add: to_int_def Let_def)

lemma to_int_0 [simp]: "to_int 0 = 0"
  by (simp add: to_int_def)

lemma of_int_size_int: "n < 2 ^ 64 \<Longrightarrow> of_int_size (int n) = n"
  by (simp add: of_int_size_def zmod_int [symmetric] del: of_nat_power)

section \<open>Bytes, arrays and C strings\<close>

text \<open>
  A \<open>char\<close> array of the source is a function from indices to bytes; every access states its
  bound.  \<open>strcmp_at n a b i\<close> is \<open>strcmp\<close> from index \<open>i\<close> on two arrays with \<open>n\<close> more bytes:
  it reads pairs of bytes until they differ or both are the terminating zero, and a read
  past the arrays' end is a fault.
\<close>

type_synonym arr = "nat \<Rightarrow> byte"

definition arr_copy :: "arr \<Rightarrow> nat \<Rightarrow> byte list \<Rightarrow> arr" where
  "arr_copy a off xs = (\<lambda>i. if off \<le> i \<and> i < off + length xs then xs ! (i - off) else a i)"

fun strcmp_at :: "nat \<Rightarrow> arr \<Rightarrow> arr \<Rightarrow> nat \<Rightarrow> fault + bool" where
  "strcmp_at 0 a b i = Inl OutOfBounds"
| "strcmp_at (Suc n) a b i =
     (if a i \<noteq> b i then Inr False
      else if a i = 0 then Inr True
      else strcmp_at n a b (Suc i))"

text \<open>\<open>strlen\<close> of an array with \<open>n\<close> bytes from index \<open>i\<close> on, as \<open>printf("%s")\<close> runs it.\<close>

fun strlen_at :: "nat \<Rightarrow> arr \<Rightarrow> nat \<Rightarrow> fault + nat" where
  "strlen_at 0 a i = Inl Unterminated"
| "strlen_at (Suc n) a i = (if a i = 0 then Inr i else strlen_at n a (Suc i))"

definition bytes_of :: "string \<Rightarrow> byte list" where
  "bytes_of cs = map of_char cs"

definition lift_res :: "fault + 'a \<Rightarrow> ('s, 'a) act" where
  "lift_res r = (\<lambda>s. case r of Inl e \<Rightarrow> Inl e | Inr x \<Rightarrow> Inr (x, s))"

lemma wpe_lift_res [wp]:
  "wpe E (lift_res r) Q s = (case r of Inl e \<Rightarrow> e \<in> E | Inr x \<Rightarrow> Q x s)"
  by (simp add: wpe_def lift_res_def split: sum.split)

lemma length_bytes_of [simp]: "length (bytes_of cs) = length cs"
  by (simp add: bytes_of_def)

lemma arr_copy_Nil [simp]: "arr_copy a off [] = a"
  by (rule ext) (auto simp: arr_copy_def)

lemma strcmp_at_total:
  assumes "a k = 0" and "i \<le> k" and "k < i + n"
  shows "\<exists>r. strcmp_at n a b i = Inr r"
  using assms
proof (induction n arbitrary: i)
  case 0
  then show ?case by simp
next
  case (Suc n)
  show ?case
  proof (cases "i = k")
    case True
    with Suc.prems show ?thesis by auto
  next
    case False
    with Suc show ?thesis by auto
  qed
qed

lemma strcmp_at_True:
  "strcmp_at n a b i = Inr True \<longleftrightarrow>
     (\<exists>k. i \<le> k \<and> k < i + n \<and> a k = 0 \<and> b k = 0 \<and> (\<forall>j. i \<le> j \<and> j < k \<longrightarrow> a j = b j \<and> a j \<noteq> 0))"
proof (induction n arbitrary: i)
  case 0
  then show ?case by simp
next
  case (Suc n)
  have split: "(\<forall>j. i \<le> j \<and> j < k \<longrightarrow> P j) \<longleftrightarrow> P i \<and> (\<forall>j. Suc i \<le> j \<and> j < k \<longrightarrow> P j)"
    if "Suc i \<le> k" for P k
    using that by (metis Suc_le_eq le_neq_implies_less order_refl less_imp_le)
  show ?case
  proof (cases "a i = b i \<and> a i \<noteq> 0")
    case True
    then have "strcmp_at (Suc n) a b i = Inr True \<longleftrightarrow> strcmp_at n a b (Suc i) = Inr True"
      by auto
    also have "\<dots> \<longleftrightarrow> (\<exists>k. Suc i \<le> k \<and> k < Suc i + n \<and> a k = 0 \<and> b k = 0 \<and>
        (\<forall>j. Suc i \<le> j \<and> j < k \<longrightarrow> a j = b j \<and> a j \<noteq> 0))"
      by (rule Suc.IH)
    also have "\<dots> \<longleftrightarrow> (\<exists>k. i \<le> k \<and> k < i + Suc n \<and> a k = 0 \<and> b k = 0 \<and>
        (\<forall>j. i \<le> j \<and> j < k \<longrightarrow> a j = b j \<and> a j \<noteq> 0))" (is "?L \<longleftrightarrow> ?R")
    proof
      assume ?L
      then obtain k where k: "Suc i \<le> k" "k < Suc i + n" "a k = 0" "b k = 0"
        "\<forall>j. Suc i \<le> j \<and> j < k \<longrightarrow> a j = b j \<and> a j \<noteq> 0" by blast
      have "\<forall>j. i \<le> j \<and> j < k \<longrightarrow> a j = b j \<and> a j \<noteq> 0"
        using k(5) True split [OF k(1), of "\<lambda>j. a j = b j \<and> a j \<noteq> 0"] by blast
      with k show ?R by (intro exI [of _ k]) auto
    next
      assume ?R
      then obtain k where k: "i \<le> k" "k < i + Suc n" "a k = 0" "b k = 0"
        "\<forall>j. i \<le> j \<and> j < k \<longrightarrow> a j = b j \<and> a j \<noteq> 0" by blast
      from k(3) True have "k \<noteq> i" by auto
      with k(1) have "Suc i \<le> k" by simp
      moreover have "\<forall>j. Suc i \<le> j \<and> j < k \<longrightarrow> a j = b j \<and> a j \<noteq> 0"
        using k(5) by (metis Suc_leD)
      ultimately show ?L using k(2-4) by (intro exI [of _ k] conjI) (assumption | simp)+
    qed
    finally show ?thesis .
  next
    case False
    then show ?thesis
      by (cases "a i = b i") (auto, (metis le_neq_implies_less order_refl)+)
  qed
qed

end
