(* ===== verification/Machine.thy ===== *)
theory Machine
  imports Prelude
begin

text \<open>
  What the sources use of the C library and of the kernel and what does not depend on a
  component: the heap allocator, \<open>errno\<close>, and the outcomes of \<open>read\<close> and \<open>write\<close>.

  The allocator is an oracle: \<open>oom n\<close> says whether the \<open>n\<close>-th request of the run finds no
  memory, and \<open>junk\<close> is what fresh memory holds.  A theorem that leaves both free holds
  for every behaviour of the allocator.  \<open>live\<close> counts the blocks that are allocated and
  not yet released, so that leaks can be stated.
\<close>

datatype errno = EINTR | EAGAIN | ENOMEM | EBADF | EINPROGRESS | EOTHER

record env =
  oom :: "nat \<Rightarrow> bool"
  allocs :: nat
  junk :: arr
  live :: int
  errno_v :: errno

text \<open>\<open>malloc(n) != NULL\<close>; the callers only look at whether they got a block.\<close>

definition malloc :: "('r env_scheme, bool) act" where
  "malloc = (\<lambda>s.
     if oom s (allocs s) then Inr (False, s\<lparr>allocs := Suc (allocs s), errno_v := ENOMEM\<rparr>)
     else Inr (True, s\<lparr>allocs := Suc (allocs s), live := live s + 1\<rparr>))"

definition free :: "('r env_scheme, unit) act" where
  "free = modifies (\<lambda>s. s\<lparr>live := live s - 1\<rparr>)"

text \<open>
  \<open>realloc(p, n) != NULL\<close> for a live block \<open>p\<close>.  No block is larger than \<open>PTRDIFF_MAX\<close>;
  \<open>realloc(p, 0)\<close> has no defined meaning.  A failed call leaves the old block alone.
\<close>

definition realloc :: "nat \<Rightarrow> ('r env_scheme, bool) act" where
  "realloc n = (\<lambda>s.
     if n = 0 then Inl BadRealloc
     else if 2 ^ 63 \<le> n \<or> oom s (allocs s)
       then Inr (False, s\<lparr>allocs := Suc (allocs s), errno_v := ENOMEM\<rparr>)
     else Inr (True, s\<lparr>allocs := Suc (allocs s)\<rparr>))"

text \<open>
  What the kernel has for one \<open>read\<close> or \<open>write\<close>: the bytes waiting in the socket (none
  at the end of the stream), the number of bytes it is ready to take, or an error.
\<close>

datatype rd_result = RdBytes "byte list" | RdErr errno
datatype wr_result = WrOk nat | WrErr errno

text \<open>What an operation may do to the allocator's state and what it leaves alone.\<close>

definition env_step :: "'r env_scheme \<Rightarrow> 'r env_scheme \<Rightarrow> bool" where
  "env_step s t \<longleftrightarrow> t = s\<lparr>allocs := allocs t, live := live t, errno_v := errno_v t\<rparr>"

lemma env_step_refl [simp, intro]: "env_step s s"
  by (cases s) (simp add: env_step_def)

lemma env_step_trans: "env_step s t \<Longrightarrow> env_step t u \<Longrightarrow> env_step s u"
  by (cases s; cases t; cases u) (simp add: env_step_def)

lemma env_step_updates [simp]:
  "env_step s (t\<lparr>allocs := a\<rparr>) = env_step s t" "env_step s (t\<lparr>live := l\<rparr>) = env_step s t"
  "env_step s (t\<lparr>errno_v := e\<rparr>) = env_step s t"
  by (cases s; cases t; auto simp: env_step_def)+

lemma env_step_same: "env_step s t \<Longrightarrow> oom t = oom s \<and> junk t = junk s"
  by (cases s; cases t) (simp add: env_step_def)

lemma wpe_malloc [wp]:
  "wpe E malloc Q s =
     (if oom s (allocs s) then Q False (s\<lparr>allocs := Suc (allocs s), errno_v := ENOMEM\<rparr>)
      else Q True (s\<lparr>allocs := Suc (allocs s), live := live s + 1\<rparr>))"
  by (simp add: wpe_def malloc_def)

lemma wpe_free [wp]: "wpe E free Q s = Q () (s\<lparr>live := live s - 1\<rparr>)"
  by (simp add: free_def wp)

lemma wpe_realloc [wp]:
  "wpe E (realloc n) Q s =
     (if n = 0 then BadRealloc \<in> E
      else if 2 ^ 63 \<le> n \<or> oom s (allocs s)
        then Q False (s\<lparr>allocs := Suc (allocs s), errno_v := ENOMEM\<rparr>)
      else Q True (s\<lparr>allocs := Suc (allocs s)\<rparr>))"
  by (simp add: wpe_def realloc_def)

end
