(* ===== verification/Buff.thy ===== *)
theory Buff
  imports Machine
begin

text \<open>
  The growable I/O buffer of \<open>buff.h\<close> and \<open>buff.c\<close>.  The heap block is a function from
  offsets to bytes with \<open>cap\<close> as its bound; offsets are \<open>size_t\<close> values.  Operations that
  change the buffer return the new one next to the C return value.  The readable bytes,
  \<open>contents\<close>, are what the rest of the program relies on: the second half shows that the
  operations are those of a byte queue, and states that contract as a locale.
\<close>

section \<open>The code\<close>

record buff =
  data :: arr
  write_index :: nat
  read_index :: nat
  cap :: nat

definition buff_create :: "nat \<Rightarrow> ('r env_scheme, buff option) act" where
  "buff_create n =
     bnd malloc (\<lambda>ok.
     if \<not> ok then ret None
     else bnd malloc (\<lambda>ok.
     if \<not> ok then bnd free (\<lambda>_. ret None)
     else bnd (gets junk) (\<lambda>d.
     ret (Some \<lparr>data = d, write_index = 0, read_index = 0, cap = n\<rparr>))))"

definition buff_release :: "buff \<Rightarrow> ('r env_scheme, unit) act" where
  "buff_release b = bnd free (\<lambda>_. free)"

definition buff_readable :: "buff \<Rightarrow> nat" where
  "buff_readable b = size_sub (write_index b) (read_index b)"

definition buff_prependable :: "buff \<Rightarrow> nat" where
  "buff_prependable b = read_index b"

definition buff_writable :: "buff \<Rightarrow> nat" where
  "buff_writable b = size_sub (cap b) (write_index b)"

text \<open>
  \<open>int newcap = buff->cap * 2\<close> narrows to 32 bits, and the negative values it can give
  become sizes beyond \<open>PTRDIFF_MAX\<close> again when they are passed to \<open>realloc\<close>.
\<close>

definition buff_expand :: "buff \<Rightarrow> ('r env_scheme, int \<times> buff) act" where
  "buff_expand b =
     (let newcap = of_int_size (to_int ((cap b * 2) mod 2 ^ 64)) in
      bnd (realloc newcap) (\<lambda>ok.
      if \<not> ok then ret (-1, b)
      else bnd (gets junk) (\<lambda>j.
      ret (0, b\<lparr>cap := newcap, data := (\<lambda>i. if i < cap b \<and> i < newcap then data b i else j i)\<rparr>))))"

text \<open>The call of \<open>read\<close> with room for \<open>writable\<close> bytes, and what follows it.\<close>

definition buff_read_into :: "rd_result \<Rightarrow> buff \<Rightarrow> int \<Rightarrow> ('r env_scheme, int \<times> buff) act" where
  "buff_read_into kr b writable =
     (case kr of
       RdErr e \<Rightarrow> bnd (modifies (errno_v_update (\<lambda>_. e))) (\<lambda>_. ret (-1, b))
     | RdBytes bs \<Rightarrow>
         let got = take (of_int_size writable) bs; n = to_int (length got) in
         if cap b < write_index b + length got then halt OutOfBounds
         else let b = b\<lparr>data := arr_copy (data b) (write_index b) got\<rparr> in
         if n \<le> 0 then ret (n, b)
         else ret (n, b\<lparr>write_index := size_add (write_index b) (of_int_size n)\<rparr>))"

definition buff_readfd :: "rd_result \<Rightarrow> buff \<Rightarrow> ('r env_scheme, int \<times> buff) act" where
  "buff_readfd kr b =
     (let writable = to_int (buff_writable b) in
      if writable \<le> 0 then
        bnd (c_assert (writable = 0)) (\<lambda>_.
        bnd (buff_expand b) (\<lambda>(r, b).
        if r < 0 then ret (-1, b)
        else buff_read_into kr b (to_int (buff_writable b))))
      else buff_read_into kr b writable)"

text \<open>The second component of the result is what went out on the descriptor.\<close>

definition buff_writefd :: "wr_result \<Rightarrow> buff \<Rightarrow> ('r env_scheme, int \<times> byte list \<times> buff) act" where
  "buff_writefd kw b =
     (let readable = to_int (buff_readable b) in
      case kw of
        WrErr e \<Rightarrow> bnd (modifies (errno_v_update (\<lambda>_. e))) (\<lambda>_. ret (-1, [], b))
      | WrOk k \<Rightarrow>
          let n = to_int (min k (of_int_size readable));
              out = map (data b) [read_index b ..< read_index b + of_int_size n] in
          if n \<le> 0 then ret (n, [], b)
          else ret (n, out, b\<lparr>read_index := size_add (read_index b) (of_int_size n)\<rparr>))"

text \<open>\<open>buff_read\<close> returns the bytes it copied to \<open>dst\<close>.\<close>

definition buff_read :: "buff \<Rightarrow> nat \<Rightarrow> ('s, byte list \<times> buff) act" where
  "buff_read b n =
     (let readable = buff_readable b in
      bnd (c_assert (n \<le> readable)) (\<lambda>_.
      if cap b < read_index b + n then halt OutOfBounds
      else ret (map (data b) [read_index b ..< read_index b + n],
                b\<lparr>read_index := size_add (read_index b) n\<rparr>)))"

definition buff_skip :: "buff \<Rightarrow> nat \<Rightarrow> ('s, buff) act" where
  "buff_skip b n =
     (let readable = buff_readable b in
      bnd (c_assert (n \<le> readable)) (\<lambda>_.
      ret (b\<lparr>read_index := size_add (read_index b) n\<rparr>)))"

text \<open>
  The \<open>for (;;)\<close> of \<open>buff_write\<close>: append where there is room, else move the readable bytes
  to the front, else double the block and try again.
\<close>

function buff_reserve :: "buff \<Rightarrow> nat \<Rightarrow> ('r env_scheme, int \<times> buff) act" where
  "buff_reserve b n s =
     (let writable = buff_writable b in
      if n \<le> writable then ret (0, b) s
      else let prependable = buff_prependable b in
      if n \<le> size_add prependable writable then
        (let readable = of_int_size (to_int (buff_readable b)) in
         if cap b < read_index b + readable then halt OutOfBounds s
         else ret (0, b\<lparr>data := arr_copy (data b) 0 (map (data b) [read_index b ..< read_index b + readable]),
                       read_index := 0,
                       write_index := size_sub (write_index b) prependable\<rparr>) s)
      else bnd (buff_expand b) (\<lambda>(r, b'). if r < 0 then ret (-1, b') else buff_reserve b' n) s)"
  by pat_completeness auto


text \<open>
  Whatever the capacity was, a doubled one that \<open>int\<close> can hold is below \<open>2 ^ 31\<close> and
  larger than one that was below it: the loop ends.
\<close>

lemma of_int_size_pos: "0 < i \<Longrightarrow> i < 2 ^ 31 \<Longrightarrow> of_int_size i = nat i"
  by (simp add: of_int_size_def)

lemma of_int_size_neg: "- (2 ^ 31) \<le> i \<Longrightarrow> i < 0 \<Longrightarrow> 2 ^ 63 \<le> of_int_size i"
proof -
  assume i: "- (2 ^ 31) \<le> i" "i < 0"
  then have "i mod 2 ^ 64 = i + 2 ^ 64"
    by (subst mod_add_self2 [symmetric], subst mod_pos_pos_trivial) auto
  with i show ?thesis by (simp add: of_int_size_def)
qed

lemma to_int_range: "- (2 ^ 31) \<le> to_int n \<and> to_int n < 2 ^ 31"
proof -
  have "n mod 4294967296 < 4294967296" by simp
  then show ?thesis by (auto simp: to_int_def Let_def)
qed

lemma buff_expand_cap:
  assumes "buff_expand b s = Inr ((r, b'), t)" and "\<not> r < 0"
  shows "0 < cap b'" "cap b' < 2 ^ 31" "cap b < 2 ^ 31 \<Longrightarrow> cap b < cap b'"
proof -
  let ?i = "to_int ((cap b * 2) mod 2 ^ 64)"
  from assms have ok: "of_int_size ?i \<noteq> 0" "of_int_size ?i < 2 ^ 63" "cap b' = of_int_size ?i"
    by (auto simp: buff_expand_def bnd_def ret_def gets_def realloc_def Let_def split: if_splits)
  have pos: "0 < ?i"
  proof (rule ccontr)
    assume "\<not> 0 < ?i"
    then consider "?i = 0" | "?i < 0" by linarith
    then show False
    proof cases
      case 1
      with ok(1) show False by (simp add: of_int_size_def)
    next
      case 2
      with of_int_size_neg to_int_range ok(2) show False by (meson not_le)
    qed
  qed
  then have cap: "cap b' = nat ?i"
    using ok(3) of_int_size_pos to_int_range by simp
  with pos show "0 < cap b'" by simp
  from cap pos to_int_range [of "(cap b * 2) mod 2 ^ 64"] show "cap b' < 2 ^ 31" by simp
  show "cap b < cap b'" if small: "cap b < 2 ^ 31"
  proof -
    have m: "(cap b * 2) mod 2 ^ 64 = cap b * 2" "(cap b * 2) mod 2 ^ 32 = cap b * 2"
      using small by simp_all
    have "?i = int (cap b * 2) \<or> ?i = int (cap b * 2) - 2 ^ 32"
      by (simp only: m to_int_def Let_def) simp
    with pos small have "?i = int (cap b * 2)" by auto
    with cap pos show ?thesis by simp
  qed
qed

termination buff_reserve
proof (relation "measure (\<lambda>(b, _). if cap b < 2 ^ 31 then 2 ^ 31 - cap b else 2 ^ 31 + 1)", goal_cases)
  case 1
  then show ?case by simp
next
  case (2 b n s w p x t r b')
  then have e: "buff_expand b s = Inr ((r, b'), t)" by simp
  from 2 have "\<not> r < 0" by simp
  note c = buff_expand_cap [OF e this]
  from c show ?case by auto
qed

declare buff_reserve.simps [simp del]

definition buff_write :: "buff \<Rightarrow> byte list \<Rightarrow> ('r env_scheme, int \<times> buff) act" where
  "buff_write b src =
     bnd (buff_reserve b (length src)) (\<lambda>(r, b).
     if r < 0 then ret (-1, b)
     else if cap b < write_index b + length src then halt OutOfBounds
     else ret (0, b\<lparr>data := arr_copy (data b) (write_index b) src,
                    write_index := size_add (write_index b) (length src)\<rparr>))"

definition buff_concat :: "buff \<Rightarrow> buff \<Rightarrow> ('r env_scheme, int \<times> buff) act" where
  "buff_concat front rear =
     (let n = buff_readable rear in
      if cap rear < read_index rear + n then halt OutOfBounds
      else buff_write front (map (data rear) [read_index rear ..< read_index rear + n]))"

definition buff_clear :: "buff \<Rightarrow> buff" where
  "buff_clear b = b\<lparr>write_index := 0, read_index := 0\<rparr>"

section \<open>What a well-formed buffer promises\<close>

definition cap_ok :: "nat \<Rightarrow> bool" where
  "cap_ok c \<longleftrightarrow> (\<exists>k \<le> 30. c = 2 ^ k)"

definition wf_buff :: "buff \<Rightarrow> bool" where
  "wf_buff b \<longleftrightarrow> read_index b \<le> write_index b \<and> write_index b \<le> cap b \<and> cap_ok (cap b)"

definition contents :: "buff \<Rightarrow> byte list" where
  "contents b = map (data b) [read_index b ..< write_index b]"

lemma cap_ok_bounds: "cap_ok c \<Longrightarrow> 0 < c \<and> c \<le> 2 ^ 30"
  using power_increasing [of _ 30 "2::nat"] by (auto simp: cap_ok_def)

lemma cap_ok_double: "cap_ok c \<Longrightarrow> c \<noteq> 2 ^ 30 \<Longrightarrow> cap_ok (2 * c) \<and> c < 2 ^ 30"
proof -
  assume "cap_ok c" "c \<noteq> 2 ^ 30"
  then obtain k where k: "k \<le> 30" "c = 2 ^ k" unfolding cap_ok_def by blast
  with \<open>c \<noteq> 2 ^ 30\<close> have "k \<noteq> 30" by blast
  with k have "Suc k \<le> 30" "2 * c = 2 ^ Suc k" "(2::nat) ^ k < 2 ^ 30"
    using power_strict_increasing [of k 30 "2::nat"] by simp_all
  with k(2) show ?thesis unfolding cap_ok_def by blast
qed

lemma wf_buff_bounds:
  assumes "wf_buff b"
  shows "read_index b \<le> write_index b" "write_index b \<le> cap b" "0 < cap b" "cap b \<le> 2 ^ 30"
  using assms cap_ok_bounds by (auto simp: wf_buff_def)

lemma length_contents: "length (contents b) = write_index b - read_index b"
  by (simp add: contents_def)

lemma buff_readable_wf: "wf_buff b \<Longrightarrow> buff_readable b = length (contents b)"
  using wf_buff_bounds [of b] by (simp add: buff_readable_def size_sub_le length_contents)

lemma buff_writable_wf: "wf_buff b \<Longrightarrow> buff_writable b = cap b - write_index b"
  using wf_buff_bounds [of b] by (simp add: buff_writable_def size_sub_le)

lemma length_contents_bound: "wf_buff b \<Longrightarrow> length (contents b) \<le> 2 ^ 30"
  using wf_buff_bounds [of b] by (simp add: length_contents)

lemma buff_create_spec:
  assumes "cap_ok n"
  shows "wpe {} (buff_create n) (\<lambda>r t. env_step s t \<and>
           (case r of None \<Rightarrow> (\<exists>k. oom s k) \<and> live t = live s
            | Some b \<Rightarrow> wf_buff b \<and> contents b = [] \<and> cap b = n \<and> live t = live s + 2)) s"
  using assms by (auto simp: buff_create_def wp wf_buff_def contents_def)

lemma expand_narrow:
  assumes "cap_ok c"
  shows "c = 2 ^ 30 \<Longrightarrow> of_int_size (to_int ((c * 2) mod 2 ^ 64)) = 2 ^ 64 - 2 ^ 31"
    and "c \<noteq> 2 ^ 30 \<Longrightarrow> of_int_size (to_int ((c * 2) mod 2 ^ 64)) = 2 * c"
proof -
  show "of_int_size (to_int ((c * 2) mod 2 ^ 64)) = 2 ^ 64 - 2 ^ 31" if "c = 2 ^ 30"
    by (simp add: that to_int_def of_int_size_def Let_def)
  assume "c \<noteq> 2 ^ 30"
  with assms have "c < 2 ^ 30" using cap_ok_double by blast
  then have "(c * 2) mod 2 ^ 64 = 2 * c" "2 * c < 2 ^ 31" "2 * c < 2 ^ 64" by simp_all
  then show "of_int_size (to_int ((c * 2) mod 2 ^ 64)) = 2 * c"
    using of_int_size_int [of "2 * c"] by (simp only: to_int_small)
qed

lemma buff_expand_spec:
  assumes "wf_buff b"
  shows "wpe {} (buff_expand b) (\<lambda>(r, b') t. env_step s t \<and> wf_buff b' \<and>
           contents b' = contents b \<and> write_index b' = write_index b \<and>
           (r = 0 \<and> cap b' = 2 * cap b \<or>
            r = -1 \<and> b' = b \<and> (cap b = 2 ^ 30 \<or> (\<exists>k. oom s k)))) s"
proof (cases "cap b = 2 ^ 30")
  case True
  with assms have n: "of_int_size (to_int ((cap b * 2) mod 2 ^ 64)) = 2 ^ 64 - 2 ^ 31"
    using expand_narrow(1) wf_buff_def by blast
  from True assms show ?thesis unfolding buff_expand_def Let_def n by (simp add: wp)
next
  case False
  from assms have "cap_ok (cap b)" by (simp add: wf_buff_def)
  with False have n: "of_int_size (to_int ((cap b * 2) mod 2 ^ 64)) = 2 * cap b"
    and d: "cap_ok (2 * cap b)" "cap b < 2 ^ 30"
    using expand_narrow(2) cap_ok_double by blast+
  from assms have "0 < cap b" "read_index b \<le> write_index b" "write_index b \<le> cap b"
    by (simp_all add: wf_buff_bounds)
  with d \<open>cap_ok (cap b)\<close> show ?thesis unfolding buff_expand_def Let_def n
    by (auto simp: wp wf_buff_def contents_def)
qed

lemma buff_reserve_spec:
  assumes "wf_buff b"
  shows "wpe {} (buff_reserve b n) (\<lambda>(r, b') t. env_step s t \<and> wf_buff b' \<and>
           contents b' = contents b \<and>
           (r = 0 \<and> write_index b' + n \<le> cap b' \<or>
            r = -1 \<and> (2 ^ 30 < length (contents b) + n \<or> (\<exists>k. oom s k)))) s"
  using assms
proof (induction b n s rule: buff_reserve.induct)
  case (1 b n s)
  note bnds = wf_buff_bounds [OF "1.prems"]
  have wr: "buff_writable b = cap b - write_index b" and re: "buff_readable b = write_index b - read_index b"
    using "1.prems" by (simp_all add: buff_writable_wf buff_readable_wf length_contents)
  have pw: "size_add (buff_prependable b) (buff_writable b) = read_index b + (cap b - write_index b)"
    using bnds by (simp add: wr buff_prependable_def size_add_small)
  have ri: "of_int_size (to_int (buff_readable b)) = write_index b - read_index b"
    using bnds unfolding re by (simp add: to_int_small of_int_size_int del: of_nat_diff)
  have ws: "size_sub (write_index b) (buff_prependable b) = write_index b - read_index b"
    using bnds by (simp add: buff_prependable_def size_sub_le)
  show ?case
  proof (cases "n \<le> buff_writable b")
    case True
    then have "buff_reserve b n s = ret (0, b) s" by (simp add: buff_reserve.simps [of b n s] Let_def)
    with True "1.prems" bnds show ?thesis by (simp add: wpe_def ret_def wr)
  next
    case nofit: False
    show ?thesis
    proof (cases "n \<le> size_add (buff_prependable b) (buff_writable b)")
      case True
      let ?b = "b\<lparr>data := arr_copy (data b) 0 (contents b), read_index := 0,
                  write_index := write_index b - read_index b\<rparr>"
      have "buff_reserve b n s = ret (0, ?b) s"
        using nofit True bnds
        by (simp add: buff_reserve.simps [of b n s] Let_def ri ws contents_def)
      moreover have "contents ?b = contents b"
        by (auto simp: contents_def arr_copy_def intro!: nth_equalityI)
      ultimately show ?thesis
        using "1.prems" bnds True by (auto simp: wpe_def ret_def pw wf_buff_def)
    next
      case noslide: False
      have eq: "buff_reserve b n s =
          bnd (buff_expand b) (\<lambda>(r, b'). if r < 0 then ret (-1, b') else buff_reserve b' n) s"
        using nofit noslide by (simp add: buff_reserve.simps [of b n s] Let_def)
      from buff_expand_spec [OF "1.prems", of s] obtain r b' t where
        e: "buff_expand b s = Inr ((r, b'), t)" and st: "env_step s t" and
        b': "wf_buff b'" "contents b' = contents b" and
        r: "r = 0 \<and> cap b' = 2 * cap b \<or> r = -1 \<and> b' = b \<and> (cap b = 2 ^ 30 \<or> (\<exists>k. oom s k))"
        by (auto dest!: wpe_total)
      show ?thesis
      proof (cases "r < 0")
        case True
        with r have "b' = b" "cap b = 2 ^ 30 \<or> (\<exists>k. oom s k)" by auto
        moreover have "cap b = 2 ^ 30 \<Longrightarrow> 2 ^ 30 < length (contents b) + n"
          using noslide bnds by (simp add: pw length_contents)
        ultimately show ?thesis using True st b' r
          by (auto simp: wpe_def eq bnd_def e ret_def)
      next
        case False
        have IH: "wpe {} (buff_reserve b' n) (\<lambda>(r, b'') u. env_step t u \<and> wf_buff b'' \<and>
           contents b'' = contents b' \<and>
           (r = 0 \<and> write_index b'' + n \<le> cap b'' \<or>
            r = -1 \<and> (2 ^ 30 < length (contents b') + n \<or> (\<exists>k. oom t k)))) t"
          by (rule "1.IH" [OF refl nofit refl noslide e refl False b'(1)])
        have "buff_reserve b n s = buff_reserve b' n t"
          using False by (simp add: eq bnd_def e)
        with IH b' env_step_trans [OF st] env_step_same [OF st] show ?thesis
          by (auto simp: wpe_def split: sum.splits prod.splits)
      qed
    qed
  qed
qed

lemma contents_append:
  assumes "wf_buff b" and "write_index b + length xs \<le> cap b"
  shows "contents (b\<lparr>data := arr_copy (data b) (write_index b) xs,
                     write_index := size_add (write_index b) (length xs)\<rparr>) = contents b @ xs"
    and "wf_buff (b\<lparr>data := arr_copy (data b) (write_index b) xs,
                     write_index := size_add (write_index b) (length xs)\<rparr>)"
proof -
  note bnds = wf_buff_bounds [OF assms(1)]
  let ?d = "arr_copy (data b) (write_index b) xs" and ?w = "write_index b + length xs"
  have w: "size_add (write_index b) (length xs) = ?w"
    using bnds assms(2) by (simp add: size_add_small)
  have new: "map ?d [write_index b ..< ?w] = xs"
    by (rule nth_equalityI) (simp_all add: arr_copy_def)
  have old: "map ?d [read_index b ..< write_index b] = contents b"
    by (simp add: contents_def arr_copy_def)
  have "[read_index b ..< ?w] = [read_index b ..< write_index b] @ [write_index b ..< ?w]"
    using bnds(1) by (rule upt_add_eq_append)
  then have "map ?d [read_index b ..< ?w] = contents b @ xs"
    by (simp only: map_append new old)
  then show "contents (b\<lparr>data := arr_copy (data b) (write_index b) xs,
                     write_index := size_add (write_index b) (length xs)\<rparr>) = contents b @ xs"
    unfolding w by (simp add: contents_def)
  show "wf_buff (b\<lparr>data := arr_copy (data b) (write_index b) xs,
                     write_index := size_add (write_index b) (length xs)\<rparr>)"
    using assms bnds by (simp add: w wf_buff_def)
qed

lemma contents_drop:
  assumes "wf_buff b" and "n \<le> length (contents b)"
  shows "contents (b\<lparr>read_index := size_add (read_index b) n\<rparr>) = drop n (contents b)"
    and "wf_buff (b\<lparr>read_index := size_add (read_index b) n\<rparr>)"
    and "map (data b) [read_index b ..< read_index b + n] = take n (contents b)"
proof -
  note bnds = wf_buff_bounds [OF assms(1)]
  have r: "size_add (read_index b) n = read_index b + n"
    using bnds assms(2) by (simp add: size_add_small length_contents)
  show "contents (b\<lparr>read_index := size_add (read_index b) n\<rparr>) = drop n (contents b)"
    by (simp add: contents_def r drop_map)
  show "wf_buff (b\<lparr>read_index := size_add (read_index b) n\<rparr>)"
    using assms bnds by (auto simp: r wf_buff_def length_contents)
  show "map (data b) [read_index b ..< read_index b + n] = take n (contents b)"
    using assms(2) bnds by (simp add: contents_def take_map)
qed

lemma buff_write_spec:
  assumes "wf_buff b"
  shows "wpe {} (buff_write b xs) (\<lambda>(r, b') t. env_step s t \<and> wf_buff b' \<and>
           (r = 0 \<and> contents b' = contents b @ xs \<or>
            r = -1 \<and> contents b' = contents b \<and>
              (2 ^ 30 < length (contents b) + length xs \<or> (\<exists>k. oom s k)))) s"
  unfolding buff_write_def wpe_bnd
  by (rule wpe_conseq [OF buff_reserve_spec [OF assms]])
     (auto simp: wp contents_append split: prod.splits)

lemma buff_concat_eq: "wf_buff rear \<Longrightarrow> buff_concat front rear = buff_write front (contents rear)"
  using wf_buff_bounds [of rear]
  by (simp add: buff_concat_def buff_readable_wf length_contents contents_def)

lemma buff_concat_spec:
  assumes "wf_buff front" and "wf_buff rear"
  shows "wpe {} (buff_concat front rear) (\<lambda>(r, b') t. env_step s t \<and> wf_buff b' \<and>
           (r = 0 \<and> contents b' = contents front @ contents rear \<or>
            r = -1 \<and> contents b' = contents front \<and>
              (2 ^ 30 < length (contents front) + length (contents rear) \<or> (\<exists>k. oom s k)))) s"
  unfolding buff_concat_eq [OF assms(2)] by (rule buff_write_spec [OF assms(1)])

lemma buff_read_spec:
  assumes "wf_buff b" and "n \<le> length (contents b)"
  shows "buff_read b n s =
     Inr ((take n (contents b), b\<lparr>read_index := size_add (read_index b) n\<rparr>), s)"
  using assms wf_buff_bounds [OF assms(1)] contents_drop(3) [OF assms]
  by (simp add: buff_read_def Let_def buff_readable_wf c_assert_def) (auto simp: ret_def halt_def length_contents)

lemma wpe_buff_read [wp]:
  assumes "wf_buff b" and "n \<le> length (contents b)"
  shows "wpe E (buff_read b n) Q s =
     Q (take n (contents b), b\<lparr>read_index := size_add (read_index b) n\<rparr>) s"
  by (simp add: wpe_def buff_read_spec [OF assms])

lemma buff_skip_spec:
  assumes "wf_buff b" and "n \<le> length (contents b)"
  shows "buff_skip b n s = Inr (b\<lparr>read_index := size_add (read_index b) n\<rparr>, s)"
  using assms by (simp add: buff_skip_def Let_def buff_readable_wf c_assert_def) (simp add: ret_def)

lemma buff_clear_contents [simp]: "contents (buff_clear b) = []"
  by (simp add: buff_clear_def contents_def)

lemma buff_clear_wf [simp]: "wf_buff b \<Longrightarrow> wf_buff (buff_clear b)"
  by (simp add: buff_clear_def wf_buff_def)

text \<open>
  \<open>read\<close> gets what is free in the block, and a full block is doubled first, so a well-formed
  buffer always offers the kernel at least one byte.
\<close>

lemma buff_read_into_spec:
  assumes wf: "wf_buff b" and room: "write_index b < cap b"
  shows "wpe {} (buff_read_into kr b (to_int (buff_writable b))) (\<lambda>(n, b') t. env_step s t \<and> wf_buff b' \<and>
           (case kr of
              RdErr e \<Rightarrow> n = -1 \<and> contents b' = contents b
            | RdBytes bs \<Rightarrow> (\<exists>k. 0 < k \<and> n = int (min k (length bs)) \<and> contents b' = contents b @ take k bs))) s"
proof (cases kr)
  case (RdErr e)
  with wf show ?thesis by (simp add: wp buff_read_into_def)
next
  case (RdBytes bs)
  let ?k = "cap b - write_index b" and ?got = "take (cap b - write_index b) bs"
  note bnds = wf_buff_bounds [OF wf]
  have k: "of_int_size (to_int (buff_writable b)) = ?k"
    using bnds wf by (simp add: buff_writable_wf to_int_small of_int_size_int del: of_nat_diff)
  have len: "to_int (length ?got) = int (min ?k (length bs))" "of_int_size (to_int (length ?got)) = length ?got"
    using bnds by (simp_all add: to_int_small of_int_size_int del: of_nat_min)
  have fit: "write_index b + length ?got \<le> cap b" using room by simp
  show ?thesis
  proof (cases "bs = []")
    case True
    have "wf_buff (b\<lparr>data := arr_copy (data b) (write_index b) []\<rparr>)" using wf by simp
    with True room show ?thesis
      by (simp add: buff_read_into_def RdBytes wp to_int_small not_less bnds) (auto intro!: exI [of _ 1])
  next
    case False
    with room have "\<not> to_int (length ?got) \<le> 0" unfolding len(1) by simp
    with fit have "buff_read_into kr b (to_int (buff_writable b)) s =
        ret (to_int (length ?got), b\<lparr>data := arr_copy (data b) (write_index b) ?got,
                            write_index := size_add (write_index b) (length ?got)\<rparr>) s"
      by (simp add: buff_read_into_def RdBytes k Let_def len(2) del: length_take)
    moreover have "int (min ?k (length bs)) = to_int (length ?got)" by (rule len(1) [symmetric])
    ultimately show ?thesis
      using contents_append [OF wf fit] room
      by (auto simp: wpe_def ret_def RdBytes simp del: length_take intro!: exI [of _ ?k])
  qed
qed

lemma buff_readfd_spec:
  assumes "wf_buff b"
  shows "wpe {} (buff_readfd kr b) (\<lambda>(n, b') t. env_step s t \<and> wf_buff b' \<and>
           (n = -1 \<and> contents b' = contents b \<and>
              ((\<exists>e. kr = RdErr e) \<or> write_index b = 2 ^ 30 \<or> (\<exists>k. oom s k)) \<or>
            (\<exists>bs k. kr = RdBytes bs \<and> 0 < k \<and> n = int (min k (length bs)) \<and>
               contents b' = contents b @ take k bs))) s"
    (is "wpe {} _ ?Q s")
proof -
  note bnds = wf_buff_bounds [OF assms]
  have w: "to_int (buff_writable b) = int (cap b - write_index b)"
    using bnds assms by (simp add: buff_writable_wf to_int_small del: of_nat_diff)
  have into: "wpe {} (buff_read_into kr b' (to_int (buff_writable b'))) ?Q t"
    if "wf_buff b'" "write_index b' < cap b'" "contents b' = contents b" "env_step s t" for b' t
    by (rule wpe_conseq [OF buff_read_into_spec [OF that(1,2)]])
       (use that(3) env_step_trans [OF that(4)] in \<open>auto split: rd_result.splits\<close>)
  show ?thesis
  proof (cases "write_index b < cap b")
    case True
    then have "\<not> to_int (buff_writable b) \<le> 0" unfolding w by simp
    with into [OF assms True] show ?thesis by (simp add: buff_readfd_def)
  next
    case False
    then have "to_int (buff_writable b) = 0" unfolding w by simp
    then have "wpe {} (buff_readfd kr b) ?Q s = wpe {} (buff_expand b) (\<lambda>(r, b').
        wpe {} (if r < 0 then ret (-1, b') else buff_read_into kr b' (to_int (buff_writable b'))) ?Q) s"
      by (simp add: buff_readfd_def c_assert_def wpe_bnd case_prod_beta')
    also have \<dots>
    proof (rule wpe_conseq [OF buff_expand_spec [OF assms]], clarify)
      fix r :: int and b' t
      assume st: "env_step s t" and b': "wf_buff b'" "contents b' = contents b" "write_index b' = write_index b"
        and r: "r = 0 \<and> cap b' = 2 * cap b \<or> r = - 1 \<and> b' = b \<and> (cap b = 2 ^ 30 \<or> (\<exists>k. oom s k))"
      show "wpe {} (if r < 0 then ret (- 1, b') else buff_read_into kr b' (to_int (buff_writable b'))) ?Q t"
      proof (cases "r < 0")
        case True
        with r False bnds st assms show ?thesis by (auto simp: wp length_contents)
      next
        case False
        with r bnds b' have "write_index b' < cap b'" by auto
        with into [OF b'(1)] b'(2) st False show ?thesis by simp
      qed
    qed
    finally show ?thesis .
  qed
qed

lemma buff_writefd_spec:
  assumes "wf_buff b"
  shows "wpe {} (buff_writefd kw b) (\<lambda>(n, out, b') t. env_step s t \<and> wf_buff b' \<and>
           contents b = out @ contents b' \<and>
           (case kw of
              WrErr e \<Rightarrow> n = -1 \<and> out = [] \<and> errno_v t = e
            | WrOk k \<Rightarrow> n = int (length out) \<and> length out = min k (length (contents b)))) s"
proof (cases kw)
  case (WrErr e)
  with assms show ?thesis by (simp add: buff_writefd_def Let_def wp)
next
  case (WrOk k)
  let ?n = "min k (length (contents b))"
  have small: "length (contents b) < 2 ^ 31" using length_contents_bound [OF assms] by simp
  then have ri: "of_int_size (to_int (buff_readable b)) = length (contents b)"
    by (simp add: buff_readable_wf [OF assms] to_int_small of_int_size_int)
  have n: "to_int ?n = int ?n" "of_int_size (int ?n) = ?n"
    using small by (simp_all add: to_int_small of_int_size_int del: of_nat_min)
  have le: "?n \<le> length (contents b)" by simp
  show ?thesis
  proof (cases "?n = 0")
    case True
    with assms show ?thesis by (auto simp: buff_writefd_def Let_def WrOk ri n wp simp del: of_nat_min)
  next
    case False
    then have "\<not> int ?n \<le> 0" by (simp del: of_nat_min)
    with contents_drop [OF assms le] assms show ?thesis
      by (auto simp: buff_writefd_def Let_def WrOk ri n wp min.commute simp del: of_nat_min)
  qed
qed

section \<open>The byte queue contract\<close>

text \<open>
  What the proxy relies on when it moves bytes through buffers: \<open>put\<close> appends all bytes or
  none, \<open>get\<close> takes from the front.  The lemmas of the locale are about sequences of such
  calls and hold for every implementation that keeps the two laws.
\<close>

fun put_all :: "('b \<Rightarrow> byte list \<Rightarrow> ('s, int \<times> 'b) act) \<Rightarrow> 'b \<Rightarrow> byte list list \<Rightarrow> ('s, int \<times> 'b) act" where
  "put_all put b [] = ret (0, b)"
| "put_all put b (c # cs) =
     bnd (put b c) (\<lambda>(r, b). if r < 0 then ret (r, b) else put_all put b cs)"

locale byte_queue =
  fixes ok :: "'b \<Rightarrow> bool"
    and bytes :: "'b \<Rightarrow> byte list"
    and put :: "'b \<Rightarrow> byte list \<Rightarrow> ('s, int \<times> 'b) act"
    and get :: "'b \<Rightarrow> nat \<Rightarrow> ('s, byte list \<times> 'b) act"
  assumes put: "ok b \<Longrightarrow> wpe {} (put b xs) (\<lambda>(r, b') t. ok b' \<and>
                  (r = 0 \<and> bytes b' = bytes b @ xs \<or> r = -1 \<and> bytes b' = bytes b)) s"
    and get: "ok b \<Longrightarrow> n \<le> length (bytes b) \<Longrightarrow> wpe {} (get b n) (\<lambda>(xs, b') t. ok b' \<and>
                  xs = take n (bytes b) \<and> bytes b' = drop n (bytes b)) s"
begin

lemma put_all_appends:
  assumes "ok b"
  shows "wpe {} (put_all put b cs) (\<lambda>(r, b') t. ok b' \<and>
           (r = 0 \<and> bytes b' = bytes b @ concat cs \<or>
            r = -1 \<and> (\<exists>k < length cs. bytes b' = bytes b @ concat (take k cs)))) s"
  using assms
proof (induction cs arbitrary: b s)
  case Nil
  then show ?case by (simp add: wp)
next
  case (Cons c cs)
  show ?case
  proof (unfold put_all.simps wpe_bnd, rule wpe_conseq [OF put [OF Cons.prems]], clarify)
    fix r :: int and b' t
    assume b': "ok b'" and r: "r = 0 \<and> bytes b' = bytes b @ c \<or> r = - 1 \<and> bytes b' = bytes b"
    show "wpe {} (if r < 0 then ret (r, b') else put_all put b' cs)
       (\<lambda>(r, b') t. ok b' \<and> (r = 0 \<and> bytes b' = bytes b @ concat (c # cs) \<or>
          r = -1 \<and> (\<exists>k < length (c # cs). bytes b' = bytes b @ concat (take k (c # cs))))) t"
    proof (cases "r < 0")
      case True
      with r b' show ?thesis by (auto simp: wp intro!: exI [of _ 0])
    next
      case False
      with r have "bytes b' = bytes b @ c" by auto
      then show ?thesis unfolding if_not_P [OF False]
        by (intro wpe_conseq [OF Cons.IH [OF b']])
           (auto intro!: exI [of _ "Suc _"])
    qed
  qed
qed

text \<open>The order of the bytes survives: what is taken after a \<open>put\<close> starts with the older ones.\<close>

lemma put_get:
  assumes "ok b"
  shows "wpe {} (bnd (put b xs) (\<lambda>(r, b). if r < 0 then ret (r, [], b)
                   else bnd (get b (length (bytes b))) (\<lambda>(ys, b). ret (r, ys, b))))
           (\<lambda>(r, ys, b') t. ok b' \<and> (r = 0 \<and> ys = bytes b @ xs \<and> bytes b' = [] \<or>
              r = -1 \<and> ys = [] \<and> bytes b' = bytes b)) s"
  unfolding wpe_bnd
  by (rule wpe_conseq [OF put [OF assms]])
     (auto simp: wp intro!: wpe_conseq [OF get])

end

interpretation bq: byte_queue wf_buff contents
  "buff_write :: buff \<Rightarrow> byte list \<Rightarrow> ('r env_scheme, int \<times> buff) act" buff_read
proof unfold_locales
  fix b xs and s :: "'r env_scheme"
  assume "wf_buff b"
  from buff_write_spec [OF this, of xs s]
  show "wpe {} (buff_write b xs) (\<lambda>(r, b') t. wf_buff b' \<and>
          (r = 0 \<and> contents b' = contents b @ xs \<or> r = - 1 \<and> contents b' = contents b)) s"
    by (rule wpe_conseq) auto
next
  fix b n and s :: "'r env_scheme"
  assume "wf_buff b" "n \<le> length (contents b)"
  then show "wpe {} (buff_read b n) (\<lambda>(xs, b') t. wf_buff b' \<and>
          xs = take n (contents b) \<and> contents b' = drop n (contents b)) s"
    by (simp add: wp contents_drop)
qed

section \<open>Properties\<close>

lemma buff_write_run:
  assumes "wf_buff b"
  obtains (ok) b' t where "buff_write b xs s = Inr ((0, b'), t)" "wf_buff b'" "contents b' = contents b @ xs"
      "env_step s t"
    | (full) b' t where "buff_write b xs s = Inr ((-1, b'), t)" "wf_buff b'" "contents b' = contents b"
      "env_step s t" "2 ^ 30 < length (contents b) + length xs \<or> (\<exists>k. oom s k)"
  using wpe_total [OF buff_write_spec [OF assms, of xs s]] by (auto, blast)

text \<open>
  C26: \<open>buff_write\<close> appends: if the readable bytes and the new ones together are at most
  \<open>2 ^ 30\<close> and the allocator has memory, the call returns \<open>0\<close>, the readable bytes are the old
  ones followed by the new ones, and the buffer is well formed (its offsets stay inside the block).
\<close>

theorem buff_write_appends:
  assumes "wf_buff b" and "length (contents b) + length xs \<le> 2 ^ 30" and "\<forall>k. \<not> oom s k"
  shows "\<exists>b' t. buff_write b xs s = Inr ((0, b'), t) \<and> wf_buff b' \<and> contents b' = contents b @ xs"
  using assms(2,3) by (cases rule: buff_write_run [OF assms(1), of xs s]) auto

definition env0 :: env where
  "env0 = \<lparr>oom = (\<lambda>_. False), allocs = 0, junk = (\<lambda>_. 0), live = 0, errno_v = EOTHER\<rparr>"

definition buff0 :: buff where
  "buff0 = \<lparr>data = (\<lambda>i. word_of_nat i), write_index = 3, read_index = 1, cap = 4\<rparr>"

lemma buff0_ok: "wf_buff buff0 \<and> contents buff0 = [1, 2]"
  by (auto simp: wf_buff_def buff0_def contents_def cap_ok_def upt_rec intro: exI [of _ 2])

lemma buff_write_appends_witness:
  "\<exists>b' t. buff_write buff0 [9, 9, 9] env0 = Inr ((0, b'), t) \<and> wf_buff b' \<and> contents b' = [1, 2, 9, 9, 9]"
  using buff_write_appends [of buff0 "[9, 9, 9]" env0] buff0_ok by (simp add: env0_def)

text \<open>
  C30: \<open>buff_write\<close> has a limit, because \<open>buff_expand\<close> computes the new capacity in an \<open>int\<close>:
  for more than \<open>2 ^ 30\<close> bytes it returns \<open>-1\<close> whatever the allocator does, and no byte that was
  readable is lost.
\<close>

theorem buff_write_limit:
  assumes "wf_buff b" and "2 ^ 30 < length (contents b) + length xs"
  shows "\<exists>b' t. buff_write b xs s = Inr ((-1, b'), t) \<and> wf_buff b' \<and> contents b' = contents b"
  using assms(2) length_contents_bound by (cases rule: buff_write_run [OF assms(1), of xs s]) fastforce+

lemma buff_write_limit_witness:
  "\<exists>b' t. buff_write buff0 (replicate (2 ^ 30) 7) env0 = Inr ((-1, b'), t) \<and> wf_buff b' \<and> contents b' = [1, 2]"
  using buff_write_limit [of buff0 "replicate (2 ^ 30) 7" env0] buff0_ok by simp

text \<open>
  C28: \<open>buff_readfd\<close> never writes outside the block, whatever the kernel delivers: it ends
  without a fault, what became readable is a prefix of what the kernel had, appended to the old
  content, and it is empty only if the kernel had nothing or reported an error, the buffer reached
  its limit, or memory ran out.
\<close>

theorem buff_readfd_bounded:
  assumes "wf_buff b"
  shows "\<exists>n b' t. buff_readfd kr b s = Inr ((n, b'), t) \<and> wf_buff b' \<and>
     (n = -1 \<and> contents b' = contents b \<and>
        ((\<exists>e. kr = RdErr e) \<or> write_index b = 2 ^ 30 \<or> (\<exists>k. oom s k)) \<or>
      (\<exists>bs k. kr = RdBytes bs \<and> 0 < k \<and> n = int (min k (length bs)) \<and>
         contents b' = contents b @ take k bs))"
  using wpe_total [OF buff_readfd_spec [OF assms, of kr s]] by auto

lemma buff_readfd_bounded_witness:
  "\<exists>n b' t k. buff_readfd (RdBytes [5, 6]) buff0 env0 = Inr ((n, b'), t) \<and> 0 < k \<and>
     contents b' = [1, 2] @ take k [5, 6]"
proof -
  have "write_index buff0 \<noteq> 2 ^ 30" "\<nexists>k. oom env0 k" by (simp_all add: buff0_def env0_def)
  then show ?thesis using buff_readfd_bounded [of buff0 "RdBytes [5, 6]" env0] buff0_ok by auto
qed

text \<open>
  C29: \<open>buff_writefd\<close> loses and repeats nothing: what goes out on the descriptor followed by
  what stays readable is what was readable before; the number returned is the number of bytes that
  went out, and only what the kernel refuses to take stays.
\<close>

theorem buff_writefd_drains:
  assumes "wf_buff b"
  shows "\<exists>n out b' t. buff_writefd kw b s = Inr ((n, out, b'), t) \<and> wf_buff b' \<and>
     contents b = out @ contents b' \<and>
     (case kw of WrErr e \<Rightarrow> n = -1 \<and> out = []
      | WrOk k \<Rightarrow> n = int (length out) \<and> length out = min k (length (contents b)))"
  using wpe_total [OF buff_writefd_spec [OF assms, of kw s]] by (cases kw) auto

lemma buff_writefd_drains_witness:
  "\<exists>n out b' t. buff_writefd (WrOk 1) buff0 env0 = Inr ((n, out, b'), t) \<and> [1, 2] = out @ contents b' \<and> length out = 1"
  using buff_writefd_drains [of buff0 "WrOk 1" env0] buff0_ok by auto

text \<open>
  The contract at \<open>buff_write\<close>, for the chunks a peer's bytes arrive in.  That a write succeeds when
  there is room and memory is \<open>buff_write_run\<close>.
\<close>

lemma buff_write_chunks:
  assumes "wf_buff b"
  shows "\<exists>r b' t. put_all buff_write b cs s = Inr ((r, b'), t) \<and> wf_buff b' \<and>
     (r = 0 \<and> contents b' = contents b @ concat cs \<or>
      r = -1 \<and> (\<exists>k < length cs. contents b' = contents b @ concat (take k cs)))"
  using wpe_total [OF bq.put_all_appends [OF assms, of cs s]] by auto

end
