(* ===== verification/DList.thy ===== *)
theory DList
  imports Prelude
begin

text \<open>
  The intrusive doubly linked list of \<open>list.h\<close>: a \<open>list_head\<close> is a key, and the two pointer
  fields of all list heads of the program are two maps.  \<open>dlist l h xs\<close> says that the cells
  \<open>xs\<close> hang in this order, forwards and backwards, in the ring of the head \<open>h\<close>; every
  operation of the file is shown to be the list operation it stands for.
\<close>

section \<open>The code\<close>

record 'k links =
  prev :: "'k \<Rightarrow> 'k"
  nxt :: "'k \<Rightarrow> 'k"

definition INIT_LIST_HEAD :: "'k links \<Rightarrow> 'k \<Rightarrow> 'k links" where
  "INIT_LIST_HEAD l p = (let l = l\<lparr>nxt := (nxt l)(p := p)\<rparr> in l\<lparr>prev := (prev l)(p := p)\<rparr>)"

text \<open>\<open>__list_add(_new, prev, next)\<close>: four stores, in the order of the source.\<close>

definition list_add_between :: "'k links \<Rightarrow> 'k \<Rightarrow> 'k \<Rightarrow> 'k \<Rightarrow> 'k links" where
  "list_add_between l new p n =
     (let l = l\<lparr>nxt := (nxt l)(new := n)\<rparr>;
          l = l\<lparr>prev := (prev l)(n := new)\<rparr>;
          l = l\<lparr>nxt := (nxt l)(p := new)\<rparr>
      in l\<lparr>prev := (prev l)(new := p)\<rparr>)"

definition list_add :: "'k links \<Rightarrow> 'k \<Rightarrow> 'k \<Rightarrow> 'k links" where
  "list_add l new head = list_add_between l new head (nxt l head)"

definition list_add_tail :: "'k links \<Rightarrow> 'k \<Rightarrow> 'k \<Rightarrow> 'k links" where
  "list_add_tail l new head = list_add_between l new (prev l head) head"

text \<open>\<open>__list_del(prev, next)\<close>; \<open>list_del\<close> leaves the two pointers of the entry itself alone.\<close>

definition list_del_between :: "'k links \<Rightarrow> 'k \<Rightarrow> 'k \<Rightarrow> 'k links" where
  "list_del_between l p n =
     (let l = l\<lparr>nxt := (nxt l)(p := n)\<rparr> in l\<lparr>prev := (prev l)(n := p)\<rparr>)"

definition list_del :: "'k links \<Rightarrow> 'k \<Rightarrow> 'k links" where
  "list_del l entry = list_del_between l (prev l entry) (nxt l entry)"

definition list_empty :: "'k links \<Rightarrow> 'k \<Rightarrow> bool" where
  "list_empty l head \<longleftrightarrow> nxt l head = head \<and> prev l head = head"

text \<open>
  \<open>list_for_each\<close> and \<open>list_for_prev\<close> as the sequence of cells the loop body sees, with at most
  \<open>n\<close> iterations; \<open>None\<close> when the head is not met again by then.
\<close>

fun list_for_each :: "nat \<Rightarrow> 'k links \<Rightarrow> 'k \<Rightarrow> 'k \<Rightarrow> 'k list option" where
  "list_for_each n l head pos =
     (if pos = head then Some []
      else case n of 0 \<Rightarrow> None
         | Suc m \<Rightarrow> map_option ((#) pos) (list_for_each m l head (nxt l pos)))"

fun list_for_prev :: "nat \<Rightarrow> 'k links \<Rightarrow> 'k \<Rightarrow> 'k \<Rightarrow> 'k list option" where
  "list_for_prev n l head pos =
     (if pos = head then Some []
      else case n of 0 \<Rightarrow> None
         | Suc m \<Rightarrow> map_option ((#) pos) (list_for_prev m l head (prev l pos)))"

declare list_for_each.simps [simp del] list_for_prev.simps [simp del]

section \<open>Rings as lists\<close>

fun chain :: "'k links \<Rightarrow> 'k \<Rightarrow> 'k list \<Rightarrow> 'k \<Rightarrow> bool" where
  "chain l a [] b \<longleftrightarrow> nxt l a = b \<and> prev l b = a"
| "chain l a (x # xs) b \<longleftrightarrow> nxt l a = x \<and> prev l x = a \<and> chain l x xs b"

definition dlist :: "'k links \<Rightarrow> 'k \<Rightarrow> 'k list \<Rightarrow> bool" where
  "dlist l h xs \<longleftrightarrow> chain l h xs h \<and> distinct (h # xs)"

text \<open>What lies between two cells depends on these cells' pointers only.\<close>

lemma chain_cong:
  assumes "\<And>x. x \<in> set (a # xs) \<Longrightarrow> nxt l x = nxt l' x"
    and "\<And>x. x \<in> set (xs @ [b]) \<Longrightarrow> prev l x = prev l' x"
  shows "chain l a xs b = chain l' a xs b"
  using assms by (induction xs arbitrary: a) auto

lemma chain_append:
  "chain l a (xs @ y # ys) b \<longleftrightarrow> chain l a xs y \<and> chain l y ys b"
  by (induction xs arbitrary: a) auto

lemma chain_ends:
  "chain l a xs b \<Longrightarrow> nxt l a = hd (xs @ [b]) \<and> prev l b = last (a # xs)"
  by (induction xs arbitrary: a) auto

lemma dlist_distinct: "dlist l h xs \<Longrightarrow> distinct xs \<and> h \<notin> set xs"
  by (simp add: dlist_def)

lemma dlist_cong:
  assumes "\<And>x. x \<in> set (h # xs) \<Longrightarrow> nxt l x = nxt l' x \<and> prev l x = prev l' x"
  shows "dlist l h xs = dlist l' h xs"
  unfolding dlist_def using chain_cong [of h xs l l' h] assms by auto

lemma dlist_INIT [simp]: "dlist (INIT_LIST_HEAD l h) h []"
  by (simp add: dlist_def INIT_LIST_HEAD_def)

lemma INIT_other: "p \<notin> set (h # xs) \<Longrightarrow> dlist (INIT_LIST_HEAD l p) h xs = dlist l h xs"
  by (rule dlist_cong) (auto simp: INIT_LIST_HEAD_def)

text \<open>The end of a chain can be hooked to another cell by the two stores of \<open>__list_del\<close>.\<close>

lemma list_del_between_simps [simp]:
  "nxt (list_del_between l p n) = (nxt l)(p := n)" "prev (list_del_between l p n) = (prev l)(n := p)"
  by (simp_all add: list_del_between_def Let_def)

lemma list_add_between_simps [simp]:
  "nxt (list_add_between l x p n) = (nxt l)(x := n, p := x)"
  "prev (list_add_between l x p n) = (prev l)(n := x, x := p)"
  by (simp_all add: list_add_between_def Let_def)

lemma chain_retarget:
  assumes "chain l a xs b" and "distinct (a # xs)" and "c \<notin> set xs"
    and "\<And>x. x \<in> set (a # xs) \<Longrightarrow> nxt l' x = (if x = last (a # xs) then c else nxt l x)"
    and "\<And>x. x \<in> set (xs @ [c]) \<Longrightarrow> prev l' x = (if x = c then last (a # xs) else prev l x)"
  shows "chain l' a xs c"
proof (cases xs rule: rev_cases)
  case Nil
  with assms show ?thesis by simp
next
  case (snoc ys y)
  with assms(1) have "chain l a ys y" by (simp add: chain_append)
  moreover have "chain l a ys y = chain l' a ys y"
    by (rule chain_cong) (use assms(2-5) snoc in auto)
  ultimately show ?thesis using assms(3-5) snoc by (simp add: chain_append)
qed

lemma dlist_add:
  assumes "dlist l h xs" and "new \<notin> set (h # xs)"
  shows "dlist (list_add l new h) h (new # xs)"
proof (cases xs)
  case Nil
  with assms show ?thesis by (auto simp: dlist_def list_add_def)
next
  case (Cons x ys)
  have "chain l x ys h = chain (list_add l new h) x ys h"
    by (rule chain_cong) (use assms Cons in \<open>auto simp: dlist_def list_add_def\<close>)
  with assms Cons show ?thesis by (auto simp: dlist_def list_add_def)
qed

lemma dlist_add_tail:
  assumes "dlist l h xs" and "new \<notin> set (h # xs)"
  shows "dlist (list_add_tail l new h) h (xs @ [new])"
proof -
  let ?l = "list_add_tail l new h" and ?p = "last (h # xs)"
  from assms(1) have ch: "chain l h xs h" and dist: "distinct (h # xs)" by (simp_all add: dlist_def)
  have p: "prev l h = ?p" using chain_ends [OF ch] by simp
  have "chain ?l h xs new"
    by (rule chain_retarget [OF ch dist]) (use assms(2) dist p in \<open>auto simp: list_add_tail_def\<close>)
  moreover have "nxt ?l new = h" "prev ?l h = new"
    using assms(2) p by (auto simp: list_add_tail_def)
  ultimately show ?thesis using assms(2) dist by (auto simp: dlist_def chain_append)
qed

lemma dlist_del:
  assumes "dlist l h (as @ x # bs)"
  shows "dlist (list_del l x) h (as @ bs)"
proof -
  let ?l = "list_del l x"
  from assms have ch: "chain l h as x" "chain l x bs h" and dist: "distinct (h # as @ x # bs)"
    by (simp_all add: dlist_def chain_append)
  have px: "prev l x = last (h # as)" "nxt l x = hd (bs @ [h])"
    using chain_ends [OF ch(1)] chain_ends [OF ch(2)] by simp_all
  have front: "chain ?l h as (hd (bs @ [h]))"
    by (rule chain_retarget [OF ch(1)])
       (use dist px in \<open>cases bs; force simp: list_del_def\<close>)+
  have "chain ?l h (as @ bs) h"
  proof (cases bs)
    case Nil
    with front show ?thesis by simp
  next
    case (Cons d ds)
    have "last (h # as) \<in> set (h # as)" by (rule last_in_set) simp
    then have "chain l d ds h = chain ?l d ds h"
      by (intro chain_cong) (use dist px Cons in \<open>auto simp: list_del_def simp del: last.simps\<close>)
    with ch(2) front Cons show ?thesis by (simp add: chain_append)
  qed
  with dist show ?thesis by (auto simp: dlist_def)
qed

lemma dlist_empty: "dlist l h xs \<Longrightarrow> list_empty l h \<longleftrightarrow> xs = []"
  by (cases xs) (auto simp: dlist_def list_empty_def)

text \<open>Operations on one ring leave the rings with other cells alone.\<close>

lemma dlist_add_other:
  assumes "dlist l g ys" and "dlist l h xs" and "set (h # xs) \<inter> set (g # ys) = {}" and "new \<notin> set (h # xs)"
  shows "dlist (list_add l new g) h xs"
proof -
  from assms(1) have "nxt l g \<in> set (g # ys)"
    by (cases ys) (simp_all add: dlist_def)
  then have "dlist l h xs = dlist (list_add l new g) h xs"
    by (intro dlist_cong) (use assms(3,4) in \<open>auto simp: list_add_def\<close>)
  with assms(2) show ?thesis by simp
qed

lemma dlist_del_other:
  assumes "dlist l g (as @ x # bs)" and "dlist l h xs" and "set (h # xs) \<inter> set (g # as @ x # bs) = {}"
  shows "dlist (list_del l x) h xs"
proof -
  from assms(1) have ch: "chain l g as x" "chain l x bs g" by (simp_all add: dlist_def chain_append)
  have "last (g # as) \<in> set (g # as)" by (rule last_in_set) simp
  moreover have "hd (bs @ [g]) \<in> set (bs @ [g])" by (rule hd_in_set) simp
  ultimately have "prev l x \<in> set (g # as)" "nxt l x \<in> set (bs @ [g])"
    using chain_ends [OF ch(1)] chain_ends [OF ch(2)] by metis+
  then have "dlist l h xs = dlist (list_del l x) h xs"
    by (intro dlist_cong) (use assms(3) in \<open>auto simp: list_del_def\<close>)
  with assms(2) show ?thesis by simp
qed

section \<open>Traversals\<close>

lemma chain_for_each:
  assumes "chain l a xs h" and "h \<notin> set xs" and "length xs \<le> n"
  shows "list_for_each n l h (nxt l a) = Some xs"
  using assms
proof (induction xs arbitrary: a n)
  case Nil
  then show ?case by (simp add: list_for_each.simps)
next
  case (Cons x xs)
  then obtain m where "n = Suc m" by (cases n) auto
  with Cons show ?case by (auto simp: list_for_each.simps [of "Suc m"])
qed

lemma dlist_for_each:
  assumes "dlist l h xs" and "length xs \<le> n"
  shows "list_for_each n l h (nxt l h) = Some xs"
  using assms chain_for_each [of l h xs h n] by (simp add: dlist_def)

lemma chain_for_prev:
  assumes "chain l h xs b" and "h \<notin> set xs" and "length xs \<le> n"
  shows "list_for_prev n l h (prev l b) = Some (rev xs)"
  using assms
proof (induction xs arbitrary: b n rule: rev_induct)
  case Nil
  then show ?case by (simp add: list_for_prev.simps)
next
  case (snoc x xs)
  then obtain m where "n = Suc m" by (cases n) auto
  with snoc show ?case by (auto simp: list_for_prev.simps [of "Suc m"] chain_append)
qed

lemma dlist_for_prev:
  assumes "dlist l h xs" and "length xs \<le> n"
  shows "list_for_prev n l h (prev l h) = Some (rev xs)"
  using assms chain_for_prev [of l h xs h n] by (simp add: dlist_def)

section \<open>The list contract\<close>

text \<open>
  What \<open>Utils.c\<close> needs of a list: cells are put at the front, taken out anywhere, and a
  traversal meets every cell once, the youngest first.
\<close>

locale ring_list =
  fixes rep :: "'s \<Rightarrow> 'k \<Rightarrow> 'k list \<Rightarrow> bool"
    and add :: "'s \<Rightarrow> 'k \<Rightarrow> 'k \<Rightarrow> 's"
    and del :: "'s \<Rightarrow> 'k \<Rightarrow> 's"
    and empty :: "'s \<Rightarrow> 'k \<Rightarrow> bool"
    and visit :: "nat \<Rightarrow> 's \<Rightarrow> 'k \<Rightarrow> 'k list option"
  assumes rep_distinct: "rep l h xs \<Longrightarrow> distinct (h # xs)"
    and rep_add: "rep l h xs \<Longrightarrow> x \<notin> set (h # xs) \<Longrightarrow> rep (add l x h) h (x # xs)"
    and rep_del: "rep l h (as @ x # bs) \<Longrightarrow> rep (del l x) h (as @ bs)"
    and rep_empty: "rep l h xs \<Longrightarrow> empty l h \<longleftrightarrow> xs = []"
    and rep_visit: "rep l h xs \<Longrightarrow> length xs \<le> n \<Longrightarrow> visit n l h = Some xs"
begin

lemma rep_unique: "rep l h xs \<Longrightarrow> rep l h ys \<Longrightarrow> xs = ys"
  using rep_visit [of l h xs "length xs + length ys"] rep_visit [of l h ys "length xs + length ys"]
  by simp

lemma add_del: "rep l h xs \<Longrightarrow> x \<notin> set (h # xs) \<Longrightarrow> rep (del (add l x h) x) h xs"
  using rep_del [of "add l x h" h "[]" x xs] rep_add [of l h xs x] by simp

lemma add_all:
  assumes "rep l h xs" and "distinct ys" and "set ys \<inter> set (h # xs) = {}"
  shows "rep (foldl (\<lambda>l y. add l y h) l ys) h (rev ys @ xs)"
  using assms
proof (induction ys arbitrary: l xs)
  case Nil
  then show ?case by simp
next
  case (Cons y ys)
  from Cons.prems have "rep (add l y h) h (y # xs)" by (intro rep_add) auto
  moreover have "set ys \<inter> set (h # y # xs) = {}" using Cons.prems(2,3) by auto
  ultimately have "rep (foldl (\<lambda>l y. add l y h) (add l y h) ys) h (rev ys @ y # xs)"
    using Cons.prems(2) by (intro Cons.IH) auto
  then show ?case by simp
qed

lemma del_member:
  assumes "rep l h xs" and "x \<in> set xs"
  shows "rep (del l x) h (remove1 x xs)"
proof -
  from assms(2) obtain as bs where xs: "xs = as @ x # bs" "x \<notin> set as"
    by (meson split_list_first)
  with rep_del [of l h as x bs] assms(1) show ?thesis by (simp add: remove1_append)
qed

end

interpretation dl: ring_list dlist list_add list_del list_empty
  "\<lambda>n l h. list_for_each n l h (nxt l h)"
  by unfold_locales
     (simp_all add: dlist_add dlist_del dlist_empty dlist_for_each, simp add: dlist_def)

end
