(* ===== verification/World.thy ===== *)
theory World
  imports Buff DList
begin

text \<open>
  The data of the program (\<open>mysocks5.h\<close>, the list elements of \<open>util.h\<close>), the store the
  handlers share, and the kernel objects they work on.

  Pointers are \<open>addr option\<close>, \<open>None\<close> for \<open>NULL\<close>.  An address is the number of an allocated
  object; numbers are not used twice, so that a pointer that outlives its object is always
  noticed: a member access through it is the fault \<open>UseAfterFree\<close>, one through \<open>NULL\<close> is
  \<open>NullDeref\<close>.  The buffers of a socket are part of its object, since \<open>sock_create\<close> and
  \<open>sock_release\<close> create and release them together and nothing else points to them.
\<close>

section \<open>Types of \<open>mysocks5.h\<close>\<close>

type_synonym addr = nat
type_synonym ptr = "addr option"

datatype sock_keeplive = conn_keep_alive_noclear | conn_keep_alive | conn_keep_close

datatype tunnel_state =
    open_state | auth_state | request_state | connecting_state | connected_state | tunnel_waitting

datatype tunnel_status =
    tunn_is_invalid | tunn_is_idle | tunn_is_run | tunn_is_free
  | tmptun_is_wait | tmptun_is_alive | tmptun_is_free | tmptun_is_close

text \<open>The numbers the C compiler gives the enumerators.\<close>

fun keeplive_val :: "sock_keeplive \<Rightarrow> int" where
  "keeplive_val conn_keep_alive_noclear = 0"
| "keeplive_val conn_keep_alive = 1"
| "keeplive_val conn_keep_close = 2"

fun tunnel_state_val :: "tunnel_state \<Rightarrow> int" where
  "tunnel_state_val open_state = 0"
| "tunnel_state_val auth_state = 1"
| "tunnel_state_val request_state = 2"
| "tunnel_state_val connecting_state = 3"
| "tunnel_state_val connected_state = 4"
| "tunnel_state_val tunnel_waitting = 5"

fun tunnel_status_val :: "tunnel_status \<Rightarrow> int" where
  "tunnel_status_val tunn_is_invalid = -1"
| "tunnel_status_val tunn_is_idle = 0"
| "tunnel_status_val tunn_is_run = 1"
| "tunnel_status_val tunn_is_free = 2"
| "tunnel_status_val tmptun_is_wait = 3"
| "tunnel_status_val tmptun_is_alive = 4"
| "tunnel_status_val tmptun_is_free = 5"
| "tunnel_status_val tmptun_is_close = 6"

record open_protocol =
  op_ver :: byte
  op_nmethods :: byte
  op_methods :: arr

record auth_protocol =
  ap_ver :: byte
  ap_ulen :: byte
  ap_uname :: arr
  ap_plen :: byte
  ap_passwd :: arr

text \<open>\<open>rp_port\<close> holds the two bytes as they came, in network order.\<close>

record request_protocol =
  rp_ver :: byte
  rp_cmd :: byte
  rp_rsv :: byte
  rp_atyp :: byte
  rp_domainlen :: byte
  rp_addr :: arr
  rp_port :: arr

record tunnel =
  priv_sock :: ptr
  remote_sock :: ptr
  t_state :: tunnel_state
  t_op :: open_protocol
  t_ap :: auth_protocol
  t_rp :: request_protocol
  read_count :: nat
  t_status :: tunnel_status
  t_closed :: int

datatype sock_state = sock_connecting | sock_connected | sock_halfclosed | sock_closed

datatype read_cb = tunnel_read_handle_p
datatype write_cb = tunnel_write_handle_p

record sock =
  s_fd :: int
  s_read_handle :: read_cb
  s_write_handle :: write_cb
  read_buff :: buff
  write_buff :: buff
  s_tunnel :: ptr
  s_state :: sock_state
  ispriv :: int
  iskeepalive :: int

text \<open>\<open>memset(p, 0, sizeof(tunnel_t))\<close>: the enumerators with value 0, empty arrays, null pointers.\<close>

definition zero_tunnel :: tunnel where
  "zero_tunnel = \<lparr>priv_sock = None, remote_sock = None, t_state = open_state,
     t_op = \<lparr>op_ver = 0, op_nmethods = 0, op_methods = (\<lambda>_. 0)\<rparr>,
     t_ap = \<lparr>ap_ver = 0, ap_ulen = 0, ap_uname = (\<lambda>_. 0), ap_plen = 0, ap_passwd = (\<lambda>_. 0)\<rparr>,
     t_rp = \<lparr>rp_ver = 0, rp_cmd = 0, rp_rsv = 0, rp_atyp = 0, rp_domainlen = 0,
             rp_addr = (\<lambda>_. 0), rp_port = (\<lambda>_. 0)\<rparr>,
     read_count = 0, t_status = tunn_is_idle, t_closed = 0\<rparr>"

section \<open>The store\<close>

text \<open>
  \<open>connList_t\<close> and \<open>sockList_t\<close>: their \<open>list\<close> member is the cell \<open>Cell a\<close> of the link maps,
  the member before it the object itself.
\<close>

record conn =
  c_tunnel :: ptr

datatype lref = HApp | HWait | HFd | Cell addr

text \<open>\<open>epoll_event.data.ptr\<close>: a listening \<open>server_t\<close> or a socket.\<close>

datatype udata = UdServer | UdServer2 | UdSock addr

record interest =
  ep_ptr :: udata
  ep_out :: bool
  ep_in :: bool

text \<open>
  \<open>wire fd\<close> are the bytes the kernel has taken over on the descriptor.  \<open>so_error\<close> is what
  \<open>getsockopt(SO_ERROR)\<close> would report.  \<open>SERVER_fd\<close> and \<open>SERVER2_fd\<close> are the \<open>listenfd\<close>
  members of the globals \<open>SERVER\<close> and \<open>SERVER2\<close>; \<open>mon_username\<close> and \<open>mon_passwd\<close> belong to \<open>THEMON\<close>.
\<close>

record world = env +
  socks :: "addr \<Rightarrow> sock option"
  tunnels :: "addr \<Rightarrow> tunnel option"
  conns :: "addr \<Rightarrow> conn option"
  fdels :: "addr \<Rightarrow> int option"
  next_addr :: addr
  links :: "lref links"
  procs_head :: "lref option"
  procs_head2 :: "lref option"
  sockfdlist_head :: "lref option"
  epoll :: "int \<Rightarrow> interest option"
  fd_open :: "int \<Rightarrow> bool"
  fd_nonblock :: "int \<Rightarrow> bool"
  fd_keepalive :: "int \<Rightarrow> bool"
  so_error :: "int \<Rightarrow> errno option"
  wire :: "int \<Rightarrow> byte list"
  SERVER_fd :: int
  SERVER2_fd :: int
  mon_username :: arr
  mon_passwd :: arr

type_synonym 'a prog = "(world, 'a) act"

definition load :: "('w \<Rightarrow> addr \<Rightarrow> 'o option) \<Rightarrow> ptr \<Rightarrow> ('w, 'o) act" where
  "load heap p = (\<lambda>w. case p of None \<Rightarrow> Inl NullDeref
     | Some a \<Rightarrow> (case heap w a of None \<Rightarrow> Inl UseAfterFree | Some x \<Rightarrow> Inr (x, w)))"

definition sock_upd :: "ptr \<Rightarrow> (sock \<Rightarrow> sock) \<Rightarrow> unit prog" where
  "sock_upd p f = bnd (load socks p) (\<lambda>s. modifies (\<lambda>w. w\<lparr>socks := (socks w)(the p \<mapsto> f s)\<rparr>))"

definition tunnel_upd :: "ptr \<Rightarrow> (tunnel \<Rightarrow> tunnel) \<Rightarrow> unit prog" where
  "tunnel_upd p f = bnd (load tunnels p) (\<lambda>t. modifies (\<lambda>w. w\<lparr>tunnels := (tunnels w)(the p \<mapsto> f t)\<rparr>))"

text \<open>A successful \<open>malloc\<close> of the three kinds of object, and \<open>free\<close>.\<close>

definition new_sock :: "sock \<Rightarrow> ptr prog" where
  "new_sock s = (\<lambda>w. Inr (Some (next_addr w),
     w\<lparr>socks := (socks w)(next_addr w \<mapsto> s), next_addr := Suc (next_addr w)\<rparr>))"

definition new_tunnel :: "tunnel \<Rightarrow> ptr prog" where
  "new_tunnel t = (\<lambda>w. Inr (Some (next_addr w),
     w\<lparr>tunnels := (tunnels w)(next_addr w \<mapsto> t), next_addr := Suc (next_addr w)\<rparr>))"

definition new_conn :: "conn \<Rightarrow> ptr prog" where
  "new_conn c = (\<lambda>w. Inr (Some (next_addr w),
     w\<lparr>conns := (conns w)(next_addr w \<mapsto> c), next_addr := Suc (next_addr w)\<rparr>))"

definition free_sock :: "ptr \<Rightarrow> unit prog" where
  "free_sock p = bnd (load socks p) (\<lambda>_.
     bnd free (\<lambda>_. modifies (\<lambda>w. w\<lparr>socks := (socks w)(the p := None)\<rparr>)))"

definition free_tunnel :: "ptr \<Rightarrow> unit prog" where
  "free_tunnel p = bnd (load tunnels p) (\<lambda>_.
     bnd free (\<lambda>_. modifies (\<lambda>w. w\<lparr>tunnels := (tunnels w)(the p := None)\<rparr>)))"

text \<open>An operation on the buffer a pointer's socket holds.\<close>

definition on_read_buff :: "ptr \<Rightarrow> (buff \<Rightarrow> (world, 'a \<times> buff) act) \<Rightarrow> 'a prog" where
  "on_read_buff p f = bnd (load socks p) (\<lambda>s. bnd (f (read_buff s)) (\<lambda>(r, b).
     bnd (sock_upd p (\<lambda>s. s\<lparr>read_buff := b\<rparr>)) (\<lambda>_. ret r)))"

definition on_write_buff :: "ptr \<Rightarrow> (buff \<Rightarrow> (world, 'a \<times> buff) act) \<Rightarrow> 'a prog" where
  "on_write_buff p f = bnd (load socks p) (\<lambda>s. bnd (f (write_buff s)) (\<lambda>(r, b).
     bnd (sock_upd p (\<lambda>s. s\<lparr>write_buff := b\<rparr>)) (\<lambda>_. ret r)))"

section \<open>The kernel\<close>

definition epoll_ctl_add :: "int \<Rightarrow> interest \<Rightarrow> int prog" where
  "epoll_ctl_add fd i = (\<lambda>w.
     if \<not> fd_open w fd \<or> epoll w fd \<noteq> None then Inr (-1, w\<lparr>errno_v := EOTHER\<rparr>)
     else Inr (0, w\<lparr>epoll := (epoll w)(fd \<mapsto> i)\<rparr>))"

definition epoll_ctl_mod :: "int \<Rightarrow> interest \<Rightarrow> int prog" where
  "epoll_ctl_mod fd i = (\<lambda>w.
     if epoll w fd = None then Inr (-1, w\<lparr>errno_v := EOTHER\<rparr>)
     else Inr (0, w\<lparr>epoll := (epoll w)(fd \<mapsto> i)\<rparr>))"

definition epoll_ctl_del :: "int \<Rightarrow> int prog" where
  "epoll_ctl_del fd = (\<lambda>w.
     if epoll w fd = None then Inr (-1, w\<lparr>errno_v := EOTHER\<rparr>)
     else Inr (0, w\<lparr>epoll := (epoll w)(fd := None)\<rparr>))"

text \<open>Closing a descriptor also takes it out of the interest list.\<close>

definition sys_close :: "int \<Rightarrow> int prog" where
  "sys_close fd = (\<lambda>w.
     if \<not> fd_open w fd then Inr (-1, w\<lparr>errno_v := EBADF\<rparr>)
     else Inr (0, w\<lparr>fd_open := (fd_open w)(fd := False), epoll := (epoll w)(fd := None)\<rparr>))"

text \<open>
  \<open>accept\<close>: \<open>k\<close> is the descriptor the kernel hands out, or the error.  A descriptor that
  is negative or in use is none the kernel can hand out.
\<close>

definition sys_accept :: "int + errno \<Rightarrow> int prog" where
  "sys_accept k = (\<lambda>w. case k of
       Inr e \<Rightarrow> Inr (-1, w\<lparr>errno_v := e\<rparr>)
     | Inl fd \<Rightarrow>
         if fd < 0 \<or> fd_open w fd then Inr (-1, w\<lparr>errno_v := EOTHER\<rparr>)
         else Inr (fd, w\<lparr>fd_open := (fd_open w)(fd := True), epoll := (epoll w)(fd := None),
                fd_nonblock := (fd_nonblock w)(fd := False), fd_keepalive := (fd_keepalive w)(fd := False),
                wire := (wire w)(fd := [])\<rparr>))"

text \<open>\<open>fcntl(F_SETFL, flags | O_NONBLOCK)\<close> and \<open>setsockopt(SO_KEEPALIVE)\<close> on an open descriptor.\<close>

definition sys_set_nonblock :: "int \<Rightarrow> int prog" where
  "sys_set_nonblock fd = (\<lambda>w.
     if \<not> fd_open w fd then Inr (-1, w\<lparr>errno_v := EBADF\<rparr>)
     else Inr (0, w\<lparr>fd_nonblock := (fd_nonblock w)(fd := True)\<rparr>))"

definition sys_set_keepalive :: "int \<Rightarrow> int prog" where
  "sys_set_keepalive fd = (\<lambda>w.
     if \<not> fd_open w fd then Inr (-1, w\<lparr>errno_v := EBADF\<rparr>)
     else Inr (0, w\<lparr>fd_keepalive := (fd_keepalive w)(fd := True)\<rparr>))"

section \<open>Weakest preconditions of the accesses\<close>

lemma wpe_load [wp]:
  "wpe E (load heap p) Q w =
     (case p of None \<Rightarrow> NullDeref \<in> E
      | Some a \<Rightarrow> (case heap w a of None \<Rightarrow> UseAfterFree \<in> E | Some x \<Rightarrow> Q x w))"
  by (auto simp: wpe_def load_def split: option.splits)

lemma wpe_sock_upd [wp]:
  "wpe E (sock_upd p f) Q w =
     (case p of None \<Rightarrow> NullDeref \<in> E
      | Some a \<Rightarrow> (case socks w a of None \<Rightarrow> UseAfterFree \<in> E
           | Some s \<Rightarrow> Q () (w\<lparr>socks := (socks w)(a \<mapsto> f s)\<rparr>)))"
  by (simp add: sock_upd_def wp split: option.split)

lemma wpe_tunnel_upd [wp]:
  "wpe E (tunnel_upd p f) Q w =
     (case p of None \<Rightarrow> NullDeref \<in> E
      | Some a \<Rightarrow> (case tunnels w a of None \<Rightarrow> UseAfterFree \<in> E
           | Some t \<Rightarrow> Q () (w\<lparr>tunnels := (tunnels w)(a \<mapsto> f t)\<rparr>)))"
  by (simp add: tunnel_upd_def wp split: option.split)

lemma wpe_new [wp]:
  "wpe E (new_sock s) Q w =
     Q (Some (next_addr w)) (w\<lparr>socks := (socks w)(next_addr w \<mapsto> s), next_addr := Suc (next_addr w)\<rparr>)"
  "wpe E (new_tunnel t) Q w =
     Q (Some (next_addr w)) (w\<lparr>tunnels := (tunnels w)(next_addr w \<mapsto> t), next_addr := Suc (next_addr w)\<rparr>)"
  "wpe E (new_conn c) Q w =
     Q (Some (next_addr w)) (w\<lparr>conns := (conns w)(next_addr w \<mapsto> c), next_addr := Suc (next_addr w)\<rparr>)"
  by (simp_all add: wpe_def new_sock_def new_tunnel_def new_conn_def)

lemma wpe_free_obj [wp]:
  "wpe E (free_sock p) Q w =
     (case p of None \<Rightarrow> NullDeref \<in> E
      | Some a \<Rightarrow> (case socks w a of None \<Rightarrow> UseAfterFree \<in> E
           | Some s \<Rightarrow> Q () (w\<lparr>live := live w - 1, socks := (socks w)(a := None)\<rparr>)))"
  "wpe E (free_tunnel p) Q w =
     (case p of None \<Rightarrow> NullDeref \<in> E
      | Some a \<Rightarrow> (case tunnels w a of None \<Rightarrow> UseAfterFree \<in> E
           | Some t \<Rightarrow> Q () (w\<lparr>live := live w - 1, tunnels := (tunnels w)(a := None)\<rparr>)))"
  by (simp_all add: free_sock_def free_tunnel_def wp split: option.split)

lemma wpe_kernel [wp]:
  "wpe E (epoll_ctl_add fd i) Q w =
     (if \<not> fd_open w fd \<or> epoll w fd \<noteq> None then Q (-1) (w\<lparr>errno_v := EOTHER\<rparr>)
      else Q 0 (w\<lparr>epoll := (epoll w)(fd \<mapsto> i)\<rparr>))"
  "wpe E (epoll_ctl_mod fd i) Q w =
     (if epoll w fd = None then Q (-1) (w\<lparr>errno_v := EOTHER\<rparr>)
      else Q 0 (w\<lparr>epoll := (epoll w)(fd \<mapsto> i)\<rparr>))"
  "wpe E (epoll_ctl_del fd) Q w =
     (if epoll w fd = None then Q (-1) (w\<lparr>errno_v := EOTHER\<rparr>)
      else Q 0 (w\<lparr>epoll := (epoll w)(fd := None)\<rparr>))"
  "wpe E (sys_close fd) Q w =
     (if \<not> fd_open w fd then Q (-1) (w\<lparr>errno_v := EBADF\<rparr>)
      else Q 0 (w\<lparr>fd_open := (fd_open w)(fd := False), epoll := (epoll w)(fd := None)\<rparr>))"
  "wpe E (sys_set_nonblock fd) Q w =
     (if \<not> fd_open w fd then Q (-1) (w\<lparr>errno_v := EBADF\<rparr>)
      else Q 0 (w\<lparr>fd_nonblock := (fd_nonblock w)(fd := True)\<rparr>))"
  "wpe E (sys_set_keepalive fd) Q w =
     (if \<not> fd_open w fd then Q (-1) (w\<lparr>errno_v := EBADF\<rparr>)
      else Q 0 (w\<lparr>fd_keepalive := (fd_keepalive w)(fd := True)\<rparr>))"
  by (simp_all add: wpe_def epoll_ctl_add_def epoll_ctl_mod_def epoll_ctl_del_def sys_close_def
        sys_set_nonblock_def sys_set_keepalive_def)

lemma wpe_sys_accept [wp]:
  "wpe E (sys_accept k) Q w = (case k of
       Inr e \<Rightarrow> Q (-1) (w\<lparr>errno_v := e\<rparr>)
     | Inl fd \<Rightarrow>
         if fd < 0 \<or> fd_open w fd then Q (-1) (w\<lparr>errno_v := EOTHER\<rparr>)
         else Q fd (w\<lparr>fd_open := (fd_open w)(fd := True), epoll := (epoll w)(fd := None),
                fd_nonblock := (fd_nonblock w)(fd := False), fd_keepalive := (fd_keepalive w)(fd := False),
                wire := (wire w)(fd := [])\<rparr>))"
  by (auto simp: wpe_def sys_accept_def split: sum.split)

end
