(* ===== verification/Pool.thy ===== *)
theory Pool
  imports World
begin

text \<open>
  \<open>Utils.c\<close>: the list of tunnels (\<open>AppList\<close>), the list of parked remote connections
  (\<open>waitList\<close>) and the unused list of descriptors.  The three groups of functions of the
  file differ in the list head and in the element type only, and so do the groups below.
  A traversal gets as many iterations as objects were ever allocated: a list
  of distinct elements is not longer, so a walk that needs more does not end.
\<close>

section \<open>The code\<close>

text \<open>The callbacks \<open>cb_compare\<close>, \<open>fd_compare\<close> and \<open>cb_dosth\<close> of \<open>util.h\<close>.\<close>

type_synonym cb_compare = "addr \<Rightarrow> ptr \<Rightarrow> int prog"
type_synonym 'b cb_dosth = "addr \<Rightarrow> 'b \<Rightarrow> (int \<times> 'b) prog"

definition the_head :: "(world \<Rightarrow> lref option) \<Rightarrow> lref prog" where
  "the_head sel = (\<lambda>w. case sel w of None \<Rightarrow> Inl NullDeref | Some h \<Rightarrow> Inr (h, w))"

text \<open>\<open>vbody_entry(entry, connList_t, list)\<close>\<close>

definition vbody_entry :: "lref \<Rightarrow> addr prog" where
  "vbody_entry e = (case e of Cell a \<Rightarrow> ret a | _ \<Rightarrow> halt OutOfBounds)"

fun list_find :: "nat \<Rightarrow> (addr \<Rightarrow> int prog) \<Rightarrow> lref \<Rightarrow> lref \<Rightarrow> ptr prog" where
  "list_find 0 cmp head entry = (if entry = head then ret None else halt Diverge)"
| "list_find (Suc n) cmp head entry =
     (if entry = head then ret None
      else bnd (vbody_entry entry) (\<lambda>pptr.
           bnd (cmp pptr) (\<lambda>c.
           if c = 0 then ret (Some pptr)
           else bnd (gets (\<lambda>w. nxt (links w) entry)) (list_find n cmp head))))"

fun list_do :: "nat \<Rightarrow> int \<Rightarrow> 'b cb_dosth \<Rightarrow> 'b \<Rightarrow> lref \<Rightarrow> lref \<Rightarrow> 'b prog" where
  "list_do 0 stop cbf arg head entry = (if entry = head then ret arg else halt Diverge)"
| "list_do (Suc n) stop cbf arg head entry =
     (if entry = head then ret arg
      else bnd (vbody_entry entry) (\<lambda>pptr.
           bnd (cbf pptr arg) (\<lambda>(c, arg).
           if c = stop then ret arg
           else bnd (gets (\<lambda>w. nxt (links w) entry)) (list_do n stop cbf arg head))))"

definition list_add_cell :: "ptr \<Rightarrow> lref \<Rightarrow> unit prog" where
  "list_add_cell p head = modifies (\<lambda>w. w\<lparr>links := list_add (links w) (Cell (the p)) head\<rparr>)"

definition list_del_cell :: "addr \<Rightarrow> unit prog" where
  "list_del_cell a = modifies (\<lambda>w. w\<lparr>links := list_del (links w) (Cell a)\<rparr>)"

text \<open>\<open>memcpy(ptr, p, sizeof(connList_t))\<close>: the tunnel and both list pointers.\<close>

definition conn_memcpy :: "ptr \<Rightarrow> ptr \<Rightarrow> unit prog" where
  "conn_memcpy dst src =
     bnd (load conns src) (\<lambda>c.
     bnd (load conns dst) (\<lambda>_.
     modifies (\<lambda>w. w\<lparr>conns := (conns w)(the dst \<mapsto> c),
        links := (links w)\<lparr>prev := (prev (links w))(Cell (the dst) := prev (links w) (Cell (the src))),
                           nxt := (nxt (links w))(Cell (the dst) := nxt (links w) (Cell (the src)))\<rparr>\<rparr>)))"

subsection \<open>\<open>AppList\<close>\<close>

definition AppListInit :: "unit prog" where
  "AppListInit = bnd (gets procs_head) (\<lambda>h.
     if h = None then modifies (\<lambda>w. w\<lparr>procs_head := Some HApp, links := INIT_LIST_HEAD (links w) HApp\<rparr>)
     else ret ())"

definition AppListAdd :: "ptr \<Rightarrow> int prog" where
  "AppListAdd p =
     bnd (the_head procs_head) (\<lambda>h.
     bnd (load conns p) (\<lambda>_.
     bnd (list_add_cell p h) (\<lambda>_. ret 0)))"

definition AppListFnd :: "ptr \<Rightarrow> cb_compare \<Rightarrow> ptr prog" where
  "AppListFnd p cbf =
     bnd (the_head procs_head) (\<lambda>h.
     bnd (gets next_addr) (\<lambda>n.
     bnd (gets (\<lambda>w. nxt (links w) h)) (list_find n (\<lambda>q. cbf q p) h)))"

definition AppListDo :: "'b cb_dosth \<Rightarrow> 'b \<Rightarrow> 'b prog" where
  "AppListDo cbf arg =
     bnd (the_head procs_head) (\<lambda>h.
     bnd (gets next_addr) (\<lambda>n.
     bnd (gets (\<lambda>w. nxt (links w) h)) (list_do n (-1) cbf arg h)))"

definition AppListGet :: "ptr \<Rightarrow> cb_compare \<Rightarrow> ptr prog" where
  "AppListGet p cbf = bnd (AppListFnd p cbf) (\<lambda>pptr.
     case pptr of None \<Rightarrow> ret None | Some a \<Rightarrow> bnd (list_del_cell a) (\<lambda>_. ret (Some a)))"

definition AppListUpd :: "ptr \<Rightarrow> cb_compare \<Rightarrow> int prog" where
  "AppListUpd p cbf = bnd (AppListFnd p cbf) (\<lambda>pptr.
     if pptr \<noteq> None then bnd (conn_memcpy pptr p) (\<lambda>_. ret 1) else ret 0)"

definition AppListEmpty :: "bool prog" where
  "AppListEmpty = bnd (the_head procs_head) (\<lambda>h. gets (\<lambda>w. list_empty (links w) h))"

subsection \<open>\<open>waitList\<close>\<close>

definition waitListInit :: "unit prog" where
  "waitListInit = bnd (gets procs_head2) (\<lambda>h.
     if h = None then modifies (\<lambda>w. w\<lparr>procs_head2 := Some HWait, links := INIT_LIST_HEAD (links w) HWait\<rparr>)
     else ret ())"

definition waitListAdd :: "ptr \<Rightarrow> int prog" where
  "waitListAdd p =
     bnd (the_head procs_head2) (\<lambda>h.
     bnd (load conns p) (\<lambda>_.
     bnd (list_add_cell p h) (\<lambda>_. ret 0)))"

definition waitListFnd :: "ptr \<Rightarrow> cb_compare \<Rightarrow> ptr prog" where
  "waitListFnd p cbf =
     bnd (the_head procs_head2) (\<lambda>h.
     bnd (gets next_addr) (\<lambda>n.
     bnd (gets (\<lambda>w. nxt (links w) h)) (list_find n (\<lambda>q. cbf q p) h)))"

definition waitListDo :: "'b cb_dosth \<Rightarrow> 'b \<Rightarrow> 'b prog" where
  "waitListDo cbf arg =
     bnd (the_head procs_head2) (\<lambda>h.
     bnd (gets next_addr) (\<lambda>n.
     bnd (gets (\<lambda>w. nxt (links w) h)) (list_do n 1 cbf arg h)))"

definition waitListGet :: "ptr \<Rightarrow> cb_compare \<Rightarrow> ptr prog" where
  "waitListGet p cbf = bnd (waitListFnd p cbf) (\<lambda>pptr.
     case pptr of None \<Rightarrow> ret None | Some a \<Rightarrow> bnd (list_del_cell a) (\<lambda>_. ret (Some a)))"

text \<open>
  \<open>waitListDel1\<close> has no model: it takes a \<open>tunnel_t *\<close> for the address of the \<open>tunnel\<close> member of an
  element, so that the members of the tunnel would be written through as list pointers.  Nothing calls it.
\<close>

definition waitListUpd :: "ptr \<Rightarrow> cb_compare \<Rightarrow> int prog" where
  "waitListUpd p cbf = bnd (waitListFnd p cbf) (\<lambda>pptr.
     if pptr \<noteq> None then bnd (conn_memcpy pptr p) (\<lambda>_. ret 1) else ret 0)"

definition waitListEmpty :: "bool prog" where
  "waitListEmpty = bnd (the_head procs_head2) (\<lambda>h. gets (\<lambda>w. list_empty (links w) h))"

subsection \<open>\<open>FdList\<close>\<close>

definition FdListInit :: "unit prog" where
  "FdListInit = bnd (gets sockfdlist_head) (\<lambda>h.
     if h = None then modifies (\<lambda>w. w\<lparr>sockfdlist_head := Some HFd, links := INIT_LIST_HEAD (links w) HFd\<rparr>)
     else ret ())"

definition FdListAdd :: "ptr \<Rightarrow> int prog" where
  "FdListAdd p =
     bnd (the_head sockfdlist_head) (\<lambda>h.
     bnd (load fdels p) (\<lambda>_.
     bnd (list_add_cell p h) (\<lambda>_. ret 0)))"

definition FdListFnd :: "ptr \<Rightarrow> cb_compare \<Rightarrow> ptr prog" where
  "FdListFnd p cbf =
     bnd (the_head sockfdlist_head) (\<lambda>h.
     bnd (gets next_addr) (\<lambda>n.
     bnd (gets (\<lambda>w. nxt (links w) h)) (list_find n (\<lambda>q. cbf q p) h)))"

definition FdListGet :: "ptr \<Rightarrow> cb_compare \<Rightarrow> ptr prog" where
  "FdListGet p cbf = bnd (FdListFnd p cbf) (\<lambda>pptr.
     case pptr of None \<Rightarrow> ret None | Some a \<Rightarrow> bnd (list_del_cell a) (\<lambda>_. ret (Some a)))"

definition FdListEmpty :: "bool prog" where
  "FdListEmpty = bnd (the_head sockfdlist_head) (\<lambda>h. gets (\<lambda>w. list_empty (links w) h))"

definition thrdListInit :: "unit prog" where
  "thrdListInit = bnd AppListInit (\<lambda>_. bnd waitListInit (\<lambda>_. FdListInit))"

section \<open>The lists as lists\<close>

text \<open>
  \<open>pools w as ws\<close>: the two lists are initialised, hold the elements \<open>as\<close> and \<open>ws\<close> in the order
  a traversal meets them, and share none.
\<close>

definition pools :: "world \<Rightarrow> addr list \<Rightarrow> addr list \<Rightarrow> bool" where
  "pools w as ws \<longleftrightarrow>
     procs_head w = Some HApp \<and> procs_head2 w = Some HWait \<and>
     dlist (links w) HApp (map Cell as) \<and> dlist (links w) HWait (map Cell ws) \<and>
     set as \<inter> set ws = {} \<and>
     (\<forall>a \<in> set as \<union> set ws. a < next_addr w \<and> conns w a \<noteq> None)"

lemma the_head_wp [wp]:
  "wpe E (the_head sel) Q w = (case sel w of None \<Rightarrow> NullDeref \<in> E | Some h \<Rightarrow> Q h w)"
  by (simp add: wpe_def the_head_def split: option.split)

lemma vbody_entry_Cell [simp]: "vbody_entry (Cell a) = ret a"
  by (simp add: vbody_entry_def)

lemma wpe_list_add_cell [wp]:
  "wpe E (list_add_cell p h) Q w = Q () (w\<lparr>links := list_add (links w) (Cell (the p)) h\<rparr>)"
  by (simp add: list_add_cell_def wp)

lemma wpe_list_del_cell [wp]:
  "wpe E (list_del_cell a) Q w = Q () (w\<lparr>links := list_del (links w) (Cell a)\<rparr>)"
  by (simp add: list_del_cell_def wp)

lemma inj_Cell [simp]: "inj_on Cell A"
  by (simp add: inj_on_def)

lemma pools_distinct: "pools w as ws \<Longrightarrow> distinct as \<and> distinct ws"
  by (auto simp: pools_def dlist_def distinct_map)

lemma bounded_distinct_length:
  fixes xs :: "nat list"
  assumes "distinct xs" and "\<forall>x \<in> set xs. x < n"
  shows "length xs \<le> n"
proof -
  from assms(2) have "set xs \<subseteq> {..<n}" by auto
  then have "card (set xs) \<le> n" using card_mono [of "{..<n}" "set xs"] by simp
  with assms(1) show ?thesis by (simp add: distinct_card)
qed

lemma pools_length: "pools w as ws \<Longrightarrow> length as \<le> next_addr w \<and> length ws \<le> next_addr w"
  using pools_distinct [of w as ws] by (auto simp: pools_def intro!: bounded_distinct_length)

text \<open>
  A search whose comparisons only look at the store returns the first element that compares
  equal; it ends, and reports nothing else.
\<close>

lemma list_find_chain:
  assumes "chain (links w) a (map Cell xs) h" and "h \<notin> range Cell" and "length xs \<le> n"
    and "\<And>x. x \<in> set xs \<Longrightarrow> wpe E (cmp x) (\<lambda>c w'. w' = w \<and> P x c) w"
  shows "wpe E (list_find n cmp h (nxt (links w) a)) (\<lambda>r w'. w' = w \<and>
           (case r of None \<Rightarrow> (\<forall>x \<in> set xs. \<exists>c. c \<noteq> 0 \<and> P x c)
            | Some x \<Rightarrow> (\<exists>ys zs. xs = ys @ x # zs \<and> P x 0 \<and> (\<forall>y \<in> set ys. \<exists>c. c \<noteq> 0 \<and> P y c)))) w"
  using assms
proof (induction xs arbitrary: a n)
  case Nil
  then show ?case by (cases n) (auto simp: wp)
next
  case (Cons x xs)
  from Cons.prems have a: "nxt (links w) a = Cell x" and ch: "chain (links w) (Cell x) (map Cell xs) h"
    and ne: "Cell x \<noteq> h" by auto
  from Cons.prems(3) obtain m where n: "n = Suc m" "length xs \<le> m" by (cases n) auto
  show ?case
    unfolding n(1) a list_find.simps if_not_P [OF ne] vbody_entry_Cell bnd_ret wpe_bnd
  proof (rule wpe_conseq [OF Cons.prems(4)], simp, clarify)
    fix c assume c: "P x c"
    show "wpe E (if c = 0 then ret (Some x)
           else bnd (gets (\<lambda>w. nxt (links w) (Cell x))) (list_find m cmp h))
         (\<lambda>r w'. w' = w \<and>
           (case r of None \<Rightarrow> (\<forall>x \<in> set (x # xs). \<exists>c. c \<noteq> 0 \<and> P x c)
            | Some y \<Rightarrow> (\<exists>ys zs. x # xs = ys @ y # zs \<and> P y 0 \<and> (\<forall>y \<in> set ys. \<exists>c. c \<noteq> 0 \<and> P y c)))) w"
    proof (cases "c = 0")
      case True
      with c have "\<exists>ys zs. x # xs = ys @ x # zs \<and> P x 0 \<and> (\<forall>y \<in> set ys. \<exists>c. c \<noteq> 0 \<and> P y c)"
        by (intro exI [of _ "[]"] exI [of _ xs]) simp
      with True show ?thesis by (simp add: wp)
    next
      case False
      have IH: "wpe E (list_find m cmp h (nxt (links w) (Cell x))) (\<lambda>r w'. w' = w \<and>
           (case r of None \<Rightarrow> (\<forall>x \<in> set xs. \<exists>c. c \<noteq> 0 \<and> P x c)
            | Some x \<Rightarrow> (\<exists>ys zs. xs = ys @ x # zs \<and> P x 0 \<and> (\<forall>y \<in> set ys. \<exists>c. c \<noteq> 0 \<and> P y c)))) w"
        by (rule Cons.IH [OF ch Cons.prems(2) n(2)]) (simp add: Cons.prems(4))
      show ?thesis unfolding if_not_P [OF False] wpe_bnd wpe_gets
      proof (rule wpe_conseq [OF IH], clarify)
        fix r
        assume r: "case r of None \<Rightarrow> \<forall>x\<in>set xs. \<exists>c. c \<noteq> 0 \<and> P x c
          | Some x \<Rightarrow> \<exists>ys zs. xs = ys @ x # zs \<and> P x 0 \<and> (\<forall>y\<in>set ys. \<exists>c. c \<noteq> 0 \<and> P y c)"
        show "w = w \<and> (case r of None \<Rightarrow> \<forall>x\<in>set (x # xs). \<exists>c. c \<noteq> 0 \<and> P x c
          | Some y \<Rightarrow> \<exists>ys zs. x # xs = ys @ y # zs \<and> P y 0 \<and> (\<forall>y\<in>set ys. \<exists>c. c \<noteq> 0 \<and> P y c))"
        proof (cases r)
          case None
          with r c False show ?thesis by auto
        next
          case (Some y)
          with r obtain ys zs where "xs = ys @ y # zs" "P y 0" "\<forall>y\<in>set ys. \<exists>c. c \<noteq> 0 \<and> P y c"
            by auto
          with c False have "\<exists>ys zs. x # xs = ys @ y # zs \<and> P y 0 \<and> (\<forall>y \<in> set ys. \<exists>c. c \<noteq> 0 \<and> P y c)"
            by (intro exI [of _ "x # ys"] exI [of _ zs]) auto
          with Some show ?thesis by simp
        qed
      qed
    qed
  qed
qed

text \<open>A walk that acts on every element keeps what every single action keeps.\<close>

lemma list_do_chain:
  assumes I: "\<And>w. I w \<Longrightarrow> chain (links w) h (map Cell (pre @ xs)) h"
    and h: "h \<notin> range Cell" and n: "length xs \<le> n"
    and body: "\<And>x b w. x \<in> set xs \<Longrightarrow> I w \<Longrightarrow> wpe E (cbf x b) (\<lambda>_ w'. I w') w"
    and w: "I w"
  shows "wpe E (list_do n stop cbf arg h (hd (map Cell xs @ [h]))) (\<lambda>_ w'. I w') w"
  using assms
proof (induction xs arbitrary: pre n arg w)
  case Nil
  then show ?case by (cases n) (simp_all add: wp)
next
  case (Cons x xs)
  from Cons.prems(2) have ne: "Cell x \<noteq> h" by auto
  from Cons.prems(3) obtain m where m: "n = Suc m" "length xs \<le> m" by (cases n) auto
  show ?case
    unfolding m(1) list.map append_Cons list.sel list_do.simps if_not_P [OF ne] vbody_entry_Cell bnd_ret wpe_bnd
  proof (rule wpe_conseq [OF Cons.prems(4) [OF _ Cons.prems(5)]], simp, clarify)
    fix c :: int and b and w'
    assume w': "I w'"
    have "chain (links w') (Cell x) (map Cell xs) h"
      using Cons.prems(1) [OF w'] by (simp add: chain_append)
    then have nx: "nxt (links w') (Cell x) = hd (map Cell xs @ [h])"
      using chain_ends by metis
    have "wpe E (list_do m stop cbf b h (hd (map Cell xs @ [h]))) (\<lambda>_ w'. I w') w'"
      by (rule Cons.IH [where pre = "pre @ [x]"]) (use Cons.prems m(2) w' in auto)
    then show "wpe E (if c = stop then ret b
          else bnd (gets (\<lambda>w. nxt (links w) (Cell x))) (list_do m stop cbf b h)) (\<lambda>_ w'. I w') w'"
      using w' by (simp add: wp nx)
  qed
qed

lemma head_not_Cell [simp]: "HApp \<notin> range Cell" "HWait \<notin> range Cell"
  by auto

lemma AppListFnd_spec:
  assumes "pools w as ws" and "\<And>x. x \<in> set as \<Longrightarrow> wpe E (cbf x p) (\<lambda>c w'. w' = w \<and> P x c) w"
  shows "wpe E (AppListFnd p cbf) (\<lambda>r w'. w' = w \<and>
           (case r of None \<Rightarrow> (\<forall>x \<in> set as. \<exists>c. c \<noteq> 0 \<and> P x c)
            | Some x \<Rightarrow> (\<exists>ys zs. as = ys @ x # zs \<and> P x 0 \<and> (\<forall>y \<in> set ys. \<exists>c. c \<noteq> 0 \<and> P y c)))) w"
proof -
  have "chain (links w) HApp (map Cell as) HApp" "procs_head w = Some HApp" "length as \<le> next_addr w"
    using assms(1) pools_length [OF assms(1)] by (simp_all add: pools_def dlist_def)
  with list_find_chain [of w HApp as HApp "next_addr w" E "\<lambda>q. cbf q p" P] assms(2)
  show ?thesis by (simp add: AppListFnd_def wp)
qed

lemma waitListFnd_spec:
  assumes "pools w as ws" and "\<And>x. x \<in> set ws \<Longrightarrow> wpe E (cbf x p) (\<lambda>c w'. w' = w \<and> P x c) w"
  shows "wpe E (waitListFnd p cbf) (\<lambda>r w'. w' = w \<and>
           (case r of None \<Rightarrow> (\<forall>x \<in> set ws. \<exists>c. c \<noteq> 0 \<and> P x c)
            | Some x \<Rightarrow> (\<exists>ys zs. ws = ys @ x # zs \<and> P x 0 \<and> (\<forall>y \<in> set ys. \<exists>c. c \<noteq> 0 \<and> P y c)))) w"
proof -
  have "chain (links w) HWait (map Cell ws) HWait" "procs_head2 w = Some HWait" "length ws \<le> next_addr w"
    using assms(1) pools_length [OF assms(1)] by (simp_all add: pools_def dlist_def)
  with list_find_chain [of w HWait ws HWait "next_addr w" E "\<lambda>q. cbf q p" P] assms(2)
  show ?thesis by (simp add: waitListFnd_def wp)
qed

lemma AppListDo_spec:
  assumes I: "\<And>w. I w \<Longrightarrow> procs_head w = Some HApp \<and> dlist (links w) HApp (map Cell as)"
    and len: "length as \<le> next_addr w"
    and body: "\<And>x b w. x \<in> set as \<Longrightarrow> I w \<Longrightarrow> wpe E (cbf x b) (\<lambda>_ w'. I w') w"
    and w: "I w"
  shows "wpe E (AppListDo cbf arg) (\<lambda>_ w'. I w') w"
proof -
  from I [OF w] have "nxt (links w) HApp = hd (map Cell as @ [HApp])"
    using chain_ends dlist_def by metis
  with list_do_chain [of I HApp "[]" as "next_addr w" E cbf w "-1" arg] I len body w
  show ?thesis by (auto simp: AppListDo_def wp dlist_def)
qed

lemma AppListEmpty_spec: "pools w as ws \<Longrightarrow> AppListEmpty w = Inr (as = [], w)"
  using dlist_empty [of "links w" HApp "map Cell as"]
  by (simp add: AppListEmpty_def bnd_def the_head_def gets_def pools_def)

lemma waitListEmpty_spec: "pools w as ws \<Longrightarrow> waitListEmpty w = Inr (ws = [], w)"
  using dlist_empty [of "links w" HWait "map Cell ws"]
  by (simp add: waitListEmpty_def bnd_def the_head_def gets_def pools_def)

lemma wpe_ListEmpty:
  assumes "pools w as ws"
  shows "wpe E AppListEmpty Q w = Q (as = []) w" "wpe E waitListEmpty Q w = Q (ws = []) w"
  by (simp_all add: wpe_def AppListEmpty_spec [OF assms] waitListEmpty_spec [OF assms])

text \<open>The list operations, as the list contract has them.\<close>

lemma AppListAdd_spec:
  assumes "pools w as ws" and "conns w a = Some c" and "a < next_addr w" and "a \<notin> set as \<union> set ws"
  shows "\<exists>w'. AppListAdd (Some a) w = Inr (0, w') \<and> pools w' (a # as) ws \<and>
           w' = w\<lparr>links := links w'\<rparr>"
proof -
  let ?w = "w\<lparr>links := list_add (links w) (Cell a) HApp\<rparr>"
  from assms have run: "AppListAdd (Some a) w = Inr (0, ?w)"
    by (simp add: AppListAdd_def bnd_def the_head_def load_def list_add_cell_def modifies_def ret_def pools_def)
  have new: "dlist (list_add (links w) (Cell a) HApp) HApp (map Cell (a # as))"
    using dl.rep_add [of "links w" HApp "map Cell as" "Cell a"] assms(1,4) by (auto simp: pools_def)
  have old: "dlist (list_add (links w) (Cell a) HApp) HWait (map Cell ws)"
    by (rule dlist_add_other) (use assms(1,4) in \<open>auto simp: pools_def\<close>)
  from assms new old have "pools ?w (a # as) ws" by (auto simp: pools_def)
  with run show ?thesis by simp
qed

lemma waitListAdd_spec:
  assumes "pools w as ws" and "conns w a = Some c" and "a < next_addr w" and "a \<notin> set as \<union> set ws"
  shows "\<exists>w'. waitListAdd (Some a) w = Inr (0, w') \<and> pools w' as (a # ws) \<and>
           w' = w\<lparr>links := links w'\<rparr>"
proof -
  let ?w = "w\<lparr>links := list_add (links w) (Cell a) HWait\<rparr>"
  from assms have run: "waitListAdd (Some a) w = Inr (0, ?w)"
    by (simp add: waitListAdd_def bnd_def the_head_def load_def list_add_cell_def modifies_def ret_def pools_def)
  have new: "dlist (list_add (links w) (Cell a) HWait) HWait (map Cell (a # ws))"
    using dl.rep_add [of "links w" HWait "map Cell ws" "Cell a"] assms(1,4) by (auto simp: pools_def)
  have old: "dlist (list_add (links w) (Cell a) HWait) HApp (map Cell as)"
    by (rule dlist_add_other) (use assms(1,4) in \<open>auto simp: pools_def\<close>)
  from assms new old have "pools ?w as (a # ws)" by (auto simp: pools_def)
  with run show ?thesis by simp
qed

end
