(* ===== verification/Sock.thy ===== *)
theory Sock
  imports Pool
begin

text \<open>
  The socket layer of \<open>socks5.c\<close>: the \<open>epoll\<close> wrappers, creation and release of \<open>sock_t\<close>
  objects, and the two ways a connection is closed.  Functions the source writes as
  statements on members of \<open>*sock\<close> and \<open>*tunnel\<close> are sequences of \<open>load\<close> and \<open>upd\<close> steps in
  the same order.
\<close>

definition INIT_BUFF_CAP :: nat where "INIT_BUFF_CAP = 1024"

definition epoll_add :: "ptr \<Rightarrow> int prog" where
  "epoll_add sock = bnd (load socks sock) (\<lambda>s.
     epoll_ctl_add (s_fd s) \<lparr>ep_ptr = UdSock (the sock), ep_out = False, ep_in = True\<rparr>)"

definition epoll_del :: "ptr \<Rightarrow> int prog" where
  "epoll_del sock = bnd (load socks sock) (\<lambda>s. epoll_ctl_del (s_fd s))"

definition epoll_modify :: "ptr \<Rightarrow> bool \<Rightarrow> bool \<Rightarrow> int prog" where
  "epoll_modify sock writable readable = bnd (load socks sock) (\<lambda>s.
     epoll_ctl_mod (s_fd s) \<lparr>ep_ptr = UdSock (the sock), ep_out = writable, ep_in = readable\<rparr>)"

definition sock_create :: "int \<Rightarrow> sock_state \<Rightarrow> int \<Rightarrow> ptr \<Rightarrow> ptr prog" where
  "sock_create fd state priv tunnel =
     bnd malloc (\<lambda>ok.
     if \<not> ok then ret None
     else bnd (buff_create INIT_BUFF_CAP) (\<lambda>rb. case rb of None \<Rightarrow> ret None
       | Some rb \<Rightarrow>
     bnd (buff_create INIT_BUFF_CAP) (\<lambda>wb. case wb of
         None \<Rightarrow> bnd (buff_release rb) (\<lambda>_. bnd free (\<lambda>_. ret None))
       | Some wb \<Rightarrow>
     new_sock \<lparr>s_fd = fd, s_read_handle = tunnel_read_handle_p, s_write_handle = tunnel_write_handle_p,
               read_buff = rb, write_buff = wb, s_tunnel = tunnel, s_state = state,
               ispriv = priv, iskeepalive = 0\<rparr>)))"

definition sock_release :: "ptr \<Rightarrow> unit prog" where
  "sock_release sock =
     bnd (load socks sock) (\<lambda>s.
     let tunnel = s_tunnel s in
     bnd (buff_release (write_buff s)) (\<lambda>_.
     bnd (buff_release (read_buff s)) (\<lambda>_.
     bnd (if ispriv s \<noteq> 0 then tunnel_upd tunnel (\<lambda>t. t\<lparr>priv_sock := None\<rparr>)
          else tunnel_upd tunnel (\<lambda>t. t\<lparr>remote_sock := None\<rparr>)) (\<lambda>_.
     bnd (epoll_del sock) (\<lambda>_.
     bnd (sys_close (s_fd s)) (\<lambda>_.
     free_sock sock))))))"

definition sock_force_shutdown :: "ptr \<Rightarrow> unit prog" where
  "sock_force_shutdown sock =
     (if sock = None then ret ()
      else bnd (load socks sock) (\<lambda>s.
      let tunnel = s_tunnel s in
      bnd (load tunnels tunnel) (\<lambda>t.
      bnd (if t_status t = tmptun_is_close then
             bnd (tunnel_upd tunnel (\<lambda>t. t\<lparr>t_status := tmptun_is_free\<rparr>)) (\<lambda>_.
             tunnel_upd tunnel (\<lambda>t. t\<lparr>remote_sock := None\<rparr>))
           else if sock = remote_sock t then
             bnd (tunnel_upd tunnel (\<lambda>t. t\<lparr>t_status := tunn_is_idle\<rparr>)) (\<lambda>_.
             tunnel_upd tunnel (\<lambda>t. t\<lparr>remote_sock := None\<rparr>))
           else ret ()) (\<lambda>_.
      sock_release sock))))"

text \<open>
  The statements of \<open>sock_shutdown\<close> from line 162 on, up to line 169: what the private side
  has received and not passed on goes to the remote side.
\<close>

definition forward_left_data :: "ptr \<Rightarrow> ptr \<Rightarrow> unit prog" where
  "forward_left_data sock tunnel =
     bnd (load tunnels tunnel) (\<lambda>t.
     if t_state t = connected_state then
       bnd (load socks (priv_sock t)) (\<lambda>ps.
       if 0 < buff_readable (read_buff ps) \<and> sock = remote_sock t then
         bnd (on_write_buff (remote_sock t) (\<lambda>b. buff_concat b (read_buff ps))) (\<lambda>_. ret ())
       else ret ())
     else ret ())"

text \<open>Lines 185 to 198: the private socket is closed, and the remote one with it.\<close>

definition shutdown_priv :: "ptr \<Rightarrow> ptr \<Rightarrow> unit prog" where
  "shutdown_priv sock tunnel =
     bnd (load tunnels tunnel) (\<lambda>t.
     if sock = priv_sock t then
       bnd (sock_force_shutdown sock) (\<lambda>_.
       bnd (tunnel_upd tunnel (\<lambda>t. t\<lparr>t_status := tunn_is_free\<rparr>)) (\<lambda>_.
       bnd (tunnel_upd tunnel (\<lambda>t. t\<lparr>priv_sock := None\<rparr>)) (\<lambda>_.
       bnd (load tunnels tunnel) (\<lambda>t.
       if remote_sock t \<noteq> None then
         let sock1 = remote_sock t in
         bnd (load socks sock1) (\<lambda>_. \<comment> \<open>\<open>printf\<close> of \<open>sock1->fd\<close>\<close>
         bnd (sock_force_shutdown sock1) (\<lambda>_.
         tunnel_upd tunnel (\<lambda>t. t\<lparr>remote_sock := None\<rparr>)))
       else ret ()))))
     else ret ())"

text \<open>Lines 199 to 212: the remote socket is closed.\<close>

definition shutdown_remote :: "ptr \<Rightarrow> ptr \<Rightarrow> unit prog" where
  "shutdown_remote sock tunnel =
     bnd (load tunnels tunnel) (\<lambda>t.
     if sock = remote_sock t then
       if t_state t = connected_state then
         bnd (sock_force_shutdown sock) (\<lambda>_.
         bnd (tunnel_upd tunnel (\<lambda>t. t\<lparr>t_status := tunn_is_idle\<rparr>)) (\<lambda>_.
         tunnel_upd tunnel (\<lambda>t. t\<lparr>remote_sock := None\<rparr>)))
       else if t_state t = tunnel_waitting then
         bnd (sock_force_shutdown sock) (\<lambda>_.
         bnd (tunnel_upd tunnel (\<lambda>t. t\<lparr>t_status := tmptun_is_free\<rparr>)) (\<lambda>_.
         tunnel_upd tunnel (\<lambda>t. t\<lparr>remote_sock := None\<rparr>)))
       else ret ()
     else ret ())"

text \<open>Lines 214 to 219.\<close>

definition shutdown_single :: "ptr \<Rightarrow> ptr \<Rightarrow> unit prog" where
  "shutdown_single sock tunnel =
     bnd (load tunnels tunnel) (\<lambda>t.
     if t_status t = tmptun_is_close then
       bnd (load socks sock) (\<lambda>_. \<comment> \<open>\<open>printf\<close> of \<open>sock->fd\<close>\<close>
       bnd (sock_force_shutdown sock) (\<lambda>_.
       bnd (tunnel_upd tunnel (\<lambda>t. t\<lparr>t_status := tmptun_is_free\<rparr>)) (\<lambda>_.
       tunnel_upd tunnel (\<lambda>t. t\<lparr>remote_sock := None\<rparr>))))
     else ret ())"

definition sock_shutdown :: "ptr \<Rightarrow> unit prog" where
  "sock_shutdown sock =
     (if sock = None then ret ()
      else bnd (sock_upd sock (\<lambda>s. s\<lparr>s_state := sock_halfclosed\<rparr>)) (\<lambda>_.
      bnd (load socks sock) (\<lambda>s.
      let tunnel = s_tunnel s in
      bnd (forward_left_data sock tunnel) (\<lambda>_.
      bnd (load socks sock) (\<lambda>s.
      let writable = 0 < buff_readable (write_buff s) in
      if writable then bnd (epoll_modify sock writable False) (\<lambda>_. ret ())
      else
        bnd (load tunnels tunnel) (\<lambda>_. \<comment> \<open>\<open>printf\<close> of \<open>tunnel->state\<close>\<close>
        bnd (shutdown_priv sock tunnel) (\<lambda>_.
        bnd (shutdown_remote sock tunnel) (\<lambda>_.
        shutdown_single sock tunnel))))))))"

definition sock_nonblocking :: "int \<Rightarrow> int prog" where
  "sock_nonblocking fd =
     bnd (gets (\<lambda>w. fd_open w fd)) (\<lambda>got.
     if \<not> got then ret (-1)
     else bnd (sys_set_nonblock fd) (\<lambda>flag. if flag < 0 then ret (-1) else ret flag))"

definition sock_keepalive :: "int \<Rightarrow> int prog" where
  "sock_keepalive fd = sys_set_keepalive fd"

end
