(* ===== verification/Proto.thy ===== *)
theory Proto
  imports Sock
begin

text \<open>
  The protocol handlers of \<open>socks5.c\<close>: greeting, username/password negotiation, request,
  and the data-forwarding states.  A handler that jumps to a label (\<open>goto methods\<close>) is
  split at the labels, one definition for the statements from a label to the next; it reads
  what it needs when enough bytes are there and keeps its position in \<open>read_count\<close>.
  \<open>buff\<close> of the source is the read buffer of the socket \<open>p\<close> the tunnel had at entry.
\<close>

section \<open>Replies\<close>

definition tunnel_write_client :: "ptr \<Rightarrow> byte list \<Rightarrow> int prog" where
  "tunnel_write_client tunnel src =
     bnd (load tunnels tunnel) (\<lambda>t.
     if priv_sock t = None then ret (-1)
     else bnd (on_write_buff (priv_sock t) (\<lambda>b. buff_write b src)) (\<lambda>r.
     if r < 0 then ret (-1)
     else bnd (epoll_modify (priv_sock t) True True) (\<lambda>_. ret 0)))"

definition tunnel_write_remote :: "ptr \<Rightarrow> byte list \<Rightarrow> int prog" where
  "tunnel_write_remote tunnel src =
     bnd (load tunnels tunnel) (\<lambda>t.
     if remote_sock t = None then ret (-1)
     else bnd (on_write_buff (remote_sock t) (\<lambda>b. buff_write b src)) (\<lambda>r.
     if r < 0 then ret (-1) else ret 0))"

text \<open>
  The first \<open>len = 5 + rp.domainlen\<close> bytes of the \<open>request_protocol_t\<close> on the stack are its
  five one-byte members and the start of \<open>addr\<close>; the port follows in network order.
\<close>

definition tunnel_notify_connected :: "ptr \<Rightarrow> int prog" where
  "tunnel_notify_connected tunnel =
     (let name = bytes_of ''www.hellorsp.org'';
          domainlen = word_of_nat (length name) :: byte;
          rp = [0x05, 0x01, 0x00, 0x03, domainlen] @ name in
      bnd (tunnel_write_client tunnel (take (5 + unat domainlen) rp)) (\<lambda>r.
      if r < 0 then ret (-1)
      else bnd (tunnel_write_client tunnel [0x1F, 0x90]) (\<lambda>r. \<comment> \<open>\<open>htons(8080)\<close>\<close>
      if r < 0 then ret (-1) else ret 0)))"

section \<open>Greeting\<close>

definition nheader_open :: nat where "nheader_open = 2"

definition rb_readable :: "ptr \<Rightarrow> nat prog" where
  "rb_readable p = bnd (load socks p) (\<lambda>s. ret (buff_readable (read_buff s)))"

definition rb_read :: "ptr \<Rightarrow> nat \<Rightarrow> byte list prog" where
  "rb_read p n = on_read_buff p (\<lambda>b. buff_read b n)"

text \<open>A member of one byte is read by \<open>buff_read(buff, &member, 1)\<close>.\<close>

definition rb_read1 :: "ptr \<Rightarrow> byte prog" where
  "rb_read1 p = bnd (rb_read p 1) (\<lambda>bs. ret (hd bs))"

text \<open>\<open>strcmp(x, "") != 0\<close> says that the first byte of \<open>x\<close> is not the terminating zero.\<close>

definition auth_required :: "world \<Rightarrow> bool" where
  "auth_required w \<longleftrightarrow> mon_username w 0 \<noteq> 0 \<and> mon_passwd w 0 \<noteq> 0"

definition open_methods :: "ptr \<Rightarrow> ptr \<Rightarrow> int prog" where
  "open_methods tunnel p =
     bnd (load tunnels tunnel) (\<lambda>t.
     bnd (rb_readable p) (\<lambda>n.
     if unat (op_nmethods (t_op t)) \<le> n then
       bnd (rb_read p (unat (op_nmethods (t_op t)))) (\<lambda>bs.
       bnd (tunnel_upd tunnel (\<lambda>t. t\<lparr>t_op := (t_op t)\<lparr>op_methods := arr_copy (op_methods (t_op t)) 0 bs\<rparr>\<rparr>)) (\<lambda>_.
       bnd (gets auth_required) (\<lambda>auth.
       bnd (tunnel_upd tunnel (\<lambda>t. t\<lparr>t_state := (if auth then auth_state else request_state)\<rparr>)) (\<lambda>_.
       bnd (tunnel_upd tunnel (\<lambda>t. t\<lparr>read_count := 0\<rparr>)) (\<lambda>_.
       tunnel_write_client tunnel [0x05, if auth then 0x02 else 0x00])))))
     else ret 0))"

definition open_header :: "ptr \<Rightarrow> ptr \<Rightarrow> int prog" where
  "open_header tunnel p =
     bnd (rb_readable p) (\<lambda>n.
     if nheader_open \<le> n then
       bnd (rb_read1 p) (\<lambda>v.
       bnd (tunnel_upd tunnel (\<lambda>t. t\<lparr>t_op := (t_op t)\<lparr>op_ver := v\<rparr>\<rparr>)) (\<lambda>_.
       if v \<noteq> 0x05 then ret (-1)
       else bnd (rb_read1 p) (\<lambda>m.
       bnd (tunnel_upd tunnel (\<lambda>t. t\<lparr>t_op := (t_op t)\<lparr>op_nmethods := m\<rparr>\<rparr>)) (\<lambda>_.
       bnd (tunnel_upd tunnel (\<lambda>t. t\<lparr>read_count := read_count t + nheader_open\<rparr>)) (\<lambda>_.
       open_methods tunnel p)))))
     else ret 0)"

definition tunnel_open_handle :: "ptr \<Rightarrow> int prog" where
  "tunnel_open_handle tunnel =
     bnd (load tunnels tunnel) (\<lambda>t.
     let p = priv_sock t in
     bnd (load socks p) (\<lambda>_.
     if read_count t = 0 then open_header tunnel p
     else if read_count t = nheader_open then open_methods tunnel p
     else halt AssertFail))"

section \<open>Username and password\<close>

definition MAX_UNAME_LEN :: nat where "MAX_UNAME_LEN = 20"
definition MAX_PASSWD_LEN :: nat where "MAX_PASSWD_LEN = 20"
definition nheader_auth :: nat where "nheader_auth = 2"
definition nplen :: nat where "nplen = 1"

text \<open>
  The arrays that are compared have 255 bytes each.  The two comparisons of the source are
  joined by \<open>||\<close>: the second one runs when the first finds the strings equal.
\<close>

definition credentials_differ :: "auth_protocol \<Rightarrow> arr \<Rightarrow> arr \<Rightarrow> bool prog" where
  "credentials_differ ap username passwd =
     bnd (lift_res (strcmp_at 255 (ap_uname ap) username 0)) (\<lambda>eq.
     if \<not> eq then ret True
     else bnd (lift_res (strcmp_at 255 (ap_passwd ap) passwd 0)) (\<lambda>eq. ret (\<not> eq)))"

definition auth_passwd :: "ptr \<Rightarrow> ptr \<Rightarrow> int prog" where
  "auth_passwd tunnel p =
     bnd (load tunnels tunnel) (\<lambda>t.
     bnd (rb_readable p) (\<lambda>n.
     if unat (ap_plen (t_ap t)) \<le> n then
       bnd (rb_read p (unat (ap_plen (t_ap t)))) (\<lambda>bs.
       bnd (tunnel_upd tunnel (\<lambda>t. t\<lparr>t_ap := (t_ap t)\<lparr>ap_passwd := arr_copy (ap_passwd (t_ap t)) 0 bs\<rparr>\<rparr>)) (\<lambda>_.
       bnd (load tunnels tunnel) (\<lambda>t.
       bnd (gets (\<lambda>w. (mon_username w, mon_passwd w))) (\<lambda>(u, pw).
       bnd (credentials_differ (t_ap t) u pw) (\<lambda>differ.
       if differ then ret (-1)
       else bnd (tunnel_write_client tunnel [ap_ver (t_ap t), 0x00]) (\<lambda>r.
       if r < 0 then ret (-1)
       else bnd (tunnel_upd tunnel (\<lambda>t. t\<lparr>t_state := request_state\<rparr>)) (\<lambda>_.
       bnd (tunnel_upd tunnel (\<lambda>t. t\<lparr>read_count := 0\<rparr>)) (\<lambda>_. ret 0))))))))
     else ret 0))"

definition auth_plen :: "ptr \<Rightarrow> ptr \<Rightarrow> int prog" where
  "auth_plen tunnel p =
     bnd (rb_readable p) (\<lambda>n.
     if nplen \<le> n then
       bnd (rb_read1 p) (\<lambda>l.
       bnd (tunnel_upd tunnel (\<lambda>t. t\<lparr>t_ap := (t_ap t)\<lparr>ap_plen := l\<rparr>\<rparr>)) (\<lambda>_.
       if MAX_PASSWD_LEN < unat l then ret (-1)
       else bnd (tunnel_upd tunnel (\<lambda>t. t\<lparr>read_count := read_count t + nplen\<rparr>)) (\<lambda>_.
       auth_passwd tunnel p)))
     else ret 0)"

definition auth_uname :: "ptr \<Rightarrow> ptr \<Rightarrow> int prog" where
  "auth_uname tunnel p =
     bnd (load tunnels tunnel) (\<lambda>t.
     bnd (rb_readable p) (\<lambda>n.
     if unat (ap_ulen (t_ap t)) \<le> n then
       bnd (rb_read p (unat (ap_ulen (t_ap t)))) (\<lambda>bs.
       bnd (tunnel_upd tunnel (\<lambda>t. t\<lparr>t_ap := (t_ap t)\<lparr>ap_uname := arr_copy (ap_uname (t_ap t)) 0 bs\<rparr>\<rparr>)) (\<lambda>_.
       bnd (tunnel_upd tunnel (\<lambda>t. t\<lparr>read_count := read_count t + unat (ap_ulen (t_ap t))\<rparr>)) (\<lambda>_.
       auth_plen tunnel p)))
     else ret 0))"

definition auth_header :: "ptr \<Rightarrow> ptr \<Rightarrow> int prog" where
  "auth_header tunnel p =
     bnd (rb_readable p) (\<lambda>n.
     if nheader_auth \<le> n then
       bnd (rb_read1 p) (\<lambda>v.
       bnd (tunnel_upd tunnel (\<lambda>t. t\<lparr>t_ap := (t_ap t)\<lparr>ap_ver := v\<rparr>\<rparr>)) (\<lambda>_.
       bnd (rb_read1 p) (\<lambda>l.
       bnd (tunnel_upd tunnel (\<lambda>t. t\<lparr>t_ap := (t_ap t)\<lparr>ap_ulen := l\<rparr>\<rparr>)) (\<lambda>_.
       if MAX_UNAME_LEN < unat l then ret (-1)
       else bnd (tunnel_upd tunnel (\<lambda>t. t\<lparr>read_count := read_count t + nheader_auth\<rparr>)) (\<lambda>_.
       auth_uname tunnel p)))))
     else ret 0)"

definition tunnel_auth_handle :: "ptr \<Rightarrow> int prog" where
  "tunnel_auth_handle tunnel =
     bnd (load tunnels tunnel) (\<lambda>t.
     let p = priv_sock t; nreaded = read_count t; ulen = unat (ap_ulen (t_ap t)) in
     bnd (load socks p) (\<lambda>_.
     if nreaded = 0 then auth_header tunnel p
     else if nreaded = nheader_auth then auth_uname tunnel p
     else if nreaded = nheader_auth + ulen then auth_plen tunnel p
     else if nreaded = nheader_auth + ulen + nplen then auth_passwd tunnel p
     else halt AssertFail))"

section \<open>Request\<close>

definition NIPV4 :: nat where "NIPV4 = 4"
definition NIPV6 :: nat where "NIPV6 = 16"
definition nheader_req :: nat where "nheader_req = 4"
definition ndomainlen :: nat where "ndomainlen = 1"
definition nport :: nat where "nport = 2"

text \<open>After the \<open>switch\<close>, lines 819 to 824.\<close>

definition request_done :: "ptr \<Rightarrow> int prog" where
  "request_done tunnel =
     bnd (tunnel_upd tunnel (\<lambda>t. t\<lparr>read_count := 0\<rparr>)) (\<lambda>_.
     bnd (tunnel_notify_connected tunnel) (\<lambda>_.
     bnd (tunnel_upd tunnel (\<lambda>t. t\<lparr>t_state := connected_state\<rparr>)) (\<lambda>_.
     bnd (tunnel_upd tunnel (\<lambda>t. t\<lparr>t_status := tunn_is_idle\<rparr>)) (\<lambda>_. ret 0))))"

text \<open>
  Reading an address of \<open>n\<close> bytes and the port, and printing the address with \<open>%s\<close>, which
  reads \<open>rp->addr\<close>, an array of 255 bytes, up to a zero byte.
\<close>

definition request_read_addr :: "ptr \<Rightarrow> ptr \<Rightarrow> nat \<Rightarrow> unit prog" where
  "request_read_addr tunnel p n =
     bnd (rb_read p n) (\<lambda>bs.
     bnd (tunnel_upd tunnel (\<lambda>t. t\<lparr>t_rp := (t_rp t)\<lparr>rp_addr := arr_copy (rp_addr (t_rp t)) 0 bs\<rparr>\<rparr>)) (\<lambda>_.
     bnd (rb_read p nport) (\<lambda>bs.
     bnd (tunnel_upd tunnel (\<lambda>t. t\<lparr>t_rp := (t_rp t)\<lparr>rp_port := arr_copy (rp_port (t_rp t)) 0 bs\<rparr>\<rparr>)) (\<lambda>_.
     bnd (load tunnels tunnel) (\<lambda>t.
     bnd (lift_res (strlen_at 255 (rp_addr (t_rp t)) 0)) (\<lambda>_. ret ()))))))"

definition request_domain :: "ptr \<Rightarrow> ptr \<Rightarrow> int prog" where
  "request_domain tunnel p =
     bnd (load tunnels tunnel) (\<lambda>t.
     bnd (rb_readable p) (\<lambda>n.
     if unat (rp_domainlen (t_rp t)) + nport \<le> n then
       bnd (request_read_addr tunnel p (unat (rp_domainlen (t_rp t)))) (\<lambda>_. request_done tunnel)
     else ret 0))"

definition request_addr :: "ptr \<Rightarrow> ptr \<Rightarrow> int prog" where
  "request_addr tunnel p =
     bnd (load tunnels tunnel) (\<lambda>t.
     let atyp = rp_atyp (t_rp t) in
     if atyp = 0x01 then
       bnd (rb_readable p) (\<lambda>n.
       if NIPV4 + nport \<le> n then
         bnd (request_read_addr tunnel p NIPV4) (\<lambda>_. request_done tunnel)
       else ret 0)
     else if atyp = 0x04 then
       bnd (rb_readable p) (\<lambda>n.
       if NIPV6 + nport \<le> n then
         bnd (request_read_addr tunnel p NIPV6) (\<lambda>_. request_done tunnel)
       else ret 0)
     else if atyp = 0x03 then
       bnd (rb_readable p) (\<lambda>n.
       if ndomainlen \<le> n then
         bnd (rb_read1 p) (\<lambda>l.
         bnd (tunnel_upd tunnel (\<lambda>t. t\<lparr>t_rp := (t_rp t)\<lparr>rp_domainlen := l\<rparr>\<rparr>)) (\<lambda>_.
         bnd (tunnel_upd tunnel (\<lambda>t. t\<lparr>read_count := read_count t + ndomainlen\<rparr>)) (\<lambda>_.
         request_domain tunnel p)))
       else ret 0)
     else ret (-1))"

definition request_header :: "ptr \<Rightarrow> ptr \<Rightarrow> int prog" where
  "request_header tunnel p =
     bnd (rb_readable p) (\<lambda>n.
     if nheader_req \<le> n then
       bnd (rb_read1 p) (\<lambda>v.
       bnd (tunnel_upd tunnel (\<lambda>t. t\<lparr>t_rp := (t_rp t)\<lparr>rp_ver := v\<rparr>\<rparr>)) (\<lambda>_.
       if v \<noteq> 0x05 then ret (-1)
       else bnd (rb_read1 p) (\<lambda>c.
       bnd (tunnel_upd tunnel (\<lambda>t. t\<lparr>t_rp := (t_rp t)\<lparr>rp_cmd := c\<rparr>\<rparr>)) (\<lambda>_.
       if c \<noteq> 0x01 then ret (-1)
       else bnd (rb_read1 p) (\<lambda>r.
       bnd (tunnel_upd tunnel (\<lambda>t. t\<lparr>t_rp := (t_rp t)\<lparr>rp_rsv := r\<rparr>\<rparr>)) (\<lambda>_.
       bnd (rb_read1 p) (\<lambda>a.
       bnd (tunnel_upd tunnel (\<lambda>t. t\<lparr>t_rp := (t_rp t)\<lparr>rp_atyp := a\<rparr>\<rparr>)) (\<lambda>_.
       bnd (tunnel_upd tunnel (\<lambda>t. t\<lparr>read_count := read_count t + nheader_req\<rparr>)) (\<lambda>_.
       request_addr tunnel p)))))))))
     else ret 0)"

definition tunnel_request_handle :: "ptr \<Rightarrow> int prog" where
  "tunnel_request_handle tunnel =
     bnd (load tunnels tunnel) (\<lambda>t.
     let p = priv_sock t in
     bnd (load socks p) (\<lambda>_.
     if read_count t = 0 then request_header tunnel p
     else if read_count t = nheader_req then request_addr tunnel p
     else if read_count t = nheader_req + ndomainlen then request_domain tunnel p
     else halt AssertFail))"

section \<open>Forwarding\<close>

text \<open>\<open>getsockopt(SO_ERROR)\<close> fails on a descriptor that is not open.\<close>

definition tunnel_connecting_handle :: "ptr \<Rightarrow> int prog" where
  "tunnel_connecting_handle tunnel =
     bnd (load tunnels tunnel) (\<lambda>t.
     bnd (load socks (remote_sock t)) (\<lambda>s.
     bnd (gets (\<lambda>w. (fd_open w (s_fd s), so_error w (s_fd s)))) (\<lambda>(ok, err).
     if \<not> ok then bnd (modifies (errno_v_update (\<lambda>_. EBADF))) (\<lambda>_. ret (-1))
     else (case err of
       Some e \<Rightarrow> bnd (modifies (errno_v_update (\<lambda>_. e))) (\<lambda>_. ret (-1))
     | None \<Rightarrow>
         bnd (tunnel_upd tunnel (\<lambda>t. t\<lparr>t_state := connected_state\<rparr>)) (\<lambda>_.
         bnd (sock_upd (remote_sock t) (\<lambda>s. s\<lparr>s_state := sock_connected\<rparr>)) (\<lambda>_.
         tunnel_notify_connected tunnel))))))"

text \<open>The body of \<open>parsingHeader\<close> is a comment.\<close>

definition parsingHeader :: "ptr \<Rightarrow> unit prog" where
  "parsingHeader sock = ret ()"

text \<open>\<open>buff_concat(dst->write_buff, src->read_buff)\<close>, \<open>buff_clear(src->read_buff)\<close>, \<open>epoll_modify(dst, 1, 1)\<close>.\<close>

definition forward :: "ptr \<Rightarrow> ptr \<Rightarrow> int prog" where
  "forward src dst =
     bnd (load socks src) (\<lambda>s.
     bnd (on_write_buff dst (\<lambda>b. buff_concat b (read_buff s))) (\<lambda>r.
     if r < 0 then ret (-1)
     else bnd (sock_upd src (\<lambda>s. s\<lparr>read_buff := buff_clear (read_buff s)\<rparr>)) (\<lambda>_.
     bnd (epoll_modify dst True True) (\<lambda>_. ret 0))))"

definition tunnel_connected_handle :: "ptr \<Rightarrow> ptr \<Rightarrow> int prog" where
  "tunnel_connected_handle tunnel sock =
     bnd (load tunnels tunnel) (\<lambda>t.
     bnd (load socks sock) (\<lambda>s.
     if ispriv s \<noteq> 0 then
       if remote_sock t = None then ret (-1)
       else if 0 < buff_readable (read_buff s) then
         bnd (load socks (remote_sock t)) (\<lambda>_. \<comment> \<open>\<open>printf\<close> of \<open>tunnel->remote_sock->fd\<close>\<close>
         forward (priv_sock t) (remote_sock t))
       else ret 0
     else
       if priv_sock t = None then ret (-1)
       else if 0 < buff_readable (read_buff s) then
         bnd (load socks (priv_sock t)) (\<lambda>_. \<comment> \<open>\<open>printf\<close> of \<open>tunnel->priv_sock->fd\<close>\<close>
         bnd (load socks (remote_sock t)) (\<lambda>_.
         bnd (parsingHeader (remote_sock t)) (\<lambda>_.
         forward (remote_sock t) (priv_sock t))))
       else ret 0))"

definition response :: "byte list" where
  "response = bytes_of (''HTTP/1.1 200 OK'' @ [CHR 0x0D, CHR 0x0A] @
     ''Content-Type: text/plain'' @ [CHR 0x0D, CHR 0x0A] @
     ''Connection: close'' @ [CHR 0x0D, CHR 0x0A] @ [CHR 0x0D, CHR 0x0A] @
     ''Regrettably, we are still waiting for the alien spaceship to arrive.'')"

definition tunnel_waitting_handle :: "ptr \<Rightarrow> int \<Rightarrow> int prog" where
  "tunnel_waitting_handle tunnel isprivate =
     bnd (load tunnels tunnel) (\<lambda>t.
     if remote_sock t = None then ret (-1)
     else bnd (tunnel_write_remote tunnel response) (\<lambda>r.
     if r < 0 then ret (-1)
     else bnd (sock_upd (remote_sock t) (\<lambda>s. s\<lparr>read_buff := buff_clear (read_buff s)\<rparr>)) (\<lambda>_.
     bnd (tunnel_upd tunnel (\<lambda>t. t\<lparr>t_status := tmptun_is_close\<rparr>)) (\<lambda>_.
     bnd (epoll_modify (remote_sock t) True True) (\<lambda>_. ret 0)))))"

end
