(* ===== verification/Tunnel.thy ===== *)
theory Tunnel
  imports Proto
begin

text \<open>
  The tunnel layer of \<open>socks5.c\<close>: choosing a tunnel or a place in the wait list for a new
  connection, pairing idle tunnels with parked connections, and the two \<open>epoll\<close> handlers.
  A descriptor argument that the source only prints is kept, and unused here as well.
\<close>

section \<open>Comparisons\<close>

definition conn_tunnel :: "ptr \<Rightarrow> tunnel prog" where
  "conn_tunnel p = bnd (load conns p) (\<lambda>c. load tunnels (c_tunnel c))"

definition conn_upd :: "ptr \<Rightarrow> (tunnel \<Rightarrow> tunnel) \<Rightarrow> unit prog" where
  "conn_upd p f = bnd (load conns p) (\<lambda>c. tunnel_upd (c_tunnel c) f)"

definition appCompare :: cb_compare where
  "appCompare p1 p2 = bnd (conn_tunnel (Some p1)) (\<lambda>t. ret (if t_status t = tunn_is_idle then 0 else -1))"

definition appCompare1 :: cb_compare where
  "appCompare1 p1 p2 = bnd (conn_tunnel (Some p1)) (\<lambda>t. ret (if t_status t = tunn_is_free then 0 else -1))"

definition waitCompare :: cb_compare where
  "waitCompare p1 p2 = bnd (conn_tunnel (Some p1)) (\<lambda>t. ret (if t_status t = tmptun_is_free then 0 else -1))"

definition waitCompare2 :: cb_compare where
  "waitCompare2 p1 p2 =
     bnd (conn_tunnel (Some p1)) (\<lambda>t.
     if t_status t = tmptun_is_wait then ret 0
     else if t_status t = tmptun_is_alive then
       bnd (load socks (remote_sock t)) (\<lambda>s.
       ret (if 0 < size_sub (write_index (read_buff s)) (read_index (read_buff s)) then 0 else -1))
     else ret (-1))"

section \<open>Finding a place for a connection\<close>

definition getWaitobjFrList_new :: "int \<Rightarrow> ptr prog" where
  "getWaitobjFrList_new rmtfd =
     bnd malloc (\<lambda>ok.
     if \<not> ok then ret None
     else bnd malloc (\<lambda>ok.
     if \<not> ok then bnd free (\<lambda>_. ret None)
     else bnd (new_tunnel (zero_tunnel\<lparr>t_state := tunnel_waitting, t_status := tmptun_is_wait\<rparr>)) (\<lambda>tun.
     bnd (new_conn \<lparr>c_tunnel = tun\<rparr>) (\<lambda>p.
     bnd (waitListAdd p) (\<lambda>_. ret p)))))"

definition getWaitobjFrList :: "int \<Rightarrow> ptr prog" where
  "getWaitobjFrList rmtfd =
     bnd waitListEmpty (\<lambda>e.
     if e then getWaitobjFrList_new rmtfd
     else bnd (waitListFnd None waitCompare) (\<lambda>p.
     if p \<noteq> None then
       bnd (conn_upd p (\<lambda>t. t\<lparr>t_state := tunnel_waitting\<rparr>)) (\<lambda>_.
       bnd (conn_upd p (\<lambda>t. t\<lparr>t_status := tmptun_is_wait\<rparr>)) (\<lambda>_.
       ret p))
     else getWaitobjFrList_new rmtfd))"

definition getTargetFrList_new :: "int \<Rightarrow> ptr prog" where
  "getTargetFrList_new rmtfd =
     bnd malloc (\<lambda>ok.
     if \<not> ok then ret None
     else bnd malloc (\<lambda>ok.
     if \<not> ok then bnd free (\<lambda>_. ret None)
     else bnd (new_tunnel (zero_tunnel\<lparr>t_status := tunn_is_idle\<rparr>)) (\<lambda>tun.
     bnd (new_conn \<lparr>c_tunnel = tun\<rparr>) (\<lambda>p.
     bnd (AppListAdd p) (\<lambda>_. ret p)))))"

definition getTargetFrList :: "int \<Rightarrow> int \<Rightarrow> ptr prog" where
  "getTargetFrList rmtfd privflg =
     bnd AppListEmpty (\<lambda>e.
     if e then
       (if privflg = 0 then getWaitobjFrList rmtfd else getTargetFrList_new rmtfd)
     else if privflg = 0 then
       bnd (AppListFnd None appCompare) (\<lambda>p.
       if p \<noteq> None then
         bnd (conn_upd p (\<lambda>t. t\<lparr>t_status := tunn_is_run\<rparr>)) (\<lambda>_.
         bnd (conn_tunnel p) (\<lambda>t.
         bnd (load socks (priv_sock t)) (\<lambda>_. \<comment> \<open>\<open>printf\<close> of \<open>p->tunnel->priv_sock->fd\<close>\<close>
         ret p)))
       else getWaitobjFrList rmtfd)
     else
       bnd (AppListFnd None appCompare1) (\<lambda>p.
       if p \<noteq> None then
         bnd (conn_upd p (\<lambda>t. t\<lparr>t_status := tunn_is_run\<rparr>)) (\<lambda>_.
         bnd (conn_upd p (\<lambda>t. t\<lparr>t_state := open_state\<rparr>)) (\<lambda>_.
         ret p))
       else getTargetFrList_new rmtfd))"

text \<open>Lines 278 to 296 and lines 300 to 313: the new socket becomes one of the two of its tunnel.\<close>

definition attach_priv :: "ptr \<Rightarrow> ptr \<Rightarrow> unit prog" where
  "attach_priv tunnel new =
     bnd (tunnel_upd tunnel (\<lambda>t. t\<lparr>t_state := open_state\<rparr>)) (\<lambda>_.
     bnd (tunnel_upd tunnel (\<lambda>t. t\<lparr>priv_sock := new\<rparr>)) (\<lambda>_.
     bnd (tunnel_upd tunnel (\<lambda>t. t\<lparr>read_count := 0\<rparr>)) (\<lambda>_.
     bnd (tunnel_upd tunnel (\<lambda>t. t\<lparr>t_closed := 0\<rparr>)) (\<lambda>_.
     bnd (epoll_add new) (\<lambda>_. ret ())))))"

definition attach_remote :: "ptr \<Rightarrow> ptr \<Rightarrow> unit prog" where
  "attach_remote tunnel new =
     bnd (tunnel_upd tunnel (\<lambda>t. t\<lparr>remote_sock := new\<rparr>)) (\<lambda>_.
     bnd (tunnel_upd tunnel (\<lambda>t. t\<lparr>read_count := 0\<rparr>)) (\<lambda>_.
     bnd (tunnel_upd tunnel (\<lambda>t. t\<lparr>t_closed := 0\<rparr>)) (\<lambda>_.
     bnd (load tunnels tunnel) (\<lambda>t.
     bnd (if t_status t = tmptun_is_wait
          then tunnel_upd tunnel (\<lambda>t. t\<lparr>t_state := tunnel_waitting\<rparr>)
          else tunnel_upd tunnel (\<lambda>t. t\<lparr>t_state := connected_state\<rparr>)) (\<lambda>_.
     bnd (epoll_add new) (\<lambda>_. ret ()))))))"

definition tunnel_create :: "int \<Rightarrow> int \<Rightarrow> ptr prog" where
  "tunnel_create fd privflg =
     bnd (sock_nonblocking fd) (\<lambda>_.
     bnd (sock_keepalive fd) (\<lambda>_.
     bnd (getTargetFrList fd privflg) (\<lambda>pconn1.
     if pconn1 = None then bnd (sys_close fd) (\<lambda>_. ret None)
     else bnd (load conns pconn1) (\<lambda>c.
     let tunnel = c_tunnel c in
     bnd (sock_create fd sock_connected privflg tunnel) (\<lambda>new.
     if new = None then
       bnd (free_tunnel tunnel) (\<lambda>_. bnd (sys_close fd) (\<lambda>_. ret None))
     else
       bnd (if privflg \<noteq> 0 then attach_priv tunnel new else attach_remote tunnel new) (\<lambda>_.
       ret tunnel))))))"

section \<open>Giving the remote connection back\<close>

definition tunnel_switch_handle :: "ptr \<Rightarrow> ptr \<Rightarrow> unit prog" where
  "tunnel_switch_handle sock tunnel =
     bnd (load socks sock) (\<lambda>s.
     let writable = 0 < buff_readable (write_buff s) in
     if writable then bnd (epoll_modify sock writable True) (\<lambda>_. ret ())
     else
       bnd (if iskeepalive s = keeplive_val conn_keep_alive then epoll_modify sock False True
            else epoll_modify sock False True) (\<lambda>_.
       bnd (load tunnels tunnel) (\<lambda>t.
       if sock = remote_sock t then
         bnd (if t_status t = tunn_is_run then
                bnd (tunnel_upd tunnel (\<lambda>t. t\<lparr>t_status := tunn_is_idle\<rparr>)) (\<lambda>_.
                bnd (tunnel_upd tunnel (\<lambda>t. t\<lparr>remote_sock := None\<rparr>)) (\<lambda>_.
                bnd (load tunnels tunnel) (\<lambda>t.
                bnd (load socks (priv_sock t)) (\<lambda>_. \<comment> \<open>\<open>printf\<close> of \<open>tunnel->priv_sock->fd\<close>\<close>
                ret ()))))
              else ret ()) (\<lambda>_.
         bnd (getWaitobjFrList (s_fd s)) (\<lambda>conn1.
         bnd (conn_upd conn1 (\<lambda>t. t\<lparr>remote_sock := sock\<rparr>)) (\<lambda>_.
         bnd (load conns conn1) (\<lambda>c.
         bnd (sock_upd sock (\<lambda>s. s\<lparr>s_tunnel := c_tunnel c\<rparr>)) (\<lambda>_.
         bnd (conn_upd conn1 (\<lambda>t. t\<lparr>t_state := tunnel_waitting\<rparr>)) (\<lambda>_.
         conn_upd conn1 (\<lambda>t. t\<lparr>t_status := tmptun_is_alive\<rparr>)))))))
       else ret ())))"

definition tunnel_shutdown :: "ptr \<Rightarrow> ptr \<Rightarrow> unit prog" where
  "tunnel_shutdown tunnel sock =
     bnd (load tunnels tunnel) (\<lambda>t.
     bnd (if sock = priv_sock t then sock_shutdown (priv_sock t) else ret ()) (\<lambda>_.
     bnd (load tunnels tunnel) (\<lambda>t.
     if sock = remote_sock t then sock_shutdown (remote_sock t) else ret ())))"

section \<open>The \<open>epoll\<close> handlers\<close>

text \<open>The \<open>switch (errno)\<close> of both handlers: the call is to be tried again later.\<close>

definition retry_errno :: "errno \<Rightarrow> bool" where
  "retry_errno e \<longleftrightarrow> e = EINTR \<or> e = EAGAIN"

definition tunnel_read_state :: "ptr \<Rightarrow> ptr \<Rightarrow> unit prog" where
  "tunnel_read_state sock tunnel =
     bnd (load tunnels tunnel) (\<lambda>t.
     case t_state t of
       open_state \<Rightarrow> bnd (tunnel_open_handle tunnel) (\<lambda>r. if r < 0 then sock_force_shutdown sock else ret ())
     | auth_state \<Rightarrow> bnd (tunnel_auth_handle tunnel) (\<lambda>r. if r < 0 then sock_force_shutdown sock else ret ())
     | request_state \<Rightarrow> bnd (tunnel_request_handle tunnel) (\<lambda>r. if r < 0 then sock_force_shutdown sock else ret ())
     | connecting_state \<Rightarrow>
         bnd (load socks sock) (\<lambda>s.
         bnd (c_assert (ispriv s = 0)) (\<lambda>_.
         bnd (tunnel_connecting_handle tunnel) (\<lambda>r. if r < 0 then tunnel_shutdown tunnel sock else ret ())))
     | connected_state \<Rightarrow>
         bnd (tunnel_connected_handle tunnel sock) (\<lambda>r. if r < 0 then tunnel_shutdown tunnel sock else ret ())
     | tunnel_waitting \<Rightarrow>
         bnd (load socks sock) (\<lambda>s.
         bnd (tunnel_waitting_handle tunnel (ispriv s)) (\<lambda>_. ret ())))"

definition tunnel_read_handle :: "rd_result \<Rightarrow> int \<Rightarrow> ptr \<Rightarrow> unit prog" where
  "tunnel_read_handle kr fd sock =
     bnd (load socks sock) (\<lambda>s.
     let tunnel = s_tunnel s in
     bnd (on_read_buff sock (buff_readfd kr)) (\<lambda>n.
     bnd (load tunnels tunnel) (\<lambda>_. \<comment> \<open>\<open>printf\<close> of \<open>tunnel->state\<close>\<close>
     bnd (gets errno_v) (\<lambda>e.
     if n < 0 \<and> \<not> retry_errno e then sock_shutdown sock
     else if n = 0 then sock_shutdown sock
     else tunnel_read_state sock tunnel))))"

text \<open>The first statement of \<open>tunnel_write_handle\<close>; the result tells whether it jumps to \<open>force_shutdown\<close>.\<close>

definition tunnel_write_out :: "wr_result \<Rightarrow> int \<Rightarrow> ptr \<Rightarrow> bool prog" where
  "tunnel_write_out kw fd sock =
     bnd (load socks sock) (\<lambda>s.
     if 0 < buff_readable (write_buff s) then
       bnd (on_write_buff sock (\<lambda>b. bnd (buff_writefd kw b) (\<lambda>(n, out, b). ret ((n, out), b)))) (\<lambda>(n, out).
       bnd (modifies (\<lambda>w. w\<lparr>wire := (wire w)(fd := wire w fd @ out)\<rparr>)) (\<lambda>_.
       bnd (gets errno_v) (\<lambda>e.
       ret (n \<le> 0 \<and> \<not> retry_errno e))))
     else ret (s_state s = sock_halfclosed))"

definition tunnel_write_handle :: "wr_result \<Rightarrow> int \<Rightarrow> ptr \<Rightarrow> unit prog" where
  "tunnel_write_handle kw fd sock =
     bnd (load socks sock) (\<lambda>s.
     let tunnel = s_tunnel s in
     bnd (tunnel_write_out kw fd sock) (\<lambda>force.
     if force then sock_force_shutdown sock
     else bnd (load tunnels tunnel) (\<lambda>t.
     bnd (if t_state t = connecting_state then tunnel_connecting_handle tunnel else ret 0) (\<lambda>r.
     if r < 0 then tunnel_shutdown tunnel sock
     else bnd (load tunnels tunnel) (\<lambda>t.
     if t_status t = tunn_is_run then tunnel_switch_handle sock tunnel
     else bnd (load socks sock) (\<lambda>s.
     bnd (epoll_modify sock (0 < buff_readable (write_buff s)) True) (\<lambda>_. ret ())))))))"

section \<open>Pairing\<close>

text \<open>The argument \<open>arg\<close> is passed through and never looked at.\<close>

definition fndIdleConnElemt :: "addr \<Rightarrow> unit \<Rightarrow> (int \<times> unit) prog" where
  "fndIdleConnElemt p0 arg =
     bnd (conn_tunnel (Some p0)) (\<lambda>t0.
     if t_status t0 = tunn_is_idle then
       bnd waitListEmpty (\<lambda>e.
       if e then ret (-1, arg)
       else bnd (waitListFnd None waitCompare2) (\<lambda>p.
       if p \<noteq> None then
         bnd (conn_upd (Some p0) (\<lambda>t. t\<lparr>t_status := tunn_is_run\<rparr>)) (\<lambda>_.
         bnd (conn_tunnel p) (\<lambda>tp.
         bnd (conn_upd (Some p0) (\<lambda>t. t\<lparr>remote_sock := remote_sock tp\<rparr>)) (\<lambda>_.
         bnd (load conns (Some p0)) (\<lambda>c0.
         bnd (sock_upd (remote_sock tp) (\<lambda>s. s\<lparr>s_tunnel := c_tunnel c0\<rparr>)) (\<lambda>_.
         bnd (tunnel_connected_handle (c_tunnel c0) (remote_sock tp)) (\<lambda>_.
         bnd (conn_upd p (\<lambda>t. t\<lparr>t_status := tmptun_is_free\<rparr>)) (\<lambda>_.
         bnd (conn_upd p (\<lambda>t. t\<lparr>remote_sock := None\<rparr>)) (\<lambda>_.
         ret (0, arg)))))))))
       else ret (-1, arg)))
     else ret (0, arg))"

definition waitLinePairing :: "unit prog" where
  "waitLinePairing =
     bnd AppListEmpty (\<lambda>e. if e then ret () else AppListDo fndIdleConnElemt ())"

end
