(* ===== verification/Server.thy ===== *)
theory Server
  imports Tunnel
begin

text \<open>
  The event loop of \<open>socks5.c\<close> and its start.  What the kernel answers is an argument: a
  \<open>kevent\<close> holds what \<open>epoll_wait\<close> reports about one descriptor and what the one system call
  of its handler (\<open>accept\<close>, \<open>read\<close> or \<open>write\<close>) would give.  \<open>epoll_wait\<close> passes on what
  the kernel can report only: registered descriptors, events asked for, each descriptor once, and at
  most \<open>MAX_EPOLL_EVENTS\<close> of them.
\<close>

section \<open>The loop\<close>

definition MAX_EPOLL_EVENTS :: nat where "MAX_EPOLL_EVENTS = 64"

record kevent =
  ke_fd :: int
  ke_in :: bool
  ke_out :: bool
  ke_rd :: rd_result
  ke_wr :: wr_result
  ke_acc :: "int + errno"

fun first_per_fd :: "kevent list \<Rightarrow> kevent list" where
  "first_per_fd [] = []"
| "first_per_fd (e # es) = e # filter (\<lambda>f. ke_fd f \<noteq> ke_fd e) (first_per_fd es)"

definition reported :: "world \<Rightarrow> kevent \<Rightarrow> (udata \<times> kevent) option" where
  "reported w e = (case epoll w (ke_fd e) of None \<Rightarrow> None
     | Some i \<Rightarrow> if (ke_in e \<longrightarrow> ep_in i) \<and> (ke_out e \<longrightarrow> ep_out i) then Some (ep_ptr i, e) else None)"

definition epoll_wait :: "kevent list \<Rightarrow> (udata \<times> kevent) list prog" where
  "epoll_wait es = gets (\<lambda>w.
     map the (filter (\<lambda>r. r \<noteq> None) (map (reported w) (take MAX_EPOLL_EVENTS (first_per_fd es)))))"

text \<open>\<open>*(int * )cur_ud\<close>: the first member of a \<open>server_t\<close> and of a \<open>sock_t\<close> is its descriptor.\<close>

definition cur_fd_of :: "udata \<Rightarrow> int prog" where
  "cur_fd_of ud = (case ud of
       UdServer \<Rightarrow> gets SERVER_fd
     | UdServer2 \<Rightarrow> gets SERVER2_fd
     | UdSock a \<Rightarrow> bnd (load socks (Some a)) (\<lambda>s. ret (s_fd s)))"

text \<open>\<open>(sock_t * )cur_ud\<close>\<close>

definition as_sock :: "udata \<Rightarrow> ptr prog" where
  "as_sock ud = (case ud of UdSock a \<Rightarrow> ret (Some a) | _ \<Rightarrow> halt OutOfBounds)"

definition accept_handle :: "int + errno \<Rightarrow> int \<Rightarrow> int prog" where
  "accept_handle k privflg =
     bnd (sys_accept k) (\<lambda>newfd.
     if newfd < 0 then ret (-1)
     else bnd (tunnel_create newfd privflg) (\<lambda>_. ret 0))"

text \<open>One iteration of the \<open>for\<close> loop over the events; the result is \<open>-1\<close> where it \<open>break\<close>s.\<close>

definition server_event :: "udata \<Rightarrow> kevent \<Rightarrow> int prog" where
  "server_event ud e =
     bnd (cur_fd_of ud) (\<lambda>cur_fd.
     bnd (gets (\<lambda>w. (SERVER_fd w, SERVER2_fd w))) (\<lambda>(fd1, fd2).
     if ke_in e then
       if cur_fd = fd1 then accept_handle (ke_acc e) 1
       else if cur_fd = fd2 then accept_handle (ke_acc e) 0
       else bnd (as_sock ud) (\<lambda>sock. bnd (tunnel_read_handle (ke_rd e) cur_fd sock) (\<lambda>_. ret 0))
     else if ke_out e then
       bnd (as_sock ud) (\<lambda>sock. bnd (tunnel_write_handle (ke_wr e) cur_fd sock) (\<lambda>_. ret 0))
     else ret 0))"

fun server_events :: "(udata \<times> kevent) list \<Rightarrow> unit prog" where
  "server_events [] = ret ()"
| "server_events ((ud, e) # es) = bnd (server_event ud e) (\<lambda>r. if r < 0 then ret () else server_events es)"

datatype wait_result = WaitEvents "kevent list" | WaitErr errno

text \<open>One turn of \<open>for (;;)\<close>; the result is \<open>-1\<close> where \<open>server_start\<close> returns.\<close>

definition server_round :: "wait_result \<Rightarrow> int prog" where
  "server_round wr = (case wr of
       WaitErr e \<Rightarrow>
         bnd (modifies (errno_v_update (\<lambda>_. e))) (\<lambda>_.
         if e \<noteq> EINTR then ret (-1)
         else bnd waitLinePairing (\<lambda>_. ret 0))
     | WaitEvents es \<Rightarrow>
         bnd (epoll_wait es) (\<lambda>evs.
         bnd (server_events evs) (\<lambda>_.
         bnd waitLinePairing (\<lambda>_. ret 0))))"

text \<open>The loop for as many turns as the kernel answers; the result is \<open>0\<close> while it still runs.\<close>

fun server_start :: "wait_result list \<Rightarrow> int prog" where
  "server_start [] = ret 0"
| "server_start (r # rs) = bnd (server_round r) (\<lambda>c. if c < 0 then ret (-1) else server_start rs)"

section \<open>The start\<close>

text \<open>What \<open>socket\<close>, \<open>setsockopt\<close>, \<open>bind\<close> and \<open>listen\<close> answer.\<close>

record net_result =
  nr_socket :: "int + errno"
  nr_reuse :: bool
  nr_bind :: bool
  nr_listen :: bool

text \<open>The result is the C return value and \<open>*pnSock\<close>, unset when \<open>socket\<close> failed.\<close>

definition simpNetSrvOpen :: "net_result \<Rightarrow> (int \<times> int option) prog" where
  "simpNetSrvOpen k =
     bnd (sys_accept (nr_socket k)) (\<lambda>nSock.
     if nSock < 0 then ret (-1, None)
     else if \<not> nr_reuse k then bnd (sys_close nSock) (\<lambda>_. ret (-1, Some nSock))
     else if nr_bind k \<and> nr_listen k then ret (0, Some nSock)
     else bnd (sys_close nSock) (\<lambda>_. ret (-1, Some nSock)))"

text \<open>
  The bytes \<open>atoi\<close> reads of an array of \<open>n\<close> bytes: white space, a sign, digits, and the first byte that
  is no digit.  The number itself goes to \<open>bind\<close> only, whose answer is an argument.
\<close>

fun span_end :: "(byte \<Rightarrow> bool) \<Rightarrow> nat \<Rightarrow> arr \<Rightarrow> nat \<Rightarrow> fault + nat" where
  "span_end P 0 a i = Inl Unterminated"
| "span_end P (Suc n) a i = (if P (a i) then span_end P n a (Suc i) else Inr i)"

definition atoi_reads :: "nat \<Rightarrow> arr \<Rightarrow> fault + nat" where
  "atoi_reads n a = (case span_end (\<lambda>c. c = 0x20 \<or> 0x09 \<le> c \<and> c \<le> 0x0D) n a 0 of
       Inl e \<Rightarrow> Inl e
     | Inr i \<Rightarrow>
         let j = (if a i = 0x2B \<or> a i = 0x2D then Suc i else i) in
         span_end (\<lambda>c. 0x30 \<le> c \<and> c \<le> 0x39) (n - j) a j)"

text \<open>\<open>port\<close> is one of the arrays of 16 bytes of \<open>main\<close>; the host is not looked at.\<close>

definition openServerSock :: "arr \<Rightarrow> net_result \<Rightarrow> (int \<times> int option) prog" where
  "openServerSock port k = bnd (lift_res (atoi_reads 16 port)) (\<lambda>_. simpNetSrvOpen k)"

text \<open>\<open>snprintf(dst, sizeof(dst), "%s", src)\<close> for arrays of 255 bytes.\<close>

definition snprintf_s :: "arr \<Rightarrow> arr \<Rightarrow> fault + arr" where
  "snprintf_s dst src = (case strlen_at 255 src 0 of Inl e \<Rightarrow> Inl e
     | Inr n \<Rightarrow> Inr (\<lambda>i. if i < min n 254 then src i else if i = min n 254 then 0 else dst i))"

definition server_init :: "arr \<Rightarrow> arr \<Rightarrow> net_result \<Rightarrow> net_result \<Rightarrow> bool \<Rightarrow> arr \<Rightarrow> arr \<Rightarrow> int prog" where
  "server_init port rmtPort k1 k2 epoll_ok username passwd =
     bnd (openServerSock port k1) (\<lambda>(r, listenfd).
     if r < 0 then ret (-1)
     else bnd (openServerSock rmtPort k2) (\<lambda>(r, rmtfd).
     if r < 0 then ret (-1)
     else if \<not> epoll_ok then ret (-1)
     else bnd (modifies (\<lambda>w. w\<lparr>SERVER_fd := the listenfd, SERVER2_fd := the rmtfd\<rparr>)) (\<lambda>_.
     bnd (epoll_ctl_add (the listenfd) \<lparr>ep_ptr = UdServer, ep_out = False, ep_in = True\<rparr>) (\<lambda>_.
     bnd (epoll_ctl_add (the rmtfd) \<lparr>ep_ptr = UdServer2, ep_out = False, ep_in = True\<rparr>) (\<lambda>_.
     bnd (gets (\<lambda>w. (mon_username w, mon_passwd w))) (\<lambda>(u, pw).
     bnd (lift_res (snprintf_s u username)) (\<lambda>u.
     bnd (modifies (\<lambda>w. w\<lparr>mon_username := u\<rparr>)) (\<lambda>_.
     bnd (lift_res (snprintf_s pw passwd)) (\<lambda>pw.
     bnd (modifies (\<lambda>w. w\<lparr>mon_passwd := pw\<rparr>)) (\<lambda>_. ret 0))))))))))"

text \<open>The program before \<open>main\<close>: no objects, null list heads, the standard descriptors open.\<close>

definition boot_world :: "(nat \<Rightarrow> bool) \<Rightarrow> arr \<Rightarrow> lref links \<Rightarrow> world" where
  "boot_world mem dirt l = \<lparr>oom = mem, allocs = 0, junk = dirt, live = 0, errno_v = EOTHER,
     socks = (\<lambda>_. None), tunnels = (\<lambda>_. None), conns = (\<lambda>_. None), fdels = (\<lambda>_. None), next_addr = 0,
     links = l, procs_head = None, procs_head2 = None, sockfdlist_head = None,
     epoll = (\<lambda>_. None), fd_open = (\<lambda>fd. fd \<in> {0, 1, 2}), fd_nonblock = (\<lambda>_. False),
     fd_keepalive = (\<lambda>_. False), so_error = (\<lambda>_. None), wire = (\<lambda>_. []),
     SERVER_fd = 0, SERVER2_fd = 0, mon_username = (\<lambda>_. 0), mon_passwd = (\<lambda>_. 0)\<rparr>"

end
