(* ===== verification/Invariant.thy ===== *)
theory Invariant
  imports Server
begin

text \<open>
  The invariant of the store: which pointers are alive and point to each other, what the
  registry of \<open>epoll\<close> may hold, which descriptors are open, and at which positions a handshake
  can be.  The first part defines it, the second shows what the elementary changes of the
  store do to it; the theories that follow use these lemmas only.
\<close>

section \<open>The invariant\<close>

definition live_tunnel :: "world \<Rightarrow> ptr \<Rightarrow> bool" where
  "live_tunnel w p \<longleftrightarrow> p \<noteq> None \<and> tunnels w (the p) \<noteq> None"

definition sock_ok :: "world \<Rightarrow> sock \<Rightarrow> bool" where
  "sock_ok w s \<longleftrightarrow> wf_buff (read_buff s) \<and> wf_buff (write_buff s) \<and>
     live_tunnel w (s_tunnel s) \<and>
     fd_open w (s_fd s) \<and> s_fd s \<noteq> SERVER_fd w \<and> s_fd s \<noteq> SERVER2_fd w"

definition socks_ok :: "world \<Rightarrow> bool" where
  "socks_ok w \<longleftrightarrow>
     (\<forall>a s. socks w a = Some s \<longrightarrow> a < next_addr w \<and> sock_ok w s) \<and>
     (\<forall>a b s s'. socks w a = Some s \<and> socks w b = Some s' \<and> s_fd s = s_fd s' \<longrightarrow> a = b)"

text \<open>A socket a tunnel points to is alive, points back, and is on the right side.\<close>

definition peer_ok :: "world \<Rightarrow> addr \<Rightarrow> bool \<Rightarrow> ptr \<Rightarrow> bool" where
  "peer_ok w t priv p \<longleftrightarrow>
     (\<forall>a. p = Some a \<longrightarrow> (\<exists>s. socks w a = Some s \<and> s_tunnel s = Some t \<and> (ispriv s \<noteq> 0) = priv))"

definition peers_ok :: "world \<Rightarrow> addr \<Rightarrow> tunnel \<Rightarrow> bool" where
  "peers_ok w t T \<longleftrightarrow> peer_ok w t True (priv_sock T) \<and> peer_ok w t False (remote_sock T)"

text \<open>The positions \<open>read_count\<close> can have, and the lengths already checked there.\<close>

definition phase_ok :: "tunnel \<Rightarrow> bool" where
  "phase_ok T \<longleftrightarrow> (case t_state T of
       open_state \<Rightarrow> read_count T \<in> {0, nheader_open}
     | auth_state \<Rightarrow> read_count T = 0 \<or>
         unat (ap_ulen (t_ap T)) \<le> MAX_UNAME_LEN \<and>
         (read_count T \<in> {nheader_auth, nheader_auth + unat (ap_ulen (t_ap T))} \<or>
          read_count T = nheader_auth + unat (ap_ulen (t_ap T)) + nplen \<and>
            unat (ap_plen (t_ap T)) \<le> MAX_PASSWD_LEN)
     | request_state \<Rightarrow> read_count T \<in> {0, nheader_req, nheader_req + ndomainlen}
     | connecting_state \<Rightarrow> False
     | connected_state \<Rightarrow> True
     | tunnel_waitting \<Rightarrow> True)"

text \<open>The name and the password end inside their arrays.\<close>

definition creds_ok :: "tunnel \<Rightarrow> bool" where
  "creds_ok T \<longleftrightarrow> (\<forall>i \<ge> MAX_UNAME_LEN. ap_uname (t_ap T) i = 0) \<and>
     (\<forall>i \<ge> MAX_PASSWD_LEN. ap_passwd (t_ap T) i = 0)"

lemma phase_ok_other [simp]:
  "phase_ok (T\<lparr>priv_sock := p\<rparr>) = phase_ok T" "phase_ok (T\<lparr>remote_sock := p\<rparr>) = phase_ok T"
  "phase_ok (T\<lparr>t_status := s\<rparr>) = phase_ok T" "phase_ok (T\<lparr>t_closed := c\<rparr>) = phase_ok T"
  by (simp_all add: phase_ok_def split: tunnel_state.split)

lemma creds_ok_other [simp]:
  "creds_ok (T\<lparr>priv_sock := p\<rparr>) = creds_ok T" "creds_ok (T\<lparr>remote_sock := p\<rparr>) = creds_ok T"
  "creds_ok (T\<lparr>t_status := s\<rparr>) = creds_ok T" "creds_ok (T\<lparr>t_closed := c\<rparr>) = creds_ok T"
  "creds_ok (T\<lparr>t_state := x\<rparr>) = creds_ok T" "creds_ok (T\<lparr>read_count := n\<rparr>) = creds_ok T"
  by (simp_all add: creds_ok_def)

text \<open>
  Tunnels of \<open>X\<close> need not agree with their sockets, those of \<open>Y\<close> may be between two
  positions: the handlers pass through such states.
\<close>

definition tunnels_ok :: "addr set \<Rightarrow> addr set \<Rightarrow> world \<Rightarrow> bool" where
  "tunnels_ok X Y w \<longleftrightarrow> (\<forall>t T. tunnels w t = Some T \<longrightarrow>
     t < next_addr w \<and> (t \<notin> X \<longrightarrow> peers_ok w t T) \<and> (t \<notin> Y \<longrightarrow> phase_ok T) \<and> creds_ok T)"

definition conns_ok :: "world \<Rightarrow> bool" where
  "conns_ok w \<longleftrightarrow> (\<forall>a c. conns w a = Some c \<longrightarrow>
     a < next_addr w \<and> live_tunnel w (c_tunnel c))"

definition interest_ok :: "world \<Rightarrow> int \<Rightarrow> interest \<Rightarrow> bool" where
  "interest_ok w fd i \<longleftrightarrow>
     (ep_ptr i = UdServer \<longrightarrow> fd = SERVER_fd w \<and> \<not> ep_out i) \<and>
     (ep_ptr i = UdServer2 \<longrightarrow> fd = SERVER2_fd w \<and> \<not> ep_out i) \<and>
     (\<forall>a. ep_ptr i = UdSock a \<longrightarrow> (\<exists>s. socks w a = Some s \<and> s_fd s = fd))"

definition registry_ok :: "world \<Rightarrow> bool" where
  "registry_ok w \<longleftrightarrow> (\<forall>fd i. epoll w fd = Some i \<longrightarrow> interest_ok w fd i)"

definition listeners_ok :: "world \<Rightarrow> bool" where
  "listeners_ok w \<longleftrightarrow> fd_open w (SERVER_fd w) \<and> fd_open w (SERVER2_fd w) \<and> SERVER_fd w \<noteq> SERVER2_fd w"

definition mem_ok :: "world \<Rightarrow> bool" where
  "mem_ok w \<longleftrightarrow> (\<forall>n. \<not> oom w n)"

definition winv :: "addr list \<Rightarrow> addr list \<Rightarrow> addr set \<Rightarrow> addr set \<Rightarrow> world \<Rightarrow> bool" where
  "winv as ws X Y w \<longleftrightarrow> pools w as ws \<and> socks_ok w \<and> tunnels_ok X Y w \<and> conns_ok w \<and>
     registry_ok w \<and> listeners_ok w \<and> mem_ok w"

definition world_ok :: "world \<Rightarrow> bool" where
  "world_ok w \<longleftrightarrow> (\<exists>as ws. winv as ws {} {} w)"

lemmas winv_defs = winv_def pools_def socks_ok_def sock_ok_def live_tunnel_def tunnels_ok_def peers_ok_def peer_ok_def
  conns_ok_def registry_ok_def interest_ok_def listeners_ok_def mem_ok_def

section \<open>What the invariant gives\<close>

lemma winv_mono: "winv as ws X Y w \<Longrightarrow> X \<subseteq> X' \<Longrightarrow> Y \<subseteq> Y' \<Longrightarrow> winv as ws X' Y' w"
  unfolding winv_def tunnels_ok_def by blast

lemma winv_oom: "winv as ws X Y w \<Longrightarrow> \<not> oom w n"
  by (simp add: winv_def mem_ok_def)

lemma winv_pools: "winv as ws X Y w \<Longrightarrow> pools w as ws"
  by (simp add: winv_def)

lemma winv_sock:
  assumes "winv as ws X Y w" and "socks w a = Some s"
  shows "sock_ok w s" "a < next_addr w" "wf_buff (read_buff s)" "wf_buff (write_buff s)" "fd_open w (s_fd s)"
    "s_fd s \<noteq> SERVER_fd w" "s_fd s \<noteq> SERVER2_fd w"
  using assms by (auto simp: winv_def socks_ok_def sock_ok_def live_tunnel_def)

lemma winv_sock_tunnel:
  assumes "winv as ws X Y w" and "socks w a = Some s"
  obtains t T where "s_tunnel s = Some t" "tunnels w t = Some T"
  using winv_sock(1) [OF assms] by (auto simp: sock_ok_def live_tunnel_def)

lemma winv_tunnel:
  assumes "winv as ws X Y w" and "tunnels w t = Some T"
  shows "t \<notin> X \<Longrightarrow> peers_ok w t T" "t \<notin> Y \<Longrightarrow> phase_ok T" "creds_ok T" "t < next_addr w"
  using assms by (auto simp: winv_def tunnels_ok_def)

lemma winv_priv:
  assumes "winv as ws X Y w" and "tunnels w t = Some T" and "t \<notin> X" and "priv_sock T = Some a"
  obtains s where "socks w a = Some s" "s_tunnel s = Some t" "ispriv s \<noteq> 0"
  using winv_tunnel(1) [OF assms(1-3)] assms(4) by (auto simp: peers_ok_def peer_ok_def)

lemma winv_remote:
  assumes "winv as ws X Y w" and "tunnels w t = Some T" and "t \<notin> X" and "remote_sock T = Some a"
  obtains s where "socks w a = Some s" "s_tunnel s = Some t" "ispriv s = 0"
  using winv_tunnel(1) [OF assms(1-3)] assms(4) by (auto simp: peers_ok_def peer_ok_def)

lemma winv_conn:
  assumes "winv as ws X Y w" and "conns w a = Some c"
  obtains t T where "c_tunnel c = Some t" "tunnels w t = Some T"
proof -
  from assms have "live_tunnel w (c_tunnel c)" unfolding winv_def conns_ok_def by blast
  with that show thesis by (auto simp: live_tunnel_def)
qed

lemma winv_listed:
  assumes "winv as ws X Y w" and "a \<in> set as \<union> set ws"
  obtains c t T where "conns w a = Some c" "c_tunnel c = Some t" "tunnels w t = Some T"
proof -
  from assms obtain c where "conns w a = Some c" by (auto simp: winv_def pools_def)
  with winv_conn [OF assms(1) this] that show thesis by blast
qed

section \<open>Elementary changes\<close>

text \<open>Parts of the store the invariant does not look at.\<close>

lemma winv_other [simp]:
  "winv as ws X Y (w\<lparr>errno_v := e\<rparr>) = winv as ws X Y w"
  "winv as ws X Y (w\<lparr>live := l\<rparr>) = winv as ws X Y w"
  "winv as ws X Y (w\<lparr>allocs := n\<rparr>) = winv as ws X Y w"
  "winv as ws X Y (w\<lparr>wire := x\<rparr>) = winv as ws X Y w"
  "winv as ws X Y (w\<lparr>fd_nonblock := f\<rparr>) = winv as ws X Y w"
  "winv as ws X Y (w\<lparr>fd_keepalive := f\<rparr>) = winv as ws X Y w"
  by (simp_all add: winv_defs)

lemma winv_env_step: "env_step w w' \<Longrightarrow> winv as ws X Y w' = winv as ws X Y w"
proof -
  assume "env_step w w'"
  then have "w' = w\<lparr>allocs := allocs w', live := live w', errno_v := errno_v w'\<rparr>"
    by (simp add: env_step_def)
  then have "winv as ws X Y w' = winv as ws X Y (w\<lparr>allocs := allocs w', live := live w', errno_v := errno_v w'\<rparr>)"
    by (rule arg_cong)
  then show ?thesis by simp
qed

text \<open>A socket's buffers and its state.\<close>

lemma winv_sock_upd:
  assumes "winv as ws X Y w" and "socks w a = Some s"
    and "s_fd s' = s_fd s" "s_tunnel s' = s_tunnel s" "ispriv s' = ispriv s"
    and "wf_buff (read_buff s')" "wf_buff (write_buff s')"
  shows "winv as ws X Y (w\<lparr>socks := (socks w)(a \<mapsto> s')\<rparr>)"
proof -
  let ?w = "w\<lparr>socks := (socks w)(a \<mapsto> s')\<rparr>"
  have so: "socks_ok ?w"
    using assms unfolding winv_def socks_ok_def sock_ok_def live_tunnel_def by (auto split: if_splits)
  have peer: "peer_ok ?w t d p" if "peer_ok w t d p" for t d p
    using that assms(2,4,5) unfolding peer_ok_def by auto
  have to: "tunnels_ok X Y ?w"
    using assms(1) peer unfolding winv_def tunnels_ok_def peers_ok_def by simp
  have "interest_ok ?w fd i" if "interest_ok w fd i" for fd i
    using that assms(2,3) unfolding interest_ok_def by (auto)
  then have "registry_ok ?w" using assms(1) unfolding winv_def registry_ok_def by simp
  with so to assms(1) show ?thesis
    by (simp add: winv_def pools_def conns_ok_def live_tunnel_def listeners_ok_def mem_ok_def)
qed

text \<open>A tunnel's members.\<close>

lemma winv_tunnel_upd:
  assumes "winv as ws (insert t X) (insert t Y) w" and "tunnels w t = Some T"
    and "t \<notin> X \<Longrightarrow> peers_ok w t T'" and "t \<notin> Y \<Longrightarrow> phase_ok T'" and "creds_ok T'"
  shows "winv as ws X Y (w\<lparr>tunnels := (tunnels w)(t \<mapsto> T')\<rparr>)"
proof -
  let ?w = "w\<lparr>tunnels := (tunnels w)(t \<mapsto> T')\<rparr>"
  have "peers_ok ?w t' U = peers_ok w t' U" for t' U
    by (simp add: peers_ok_def peer_ok_def)
  with assms have "tunnels_ok X Y ?w" unfolding winv_def tunnels_ok_def by auto
  with assms(1) show ?thesis
    by (auto simp: winv_def pools_def socks_ok_def sock_ok_def live_tunnel_def conns_ok_def registry_ok_def interest_ok_def
        listeners_ok_def mem_ok_def)
qed

lemma peer_ok_None [simp]: "peer_ok w t d None"
  by (simp add: peer_ok_def)

lemma peers_ok_less:
  assumes "peers_ok w t T" and "priv_sock T' \<in> {priv_sock T, None}" and "remote_sock T' \<in> {remote_sock T, None}"
  shows "peers_ok w t T'"
  using assms by (auto simp: peers_ok_def)

text \<open>The registry.\<close>

lemma winv_epoll_set:
  assumes "winv as ws X Y w" and "socks w a = Some s"
  shows "winv as ws X Y (w\<lparr>epoll := (epoll w)(s_fd s \<mapsto> \<lparr>ep_ptr = UdSock a, ep_out = x, ep_in = y\<rparr>)\<rparr>)"
  using assms by (auto simp: winv_def pools_def socks_ok_def sock_ok_def live_tunnel_def tunnels_ok_def peers_ok_def peer_ok_def
      conns_ok_def registry_ok_def interest_ok_def listeners_ok_def mem_ok_def)

lemma winv_epoll_unset:
  assumes "winv as ws X Y w"
  shows "winv as ws X Y (w\<lparr>epoll := (epoll w)(fd := None)\<rparr>)"
  using assms by (auto simp: winv_def pools_def socks_ok_def sock_ok_def live_tunnel_def tunnels_ok_def peers_ok_def peer_ok_def
      conns_ok_def registry_ok_def interest_ok_def listeners_ok_def mem_ok_def)

text \<open>A socket nobody points to any more goes away together with its descriptor.\<close>

lemma winv_sock_free:
  assumes inv: "winv as ws X Y w" and s: "socks w a = Some s"
    and un: "\<And>t T. tunnels w t = Some T \<Longrightarrow> t \<notin> X \<Longrightarrow> priv_sock T \<noteq> Some a \<and> remote_sock T \<noteq> Some a"
  shows "winv as ws X Y (w\<lparr>fd_open := (fd_open w)(s_fd s := False), epoll := (epoll w)(s_fd s := None),
           socks := (socks w)(a := None)\<rparr>)"
proof -
  let ?w = "w\<lparr>fd_open := (fd_open w)(s_fd s := False), epoll := (epoll w)(s_fd s := None),
           socks := (socks w)(a := None)\<rparr>"
  have so: "socks_ok ?w"
    using inv s unfolding winv_def socks_ok_def sock_ok_def live_tunnel_def by auto
  have peer: "peer_ok ?w t d p" if "peer_ok w t d p" "p \<noteq> Some a" for t d p
    using that unfolding peer_ok_def by auto
  have to: "tunnels_ok X Y ?w"
    using inv peer un unfolding winv_def tunnels_ok_def peers_ok_def by simp
  have "interest_ok ?w fd i" if "interest_ok w fd i" "fd \<noteq> s_fd s" for fd i
    using that s unfolding interest_ok_def by (auto)
  then have eo: "registry_ok ?w" using inv unfolding winv_def registry_ok_def by auto
  from winv_sock(6,7) [OF inv s] inv have "listeners_ok ?w"
    by (auto simp: winv_def listeners_ok_def)
  with so to eo inv show ?thesis
    by (simp add: winv_def pools_def conns_ok_def live_tunnel_def mem_ok_def)
qed

text \<open>A new descriptor, and the objects made for it.\<close>

definition fd_unused :: "world \<Rightarrow> int \<Rightarrow> bool" where
  "fd_unused w fd \<longleftrightarrow> fd_open w fd \<and> fd \<noteq> SERVER_fd w \<and> fd \<noteq> SERVER2_fd w \<and>
     (\<forall>a s. socks w a = Some s \<longrightarrow> s_fd s \<noteq> fd)"

lemma winv_fd_open:
  assumes inv: "winv as ws X Y w" and fd: "\<not> fd_open w fd"
  shows "winv as ws X Y (w\<lparr>fd_open := (fd_open w)(fd := True), epoll := (epoll w)(fd := None)\<rparr>)"
    and "fd_unused (w\<lparr>fd_open := (fd_open w)(fd := True), epoll := (epoll w)(fd := None)\<rparr>) fd"
proof -
  have ne: "s_fd s \<noteq> fd" if "socks w a = Some s" for a s
    using winv_sock(5) [OF inv that] fd by auto
  show "winv as ws X Y (w\<lparr>fd_open := (fd_open w)(fd := True), epoll := (epoll w)(fd := None)\<rparr>)"
    using inv by (auto simp: winv_def pools_def socks_ok_def sock_ok_def live_tunnel_def tunnels_ok_def peers_ok_def peer_ok_def
      conns_ok_def registry_ok_def interest_ok_def listeners_ok_def mem_ok_def)
  show "fd_unused (w\<lparr>fd_open := (fd_open w)(fd := True), epoll := (epoll w)(fd := None)\<rparr>) fd"
    using inv fd ne by (auto simp: fd_unused_def winv_def listeners_ok_def)
qed

lemma winv_fd_close:
  assumes inv: "winv as ws X Y w" and fd: "fd_unused w fd"
  shows "winv as ws X Y (w\<lparr>fd_open := (fd_open w)(fd := False), epoll := (epoll w)(fd := None)\<rparr>)"
  using inv fd by (auto simp: fd_unused_def winv_def pools_def socks_ok_def sock_ok_def live_tunnel_def tunnels_ok_def peers_ok_def
      peer_ok_def conns_ok_def registry_ok_def interest_ok_def listeners_ok_def mem_ok_def)

lemma winv_new_sock:
  assumes inv: "winv as ws X Y w" and fd: "fd_unused w (s_fd s)"
    and s: "wf_buff (read_buff s)" "wf_buff (write_buff s)" "s_tunnel s = Some t" "tunnels w t = Some T"
  shows "winv as ws X Y (w\<lparr>socks := (socks w)(next_addr w \<mapsto> s), next_addr := Suc (next_addr w)\<rparr>)"
proof -
  let ?w = "w\<lparr>socks := (socks w)(next_addr w \<mapsto> s), next_addr := Suc (next_addr w)\<rparr>"
  have fresh: "socks w (next_addr w) = None"
  proof (rule ccontr)
    assume "socks w (next_addr w) \<noteq> None"
    then obtain s where "socks w (next_addr w) = Some s" by auto
    from winv_sock(2) [OF inv this] show False by simp
  qed
  have keep: "socks w a = Some u \<Longrightarrow> socks ?w a = Some u" for a u
    using fresh by auto
  have "sock_ok ?w u" if "sock_ok w u" for u using that by (simp add: sock_ok_def live_tunnel_def)
  moreover have "sock_ok ?w s" using fd s by (simp add: fd_unused_def sock_ok_def live_tunnel_def)
  ultimately have so: "socks_ok ?w"
    using inv fd unfolding winv_def socks_ok_def fd_unused_def by (simp add: less_Suc_eq) metis
  have peer: "peer_ok ?w t d p" if "peer_ok w t d p" for t d p
    using that keep unfolding peer_ok_def by blast
  have to: "tunnels_ok X Y ?w"
    using inv peer unfolding winv_def tunnels_ok_def peers_ok_def by (simp add: less_Suc_eq)
  have "interest_ok ?w fd i" if "interest_ok w fd i" for fd i
    using that keep unfolding interest_ok_def by (simp del: fun_upd_apply) blast
  then have eo: "registry_ok ?w" using inv unfolding winv_def registry_ok_def by simp
  have "pools ?w as ws" "conns_ok ?w" "listeners_ok ?w" "mem_ok ?w"
    using inv by (auto simp: winv_def pools_def conns_ok_def live_tunnel_def listeners_ok_def mem_ok_def less_Suc_eq)
  with so to eo show ?thesis by (simp add: winv_def)
qed

lemma winv_new_tunnel:
  assumes inv: "winv as ws X Y w" and T: "priv_sock T = None" "remote_sock T = None" "phase_ok T" "creds_ok T"
  shows "winv as ws X Y (w\<lparr>tunnels := (tunnels w)(next_addr w \<mapsto> T), next_addr := Suc (next_addr w)\<rparr>)"
proof -
  let ?w = "w\<lparr>tunnels := (tunnels w)(next_addr w \<mapsto> T), next_addr := Suc (next_addr w)\<rparr>"
  have "sock_ok ?w u" if "sock_ok w u" for u using that by (auto simp: sock_ok_def live_tunnel_def)
  then have so: "socks_ok ?w"
    using inv unfolding winv_def socks_ok_def by (auto simp: less_Suc_eq)
  have "peers_ok ?w t' U = peers_ok w t' U" for t' U by (simp add: peers_ok_def peer_ok_def)
  moreover have "peers_ok w t' T" for t' using T by (simp add: peers_ok_def)
  ultimately have to: "tunnels_ok X Y ?w"
    using inv T unfolding winv_def tunnels_ok_def by (auto simp: less_Suc_eq)
  have "pools ?w as ws" "conns_ok ?w" "listeners_ok ?w" "mem_ok ?w" "registry_ok ?w"
    using inv by (auto simp: winv_def pools_def conns_ok_def live_tunnel_def listeners_ok_def mem_ok_def registry_ok_def
        interest_ok_def less_Suc_eq)
  with so to show ?thesis by (simp add: winv_def)
qed

lemma winv_new_conn:
  assumes inv: "winv as ws X Y w" and c: "c_tunnel c = Some t" "tunnels w t = Some T"
  shows "winv as ws X Y (w\<lparr>conns := (conns w)(next_addr w \<mapsto> c), next_addr := Suc (next_addr w)\<rparr>)"
  using assms by (auto simp: winv_def pools_def socks_ok_def sock_ok_def live_tunnel_def tunnels_ok_def peers_ok_def peer_ok_def
      conns_ok_def registry_ok_def interest_ok_def listeners_ok_def mem_ok_def less_Suc_eq)

lemma winv_links:
  assumes "winv as ws X Y w" and "pools (w\<lparr>links := l\<rparr>) as' ws'"
  shows "winv as' ws' X Y (w\<lparr>links := l\<rparr>)"
  using assms by (auto simp: winv_def socks_ok_def sock_ok_def live_tunnel_def tunnels_ok_def peers_ok_def peer_ok_def
      conns_ok_def registry_ok_def interest_ok_def listeners_ok_def mem_ok_def)

section \<open>What stays when a handler has run\<close>

text \<open>
  No object disappears, and sockets and tunnels keep pointing to each other.
\<close>

definition same_shape :: "world \<Rightarrow> world \<Rightarrow> bool" where
  "same_shape w w' \<longleftrightarrow>
     (\<forall>a s. socks w a = Some s \<longrightarrow> (\<exists>s'. socks w' a = Some s' \<and> s_fd s' = s_fd s \<and>
        s_tunnel s' = s_tunnel s \<and> ispriv s' = ispriv s)) \<and>
     (\<forall>t T. tunnels w t = Some T \<longrightarrow> (\<exists>T'. tunnels w' t = Some T' \<and>
        priv_sock T' = priv_sock T \<and> remote_sock T' = remote_sock T)) \<and>
     conns w' = conns w"

lemma same_shape_refl [simp]: "same_shape w w"
  by (simp add: same_shape_def)

lemma same_shape_sock:
  assumes "same_shape w w'" and "socks w a = Some s"
  obtains s' where "socks w' a = Some s'" "s_fd s' = s_fd s" "s_tunnel s' = s_tunnel s" "ispriv s' = ispriv s"
  using assms unfolding same_shape_def by metis

lemma same_shape_tunnel:
  assumes "same_shape w w'" and "tunnels w t = Some T"
  obtains T' where "tunnels w' t = Some T'" "priv_sock T' = priv_sock T" "remote_sock T' = remote_sock T"
  using assms unfolding same_shape_def by metis

lemma same_shape_trans:
  assumes uv: "same_shape u v" and vw: "same_shape v w"
  shows "same_shape u w"
proof -
  have "\<exists>s'. socks w a = Some s' \<and> s_fd s' = s_fd s \<and> s_tunnel s' = s_tunnel s \<and> ispriv s' = ispriv s"
    if s: "socks u a = Some s" for a s
  proof -
    obtain s1 where s1: "socks v a = Some s1" "s_fd s1 = s_fd s" "s_tunnel s1 = s_tunnel s" "ispriv s1 = ispriv s"
      by (rule same_shape_sock [OF uv s])
    from same_shape_sock [OF vw s1(1)] s1 show ?thesis by metis
  qed
  moreover have "\<exists>T'. tunnels w t = Some T' \<and> priv_sock T' = priv_sock T \<and> remote_sock T' = remote_sock T"
    if t: "tunnels u t = Some T" for t T
  proof -
    obtain T1 where T1: "tunnels v t = Some T1" "priv_sock T1 = priv_sock T" "remote_sock T1 = remote_sock T"
      by (rule same_shape_tunnel [OF uv t])
    from same_shape_tunnel [OF vw T1(1)] T1 show ?thesis by metis
  qed
  moreover have "conns w = conns u" using uv vw by (simp add: same_shape_def)
  ultimately show ?thesis unfolding same_shape_def by blast
qed

text \<open>The faults of the sources that the invariant does not exclude.\<close>

abbreviation crashes :: "fault set" where
  "crashes \<equiv> {NullDeref, Unterminated}"

end
