(* ===== verification/Session.thy ===== *)
theory Session
  imports Invariant
begin

text \<open>
  One handshake seen from outside.  The protocol handlers touch one tunnel, the buffers of
  one socket, and that socket's entry of the \<open>epoll\<close> registry.  \<open>session w0 p t bs out T w\<close> says
  that \<open>w\<close> is \<open>w0\<close> up to that: the socket \<open>p\<close> has \<open>bs\<close> to read and \<open>out\<close> to send, the block
  of its read buffer is filled as far as before, and the tunnel \<open>t\<close> is \<open>T\<close>.  Under this view each statement of a handler is a step on \<open>(bs, out, T)\<close>; the
  rules of this theory are these steps.
\<close>

definition same_sock :: "sock \<Rightarrow> sock \<Rightarrow> bool" where
  "same_sock s s' \<longleftrightarrow> s_fd s' = s_fd s \<and> s_tunnel s' = s_tunnel s \<and> ispriv s' = ispriv s \<and>
     s_state s' = s_state s \<and> iskeepalive s' = iskeepalive s \<and>
     cap (read_buff s') = cap (read_buff s) \<and> write_index (read_buff s') = write_index (read_buff s)"

definition frame :: "world \<Rightarrow> world \<Rightarrow> bool" where
  "frame w0 w \<longleftrightarrow> w = w0\<lparr>socks := socks w, tunnels := tunnels w, epoll := epoll w,
     allocs := allocs w, live := live w, errno_v := errno_v w\<rparr>"

definition session_at :: "world \<Rightarrow> addr \<Rightarrow> addr \<Rightarrow> byte list \<Rightarrow> byte list \<Rightarrow> tunnel \<Rightarrow> world \<Rightarrow>
    sock \<Rightarrow> sock \<Rightarrow> bool" where
  "session_at w0 p t bs out T w s0 s \<longleftrightarrow>
     socks w0 p = Some s0 \<and> socks w = (socks w0)(p \<mapsto> s) \<and> same_sock s0 s \<and>
     wf_buff (read_buff s) \<and> wf_buff (write_buff s) \<and>
     contents (read_buff s) = bs \<and> contents (write_buff s) = out \<and>
     tunnels w0 t \<noteq> None \<and> tunnels w = (tunnels w0)(t \<mapsto> T) \<and>
     (epoll w = epoll w0 \<or>
      epoll w = (epoll w0)(s_fd s0 \<mapsto> \<lparr>ep_ptr = UdSock p, ep_out = True, ep_in = True\<rparr>)) \<and>
     frame w0 w"

definition session :: "world \<Rightarrow> addr \<Rightarrow> addr \<Rightarrow> byte list \<Rightarrow> byte list \<Rightarrow> tunnel \<Rightarrow> world \<Rightarrow> bool" where
  "session w0 p t bs out T w \<longleftrightarrow> (\<exists>s0 s. session_at w0 p t bs out T w s0 s)"

lemma frame_same:
  assumes "frame w0 w"
  shows "oom w = oom w0" "mon_username w = mon_username w0" "mon_passwd w = mon_passwd w0"
    "conns w = conns w0" "next_addr w = next_addr w0" "links w = links w0" "fd_open w = fd_open w0"
    "auth_required w = auth_required w0" "wire w = wire w0"
  by (subst assms [unfolded frame_def], simp add: auth_required_def)+

lemma frame_env_step: "frame w0 w \<Longrightarrow> env_step w w' \<Longrightarrow> frame w0 w'"
  by (cases w0; cases w; cases w') (simp add: frame_def env_step_def)

lemma frame_updates [simp]:
  "frame w0 (w\<lparr>socks := x\<rparr>) = frame w0 w" "frame w0 (w\<lparr>tunnels := y\<rparr>) = frame w0 w"
  "frame w0 (w\<lparr>epoll := z\<rparr>) = frame w0 w" "frame w0 (w\<lparr>errno_v := e\<rparr>) = frame w0 w"
  by (cases w0; cases w; auto simp: frame_def)+

lemma frame_refl [simp]: "frame w w"
  by (simp add: frame_def)

lemma same_sock_refl [simp]: "same_sock s s"
  by (simp add: same_sock_def)

lemma same_sock_updates [simp]:
  "cap b = cap (read_buff s') \<Longrightarrow> write_index b = write_index (read_buff s') \<Longrightarrow>
     same_sock s (s'\<lparr>read_buff := b\<rparr>) = same_sock s s'"
  "same_sock s (s'\<lparr>write_buff := b\<rparr>) = same_sock s s'"
  by (simp_all add: same_sock_def)

lemma session_start:
  assumes "winv as ws X Y w" and "socks w p = Some s" and "tunnels w t = Some T"
  shows "session w p t (contents (read_buff s)) (contents (write_buff s)) T w"
  unfolding session_def
proof (intro exI)
  show "session_at w p t (contents (read_buff s)) (contents (write_buff s)) T w s s"
    using assms winv_sock [OF assms(1,2)] by (simp add: session_at_def fun_upd_idem)
qed

lemma session_env_step:
  assumes "session w0 p t bs out T w" and "env_step w w'"
  shows "session w0 p t bs out T w'"
proof -
  from assms(2) have e: "socks w' = socks w" "tunnels w' = tunnels w" "epoll w' = epoll w"
    by (cases w; cases w'; simp add: env_step_def)+
  from assms(1) frame_env_step [OF _ assms(2)] show ?thesis
    unfolding session_def session_at_def e by blast
qed

lemma session_live:
  assumes "session w0 p t bs out T w"
  obtains s0 s where "socks w0 p = Some s0" "socks w p = Some s" "same_sock s0 s"
    "wf_buff (read_buff s)" "wf_buff (write_buff s)" "contents (read_buff s) = bs"
    "contents (write_buff s) = out" "tunnels w t = Some T" "frame w0 w"
proof -
  from assms obtain s0 s where "session_at w0 p t bs out T w s0 s" unfolding session_def by blast
  then show thesis by (intro that [of s0 s]) (simp_all add: session_at_def)
qed

lemma session_set_sock:
  assumes "session w0 p t bs out T w" and "socks w p = Some s" and "same_sock s s'"
    and "wf_buff (read_buff s')" "wf_buff (write_buff s')"
  shows "session w0 p t (contents (read_buff s')) (contents (write_buff s')) T (w\<lparr>socks := (socks w)(p \<mapsto> s')\<rparr>)"
proof -
  from assms(1) obtain s0 s1 where "session_at w0 p t bs out T w s0 s1" unfolding session_def by blast
  with assms(2-5) have "session_at w0 p t (contents (read_buff s')) (contents (write_buff s')) T
      (w\<lparr>socks := (socks w)(p \<mapsto> s')\<rparr>) s0 s'"
    by (simp add: session_at_def same_sock_def)
  then show ?thesis unfolding session_def by blast
qed

lemma session_set_tunnel:
  assumes "session w0 p t bs out T w"
  shows "session w0 p t bs out U (w\<lparr>tunnels := (tunnels w)(t \<mapsto> U)\<rparr>)"
proof -
  from assms obtain s0 s where "session_at w0 p t bs out T w s0 s" unfolding session_def by blast
  then have "session_at w0 p t bs out U (w\<lparr>tunnels := (tunnels w)(t \<mapsto> U)\<rparr>) s0 s"
    by (simp add: session_at_def)
  then show ?thesis unfolding session_def by blast
qed

lemma session_set_epoll:
  assumes "session w0 p t bs out T w" and "socks w p = Some s"
  shows "session w0 p t bs out T (w\<lparr>epoll := (epoll w)(s_fd s \<mapsto> \<lparr>ep_ptr = UdSock p, ep_out = True, ep_in = True\<rparr>)\<rparr>)"
proof -
  from assms(1) obtain s0 s1 where s1: "session_at w0 p t bs out T w s0 s1" unfolding session_def by blast
  with assms(2) have "s_fd s = s_fd s0" by (simp add: session_at_def same_sock_def)
  with s1 have "session_at w0 p t bs out T
      (w\<lparr>epoll := (epoll w)(s_fd s \<mapsto> \<lparr>ep_ptr = UdSock p, ep_out = True, ep_in = True\<rparr>)\<rparr>) s0 s1"
    by (auto simp: session_at_def)
  then show ?thesis unfolding session_def by blast
qed

lemma session_errno: "session w0 p t bs out T w \<Longrightarrow> session w0 p t bs out T (w\<lparr>errno_v := e\<rparr>)"
  by (erule session_env_step) simp

lemma session_winv:
  assumes inv: "winv as ws X Y w0" and ses: "session w0 p t bs out T w"
    and T: "t \<notin> X \<Longrightarrow> peers_ok w0 t T" "t \<notin> Y \<Longrightarrow> phase_ok T" "creds_ok T"
  shows "winv as ws X Y w"
proof -
  from ses obtain s0 s T0 where s: "socks w0 p = Some s0" "socks w = (socks w0)(p \<mapsto> s)" "same_sock s0 s"
      "wf_buff (read_buff s)" "wf_buff (write_buff s)"
    and t: "tunnels w0 t = Some T0" "tunnels w = (tunnels w0)(t \<mapsto> T)"
    and e: "epoll w = epoll w0 \<or>
      epoll w = (epoll w0)(s_fd s0 \<mapsto> \<lparr>ep_ptr = UdSock p, ep_out = True, ep_in = True\<rparr>)"
    and f: "frame w0 w"
    unfolding session_def session_at_def by blast
  let ?w1 = "w0\<lparr>tunnels := tunnels w\<rparr>"
  let ?w2 = "?w1\<lparr>epoll := epoll w\<rparr>" let ?w3 = "?w2\<lparr>socks := socks w\<rparr>"
  have "winv as ws X Y ?w1"
    unfolding t(2) by (rule winv_tunnel_upd [OF winv_mono [OF inv] t(1)]) (use T in auto)
  then have "winv as ws X Y ?w2" using e winv_epoll_set [of as ws X Y ?w1 p s0 True True] s(1) by auto
  then have "winv as ws X Y (?w2\<lparr>socks := (socks ?w2)(p \<mapsto> s)\<rparr>)"
    by (rule winv_sock_upd) (use s in \<open>auto simp: same_sock_def\<close>)
  then have "winv as ws X Y ?w3" using s(2) by simp
  moreover have "w = ?w3\<lparr>allocs := allocs w, live := live w, errno_v := errno_v w\<rparr>"
    using f unfolding frame_def by (cases w0; cases w) simp
  ultimately show ?thesis by (metis winv_other(1-3))
qed

section \<open>The steps\<close>

lemma ses_readable: "session w0 p t bs out T w \<Longrightarrow> Q (length bs) w \<Longrightarrow> wpe E (rb_readable (Some p)) Q w"
  by (erule session_live) (simp add: rb_readable_def wp buff_readable_wf)

lemma ses_load: "session w0 p t bs out T w \<Longrightarrow> Q T w \<Longrightarrow> wpe E (load tunnels (Some t)) Q w"
  by (erule session_live) (simp add: wp)

lemma ses_load_sock:
  "session w0 p t bs out T w \<Longrightarrow> (\<And>s. socks w p = Some s \<Longrightarrow> Q s w) \<Longrightarrow> wpe E (load socks (Some p)) Q w"
  by (erule session_live) (simp add: wp)

lemma ses_upd:
  assumes "session w0 p t bs out T w" and "\<And>w'. session w0 p t bs out (f T) w' \<Longrightarrow> Q () w'"
  shows "wpe E (tunnel_upd (Some t) f) Q w"
proof -
  from session_live [OF assms(1)] have "tunnels w t = Some T" by metis
  with assms(2) [OF session_set_tunnel [OF assms(1)]] show ?thesis by (simp add: wp)
qed

lemma ses_read:
  assumes ses: "session w0 p t bs out T w" and n: "n \<le> length bs"
    and Q: "\<And>w'. session w0 p t (drop n bs) out T w' \<Longrightarrow> Q (take n bs) w'"
  shows "wpe E (rb_read (Some p) n) Q w"
proof -
  from session_live [OF ses] obtain s where s: "socks w p = Some s" "wf_buff (read_buff s)"
    "wf_buff (write_buff s)" "contents (read_buff s) = bs" "contents (write_buff s) = out" by metis
  let ?b = "(read_buff s)\<lparr>read_index := size_add (read_index (read_buff s)) n\<rparr>"
  have b: "wf_buff ?b" "contents ?b = drop n bs"
    using contents_drop [of "read_buff s" n] s n by auto
  have "session w0 p t (drop n bs) out T (w\<lparr>socks := (socks w)(p \<mapsto> s\<lparr>read_buff := ?b\<rparr>)\<rparr>)"
    using session_set_sock [OF ses s(1), of "s\<lparr>read_buff := ?b\<rparr>"] b s by simp
  from Q [OF this] s n show ?thesis by (simp add: rb_read_def on_read_buff_def wp)
qed

lemma ses_read1:
  assumes "session w0 p t bs out T w" and "bs \<noteq> []"
    and "\<And>w'. session w0 p t (tl bs) out T w' \<Longrightarrow> Q (hd bs) w'"
  shows "wpe E (rb_read1 (Some p)) Q w"
proof -
  from assms(2) have "Suc 0 \<le> length bs" "hd (take (Suc 0) bs) = hd bs" by (cases bs; simp)+
  with assms(3) show ?thesis
    unfolding rb_read1_def wpe_bnd wpe_ret
    by (intro ses_read [OF assms(1)]) (auto simp: drop_Suc)
qed

lemma ses_gets:
  assumes "session w0 p t bs out T w"
  shows "Q (auth_required w0) w \<Longrightarrow> wpe E (gets auth_required) Q w"
    and "R (mon_username w0, mon_passwd w0) w \<Longrightarrow> wpe E (gets (\<lambda>w. (mon_username w, mon_passwd w))) R w"
proof -
  from session_live [OF assms] have f: "frame w0 w" by metis
  show "Q (auth_required w0) w \<Longrightarrow> wpe E (gets auth_required) Q w"
    "R (mon_username w0, mon_passwd w0) w \<Longrightarrow> wpe E (gets (\<lambda>w. (mon_username w, mon_passwd w))) R w"
    by (simp_all add: wp frame_same [OF f])
qed

text \<open>
  A reply is queued as a whole, or not at all: then the buffer would pass its limit or there
  was no memory.
\<close>

lemma ses_write:
  assumes ses: "session w0 p t bs out T w" and p: "priv_sock T = Some p"
    and ok: "\<And>w'. session w0 p t bs (out @ src) T w' \<Longrightarrow> Q 0 w'"
    and full: "\<And>w'. session w0 p t bs out T w' \<Longrightarrow>
                 2 ^ 30 < length out + length src \<or> (\<exists>k. oom w0 k) \<Longrightarrow> Q (-1) w'"
  shows "wpe E (tunnel_write_client (Some t) src) Q w"
proof -
  from session_live [OF ses] obtain s0 s where s: "socks w p = Some s" "wf_buff (read_buff s)"
    "wf_buff (write_buff s)" "contents (read_buff s) = bs" "contents (write_buff s) = out"
    "tunnels w t = Some T" and f: "frame w0 w" and s0: "socks w0 p = Some s0" "same_sock s0 s" by metis
  let ?Q' = "\<lambda>(r, b) w'. wpe E (bnd (sock_upd (Some p) (\<lambda>s. s\<lparr>write_buff := b\<rparr>)) (\<lambda>_. ret r))
     (\<lambda>r. wpe E (if r < 0 then ret (-1) else bnd (epoll_modify (Some p) True True) (\<lambda>_. ret 0)) Q) w'"
  have "wpe E (buff_write (write_buff s) src) ?Q' w"
  proof (cases rule: buff_write_run [OF s(3), of src w, case_names ok full])
    case (ok b' w')
    have s': "socks w' = socks w" using ok(4) by (cases w; cases w'; simp add: env_step_def)
    let ?s = "s\<lparr>write_buff := b'\<rparr>" let ?w = "w'\<lparr>socks := (socks w')(p \<mapsto> ?s)\<rparr>"
    have ses1: "session w0 p t bs (out @ src) T ?w"
      using session_set_sock [OF session_env_step [OF ses ok(4)], of s ?s] s s' ok(2,3) by simp
    have "socks ?w p = Some ?s" by simp
    from assms(3) [OF session_set_epoll [OF ses1 this]] assms(3) [OF session_errno [OF ses1]] s s' show ?thesis
      by (simp add: wpe_run [of "buff_write (write_buff s) src" w "(0, b')" w'] ok(1) wp epoll_modify_def)
  next
    case (full b' w')
    have s': "socks w' = socks w" using full(4) by (cases w; cases w'; simp add: env_step_def)
    let ?s = "s\<lparr>write_buff := b'\<rparr>" let ?w = "w'\<lparr>socks := (socks w')(p \<mapsto> ?s)\<rparr>"
    have "session w0 p t bs out T ?w"
      using session_set_sock [OF session_env_step [OF ses full(4)], of s ?s] s s' full(2,3) by simp
    from assms(4) [OF this] full(5) s s' frame_same(1) [OF f] show ?thesis
      by (simp add: wpe_run [of "buff_write (write_buff s) src" w "(-1, b')" w'] full(1) wp)
  qed
  then have "wpe E (buff_write (write_buff s) src) (\<lambda>x. wpe E (case x of (r, b) \<Rightarrow>
       bnd (sock_upd (Some p) (\<lambda>s. s\<lparr>write_buff := b\<rparr>)) (\<lambda>_. ret r))
     (\<lambda>r. wpe E (if r < 0 then ret (-1) else bnd (epoll_modify (Some p) True True) (\<lambda>_. ret 0)) Q)) w"
    by (rule wpe_conseq) auto
  then show ?thesis
    by (simp only: tunnel_write_client_def on_write_buff_def wpe_bnd wpe_load s p option.case option.simps if_False)
qed

lemmas ses_rules = ses_readable ses_load ses_load_sock ses_upd ses_read ses_read1 ses_gets ses_write

end
