(* ===== verification/Handshake.thy ===== *)
theory Handshake
  imports Session
begin

text \<open>
  The SOCKS5 handshake: the handlers of the greeting, of the user name and password, and of the
  request, as steps of a session.  The first part shows that they keep the invariant and
  stop on nothing but the two faults named in \<open>crashes\<close>; the second what they answer.
\<close>

lemma session_same_shape:
  assumes "session w p t bs out T' w'" and "tunnels w t = Some T"
    and "priv_sock T' = priv_sock T" and "remote_sock T' = remote_sock T"
  shows "same_shape w w'"
proof -
  from assms(1) obtain s0 s where "session_at w p t bs out T' w' s0 s" unfolding session_def by blast
  then have s: "socks w p = Some s0" "socks w' = (socks w)(p \<mapsto> s)" "same_sock s0 s"
    "tunnels w' = (tunnels w)(t \<mapsto> T')" and f: "frame w w'"
    by (simp_all add: session_at_def)
  with assms(2-4) frame_same(4) [OF f] show ?thesis
    by (simp add: same_shape_def same_sock_def)
qed

text \<open>Where a handler may leave a session.\<close>

lemma session_done:
  assumes "winv as ws X Y w" and "tunnels w t = Some T" and "t \<notin> X" and "session w p t bs out T' w'"
    and "priv_sock T' = priv_sock T" and "remote_sock T' = remote_sock T" and "phase_ok T'" and "creds_ok T'"
  shows "winv as ws X Y w' \<and> same_shape w w'"
proof
  have "peers_ok w t T'"
    using winv_tunnel(1) [OF assms(1-3)] assms(5,6) by (simp add: peers_ok_def)
  then show "winv as ws X Y w'" using session_winv [OF assms(1,4)] assms(7,8) by blast
  show "same_shape w w'" using session_same_shape [OF assms(4,2,5,6)] .
qed

lemmas phase_defs = phase_ok_def nheader_open_def nheader_auth_def nheader_req_def nplen_def ndomainlen_def

text \<open>What a queued answer leaves: all of it is in the write buffer, or nothing.\<close>

definition replied :: "world \<Rightarrow> addr \<Rightarrow> addr \<Rightarrow> byte list \<Rightarrow> byte list \<Rightarrow> byte list \<Rightarrow> tunnel \<Rightarrow>
    int \<Rightarrow> world \<Rightarrow> bool" where
  "replied w0 p t bs out src T r w \<longleftrightarrow>
     r = 0 \<and> session w0 p t bs (out @ src) T w \<or>
     r = -1 \<and> session w0 p t bs out T w \<and> (2 ^ 30 < length out + length src \<or> (\<exists>k. oom w0 k))"

lemma replied_session:
  "replied w0 p t bs out src T r w \<Longrightarrow> \<exists>out'. session w0 p t bs out' T w"
  by (auto simp: replied_def)

lemma replied_ok:
  assumes "replied w0 p t bs out src T r w" and "length out + length src \<le> 2 ^ 30" and "\<forall>k. \<not> oom w0 k"
  shows "r = 0 \<and> session w0 p t bs (out @ src) T w"
  using assms by (auto simp: replied_def)

lemma ses_reply:
  assumes "session w0 p t bs out T w" and "priv_sock T = Some p"
    and "\<And>r w'. replied w0 p t bs out src T r w' \<Longrightarrow> Q r w'"
  shows "wpe E (tunnel_write_client (Some t) src) Q w"
  by (rule ses_write [OF assms(1,2)]; rule assms(3); simp add: replied_def)

lemmas ses_steps = ses_load ses_readable ses_upd ses_gets ses_load_sock

section \<open>Greeting\<close>

text \<open>The tunnel after the greeting, and the answer to it.\<close>

definition opened :: "world \<Rightarrow> byte list \<Rightarrow> tunnel \<Rightarrow> tunnel" where
  "opened w ms T = T\<lparr>t_op := (t_op T)\<lparr>op_methods := arr_copy (op_methods (t_op T)) 0 ms\<rparr>,
     t_state := (if auth_required w then auth_state else request_state), read_count := 0\<rparr>"

definition open_reply :: "world \<Rightarrow> byte list" where
  "open_reply w = [0x05, if auth_required w then 0x02 else 0x00]"

definition versioned :: "byte \<Rightarrow> tunnel \<Rightarrow> tunnel" where
  "versioned v T = T\<lparr>t_op := (t_op T)\<lparr>op_ver := v\<rparr>\<rparr>"

definition counted :: "byte \<Rightarrow> tunnel \<Rightarrow> tunnel" where
  "counted m T = T\<lparr>t_op := (t_op T)\<lparr>op_ver := 5, op_nmethods := m\<rparr>, read_count := read_count T + nheader_open\<rparr>"

lemma ses_open_methods:
  assumes ses: "session w0 p t bs out T w" and p: "priv_sock T = Some p"
    and m: "unat (op_nmethods (t_op T)) = m"
    and wait: "length bs < m \<Longrightarrow> Q 0 w"
    and go: "\<And>r w'. m \<le> length bs \<Longrightarrow>
       replied w0 p t (drop m bs) out (open_reply w0) (opened w0 (take m bs) T) r w' \<Longrightarrow> Q r w'"
  shows "wpe E (open_methods (Some t) (Some p)) Q w"
  unfolding open_methods_def
  apply (rule wp_steps | (rule ses_steps, rule ses))+
   apply (rule ses_read [OF ses])
    apply (simp add: m)
   apply (rule wp_steps | (rule ses_steps ses_reply, assumption))+
    apply (simp add: p)
   apply (rule go)
    apply (simp add: m)
   apply (simp add: opened_def open_reply_def m)
  using wait m by (simp add: wpe_ret)

lemma ses_open_header:
  assumes ses: "session w0 p t bs out T w" and p: "priv_sock T = Some p"
    and wait: "length bs < 2 \<Longrightarrow> Q 0 w"
    and bad: "\<And>v rest w'. bs = v # rest \<Longrightarrow> v \<noteq> 5 \<Longrightarrow> session w0 p t rest out (versioned v T) w' \<Longrightarrow> Q (-1) w'"
    and more: "\<And>m rest w'. bs = 5 # m # rest \<Longrightarrow> length rest < unat m \<Longrightarrow>
       session w0 p t rest out (counted m T) w' \<Longrightarrow> Q 0 w'"
    and go: "\<And>m ms rest r w'. bs = 5 # m # ms @ rest \<Longrightarrow> length ms = unat m \<Longrightarrow>
       replied w0 p t rest out (open_reply w0) (opened w0 ms (counted m T)) r w' \<Longrightarrow> Q r w'"
  shows "wpe E (open_header (Some t) (Some p)) Q w"
proof (cases "length bs < 2")
  case True
  with wait show ?thesis unfolding open_header_def
    by (intro wpe_bndI ses_readable [OF ses]) (simp add: nheader_open_def wpe_ret)
next
  case False
  then obtain v m rest where bs: "bs = v # m # rest" by (cases bs rule: list.exhaust; cases "tl bs") auto
  show ?thesis
    unfolding open_header_def
    apply (rule wpe_bndI ses_readable [OF ses] wpe_ifI)+
      apply (rule ses_read1 [OF ses])
       apply (simp add: bs)
      apply (rule wp_steps | (rule ses_steps, assumption))+
       apply (rule bad [of v "m # rest"]; simp add: bs versioned_def)
      apply (rule wp_steps | (rule ses_steps, assumption) | (rule ses_read1, assumption, simp add: bs))+
      apply (rule ses_open_methods, assumption)
         apply (simp add: p)
        apply (rule refl)
       apply (rule more [of m rest]; simp add: bs counted_def)
      apply (rule go [of m "take (unat m) rest" "drop (unat m) rest"]; simp add: bs counted_def)
    using False by (simp add: nheader_open_def)
qed

section \<open>User name and password\<close>

text \<open>What the two comparisons come to, when they stay inside the arrays.\<close>

definition creds_match :: "auth_protocol \<Rightarrow> arr \<Rightarrow> arr \<Rightarrow> bool" where
  "creds_match ap u pw \<longleftrightarrow> strcmp_at 255 (ap_uname ap) u 0 = Inr True \<and>
     strcmp_at 255 (ap_passwd ap) pw 0 = Inr True"

lemma wpe_credentials_differ:
  assumes "creds_ok T"
  shows "wpe E (credentials_differ (t_ap T) u pw) Q w = Q (\<not> creds_match (t_ap T) u pw) w"
proof -
  have "\<exists>r. strcmp_at 255 (ap_uname (t_ap T)) u 0 = Inr r" "\<exists>r. strcmp_at 255 (ap_passwd (t_ap T)) pw 0 = Inr r"
    using assms strcmp_at_total [of _ 20 0 255] by (simp_all add: creds_ok_def MAX_UNAME_LEN_def MAX_PASSWD_LEN_def)
  then obtain r1 r2 where r: "strcmp_at 255 (ap_uname (t_ap T)) u 0 = Inr r1"
    "strcmp_at 255 (ap_passwd (t_ap T)) pw 0 = Inr r2" by blast
  show ?thesis by (cases r1; cases r2) (simp_all add: credentials_differ_def creds_match_def wp r)
qed

definition with_passwd :: "byte list \<Rightarrow> tunnel \<Rightarrow> tunnel" where
  "with_passwd xs T = T\<lparr>t_ap := (t_ap T)\<lparr>ap_passwd := arr_copy (ap_passwd (t_ap T)) 0 xs\<rparr>\<rparr>"

definition with_uname :: "byte list \<Rightarrow> tunnel \<Rightarrow> tunnel" where
  "with_uname xs T = T\<lparr>t_ap := (t_ap T)\<lparr>ap_uname := arr_copy (ap_uname (t_ap T)) 0 xs\<rparr>,
     read_count := read_count T + unat (ap_ulen (t_ap T))\<rparr>"

lemma creds_ok_with:
  "creds_ok T \<Longrightarrow> length xs \<le> MAX_PASSWD_LEN \<Longrightarrow> creds_ok (with_passwd xs T)"
  "creds_ok T \<Longrightarrow> length xs \<le> MAX_UNAME_LEN \<Longrightarrow> creds_ok (with_uname xs T)"
  by (auto simp: creds_ok_def with_passwd_def with_uname_def arr_copy_def)

lemma ses_auth_passwd:
  assumes ses: "session w0 p t bs out T w" and p: "priv_sock T = Some p" and cr: "creds_ok T"
    and l: "unat (ap_plen (t_ap T)) = l" "l \<le> MAX_PASSWD_LEN"
    and wait: "length bs < l \<Longrightarrow> Q 0 w"
    and bad: "\<And>w'. l \<le> length bs \<Longrightarrow>
       \<not> creds_match (t_ap (with_passwd (take l bs) T)) (mon_username w0) (mon_passwd w0) \<Longrightarrow>
       session w0 p t (drop l bs) out (with_passwd (take l bs) T) w' \<Longrightarrow> Q (-1) w'"
    and full: "\<And>w'. l \<le> length bs \<Longrightarrow> session w0 p t (drop l bs) out (with_passwd (take l bs) T) w' \<Longrightarrow>
       2 ^ 30 < length out + 2 \<or> (\<exists>k. oom w0 k) \<Longrightarrow> Q (-1) w'"
    and go: "\<And>w'. l \<le> length bs \<Longrightarrow>
       creds_match (t_ap (with_passwd (take l bs) T)) (mon_username w0) (mon_passwd w0) \<Longrightarrow>
       session w0 p t (drop l bs) (out @ [ap_ver (t_ap T), 0])
         ((with_passwd (take l bs) T)\<lparr>t_state := request_state, read_count := 0\<rparr>) w' \<Longrightarrow> Q 0 w'"
  shows "wpe E (auth_passwd (Some t) (Some p)) Q w"
proof (cases "length bs < l")
  case True
  with wait l show ?thesis unfolding auth_passwd_def
    by (intro wpe_bndI ses_load [OF ses] ses_readable [OF ses]) (simp add: wpe_ret)
next
  case False
  then have le: "unat (ap_plen (t_ap T)) \<le> length bs" using l by simp
  let ?T = "with_passwd (take l bs) T"
  have cr': "creds_ok ?T" using cr l le by (intro creds_ok_with) auto
  show ?thesis
    unfolding auth_passwd_def
    apply (rule wpe_bndI ses_load [OF ses] ses_readable [OF ses])+
    unfolding if_P [OF le]
    apply (rule wpe_bndI ses_read [OF ses le])+
    apply (rule ses_upd, assumption)
    unfolding with_passwd_def [symmetric] l
    apply (rule wpe_bndI wpe_prodI | (rule ses_steps, assumption))+
    apply (simp only: wpe_credentials_differ [OF cr'])
    apply (rule wp_steps)+
     apply (rule bad, use le l in simp, simp, assumption)
    apply (rule wp_steps)+
    apply (rule ses_reply, assumption)
     apply (simp add: with_passwd_def p)
    apply (unfold replied_def, elim disjE conjE)
     apply (rule wp_steps, simp)
     apply (rule wp_steps | (rule ses_steps, assumption))+
     apply (rule go, use le l in simp, simp, simp add: with_passwd_def)
    apply (rule wpe_ifI, rule wpe_retI, rule full, use le l in simp, assumption, simp, simp)+
    done
qed

definition with_plen :: "byte \<Rightarrow> tunnel \<Rightarrow> tunnel" where
  "with_plen l T = T\<lparr>t_ap := (t_ap T)\<lparr>ap_plen := l\<rparr>, read_count := read_count T + nplen\<rparr>"

lemma ses_auth_plen:
  assumes ses: "session w0 p t bs out T w"
    and wait: "bs = [] \<Longrightarrow> Q 0 w"
    and bad: "\<And>l rest w'. bs = l # rest \<Longrightarrow> MAX_PASSWD_LEN < unat l \<Longrightarrow>
       session w0 p t rest out (T\<lparr>t_ap := (t_ap T)\<lparr>ap_plen := l\<rparr>\<rparr>) w' \<Longrightarrow> Q (-1) w'"
    and go: "\<And>l rest w'. bs = l # rest \<Longrightarrow> unat l \<le> MAX_PASSWD_LEN \<Longrightarrow>
       session w0 p t rest out (with_plen l T) w' \<Longrightarrow> wpe E (auth_passwd (Some t) (Some p)) Q w'"
  shows "wpe E (auth_plen (Some t) (Some p)) Q w"
proof (cases bs)
  case Nil
  with wait show ?thesis unfolding auth_plen_def
    by (intro wpe_bndI ses_readable [OF ses]) (simp add: nplen_def wpe_ret)
next
  case (Cons l rest)
  show ?thesis
    unfolding auth_plen_def
    apply (rule wpe_bndI ses_readable [OF ses] wpe_ifI)+
      apply (rule ses_read1 [OF ses])
       apply (simp add: Cons)
      apply (rule wp_steps | (rule ses_steps, assumption))+
       apply (rule bad [of l rest]; simp add: Cons)
      apply (rule wp_steps | (rule ses_steps, assumption))+
      apply (rule go [of l rest]; simp add: Cons with_plen_def)
    by (simp add: Cons nplen_def)
qed

lemma ses_auth_uname:
  assumes ses: "session w0 p t bs out T w"
    and m: "unat (ap_ulen (t_ap T)) = m"
    and wait: "length bs < m \<Longrightarrow> Q 0 w"
    and go: "\<And>w'. m \<le> length bs \<Longrightarrow> session w0 p t (drop m bs) out (with_uname (take m bs) T) w' \<Longrightarrow>
       wpe E (auth_plen (Some t) (Some p)) Q w'"
  shows "wpe E (auth_uname (Some t) (Some p)) Q w"
  unfolding auth_uname_def
  apply (rule wp_steps | (rule ses_steps, rule ses))+
   apply (rule ses_read [OF ses])
    apply (simp add: m)
   apply (rule wp_steps | (rule ses_steps, assumption))+
   apply (rule go)
    apply (simp add: m)
   apply (simp add: with_uname_def m)
  using wait m by (simp add: wpe_ret)

definition with_ulen :: "byte \<Rightarrow> byte \<Rightarrow> tunnel \<Rightarrow> tunnel" where
  "with_ulen v l T = T\<lparr>t_ap := (t_ap T)\<lparr>ap_ver := v, ap_ulen := l\<rparr>, read_count := read_count T + nheader_auth\<rparr>"

lemma ses_auth_header:
  assumes ses: "session w0 p t bs out T w"
    and wait: "length bs < 2 \<Longrightarrow> Q 0 w"
    and bad: "\<And>v l rest w'. bs = v # l # rest \<Longrightarrow> MAX_UNAME_LEN < unat l \<Longrightarrow>
       session w0 p t rest out (T\<lparr>t_ap := (t_ap T)\<lparr>ap_ver := v, ap_ulen := l\<rparr>\<rparr>) w' \<Longrightarrow> Q (-1) w'"
    and go: "\<And>v l rest w'. bs = v # l # rest \<Longrightarrow> unat l \<le> MAX_UNAME_LEN \<Longrightarrow>
       session w0 p t rest out (with_ulen v l T) w' \<Longrightarrow> wpe E (auth_uname (Some t) (Some p)) Q w'"
  shows "wpe E (auth_header (Some t) (Some p)) Q w"
proof (cases "length bs < 2")
  case True
  with wait show ?thesis unfolding auth_header_def
    by (intro wpe_bndI ses_readable [OF ses]) (simp add: nheader_auth_def wpe_ret)
next
  case False
  then obtain v l rest where bs: "bs = v # l # rest" by (cases bs rule: list.exhaust; cases "tl bs") auto
  show ?thesis
    unfolding auth_header_def
    apply (rule wpe_bndI ses_readable [OF ses] wpe_ifI)+
      apply (rule ses_read1 [OF ses])
       apply (simp add: bs)
      apply (rule wpe_bndI | (rule ses_steps, assumption) | (rule ses_read1, assumption, simp add: bs))+
      apply (rule wpe_ifI)
       apply (rule wpe_retI, rule bad [of v l rest]; simp add: bs)
      apply (rule wp_steps | (rule ses_steps, assumption))+
      apply (rule go [of v l rest]; simp add: bs with_ulen_def)
    using False by (simp add: nheader_auth_def)
qed

section \<open>Request\<close>

text \<open>The answer to every request: a domain name of 16 bytes, and port 8080.\<close>

definition connect_reply :: "byte list" where
  "connect_reply = [0x05, 0x01, 0x00, 0x03, 0x10] @ bytes_of ''www.hellorsp.org'' @ [0x1F, 0x90]"

lemma length_connect_reply: "length connect_reply = 23"
  by (simp add: connect_reply_def)

lemma ses_notify:
  assumes ses: "session w0 p t bs out T w" and p: "priv_sock T = Some p"
    and go: "\<And>w'. session w0 p t bs (out @ connect_reply) T w' \<Longrightarrow> Q 0 w'"
    and full: "\<And>n w'. session w0 p t bs (out @ take n connect_reply) T w' \<Longrightarrow>
       2 ^ 30 < length out + 23 \<or> (\<exists>k. oom w0 k) \<Longrightarrow> Q (-1) w'"
  shows "wpe E (tunnel_notify_connected (Some t)) Q w"
proof -
  let ?a = "[0x05, 0x01, 0x00, 0x03, 0x10] @ bytes_of ''www.hellorsp.org''" and ?b = "[0x1F, 0x90] :: byte list"
  have msg: "tunnel_notify_connected (Some t) =
     bnd (tunnel_write_client (Some t) ?a) (\<lambda>r. if r < 0 then ret (-1)
     else bnd (tunnel_write_client (Some t) ?b) (\<lambda>r. if r < 0 then ret (-1) else ret 0))"
    by (simp add: tunnel_notify_connected_def Let_def bytes_of_def)
  have a: "take 21 connect_reply = ?a" "take 0 connect_reply = []" "connect_reply = ?a @ ?b"
    by (simp_all add: connect_reply_def bytes_of_def)
  show ?thesis unfolding msg
    apply (rule wpe_bndI)
    apply (rule ses_write [OF ses p])
     apply (rule wp_steps)+
      apply simp
     apply (rule wp_steps)+
     apply (rule ses_write, assumption, rule p)
      apply (rule wp_steps, simp)
      apply (rule wp_steps, rule go)
      apply (simp add: a(3))
     apply (rule wp_steps)+
      apply (rule full [of 21])
       apply (simp only: a)
      apply (simp add: bytes_of_def)
      apply (elim disjE; simp)
     apply simp
    apply (rule wp_steps)+
     apply (rule full [of 0])
      apply simp
     apply (simp add: bytes_of_def)
     apply (elim disjE; simp)
    apply simp
    done
qed

definition requested :: "tunnel \<Rightarrow> tunnel" where
  "requested T = T\<lparr>read_count := 0, t_state := connected_state, t_status := tunn_is_idle\<rparr>"

lemma ses_request_done:
  assumes ses: "session w0 p t bs out T w" and p: "priv_sock T = Some p"
    and go: "\<And>n w'. session w0 p t bs (out @ take n connect_reply) (requested T) w' \<Longrightarrow>
       n = 23 \<or> 2 ^ 30 < length out + 23 \<or> (\<exists>k. oom w0 k) \<Longrightarrow> Q 0 w'"
  shows "wpe E (request_done (Some t)) Q w"
  unfolding request_done_def
  apply (rule wpe_bndI)
  apply (rule ses_upd [OF ses])
  apply (rule wpe_bndI)
  apply (rule ses_notify, assumption, simp add: p)
   apply (rule wp_steps | (rule ses_steps, assumption))+
   apply (rule go [of 23])
    apply (simp add: length_connect_reply requested_def)
   apply simp
  apply (rule wp_steps | (rule ses_steps, assumption))+
  apply (rule go; simp add: requested_def)
  done

definition with_addr :: "byte list \<Rightarrow> byte list \<Rightarrow> tunnel \<Rightarrow> tunnel" where
  "with_addr a port T = T\<lparr>t_rp := (t_rp T)\<lparr>rp_addr := arr_copy (rp_addr (t_rp T)) 0 a,
     rp_port := arr_copy (rp_port (t_rp T)) 0 port\<rparr>\<rparr>"

lemma ses_request_read_addr:
  assumes ses: "session w0 p t bs out T w" and n: "n + nport \<le> length bs"
    and bad: "\<And>e. strlen_at 255 (arr_copy (rp_addr (t_rp T)) 0 (take n bs)) 0 = Inl e \<Longrightarrow> e \<in> E"
    and go: "\<And>k w'. strlen_at 255 (arr_copy (rp_addr (t_rp T)) 0 (take n bs)) 0 = Inr k \<Longrightarrow>
       session w0 p t (drop (n + nport) bs) out (with_addr (take n bs) (take nport (drop n bs)) T) w' \<Longrightarrow> Q () w'"
  shows "wpe E (request_read_addr (Some t) (Some p) n) Q w"
  unfolding request_read_addr_def
  apply (rule wpe_bndI)
  apply (rule ses_read [OF ses])
   apply (use n in simp)
  apply (rule wpe_bndI ses_upd | assumption)+
  apply (rule ses_read, assumption)
   apply (use n in simp)
  apply (rule wpe_bndI | (rule ses_steps, assumption))+
  apply (simp add: wpe_lift_res split: sum.split)
  apply (intro conjI allI impI)
   apply (erule bad)
  apply (erule exE)
  apply (rule wp_steps, rule go, assumption)
  apply (simp add: with_addr_def add.commute)
  done

lemma strlen_at_Inl: "strlen_at n a i = Inl e \<Longrightarrow> e = Unterminated"
  by (induction n arbitrary: i) (auto split: if_splits)

text \<open>From the address on, for the three address types.\<close>

lemma ses_request_tail:
  assumes ses: "session w0 p t bs out T w" and p: "priv_sock T = Some p" and n: "n + nport \<le> length bs"
    and bad: "\<And>e. strlen_at 255 (arr_copy (rp_addr (t_rp T)) 0 (take n bs)) 0 = Inl e \<Longrightarrow> e \<in> E"
    and go: "\<And>k w'. session w0 p t (drop (n + nport) bs) (out @ take k connect_reply)
         (requested (with_addr (take n bs) (take nport (drop n bs)) T)) w' \<Longrightarrow>
       k = 23 \<or> 2 ^ 30 < length out + 23 \<or> (\<exists>k. oom w0 k) \<Longrightarrow> Q 0 w'"
  shows "wpe E (request_read_addr (Some t) (Some p) n) (\<lambda>_. wpe E (request_done (Some t)) Q) w"
  by (rule ses_request_read_addr [OF ses n bad], assumption,
      rule ses_request_done, assumption, simp add: with_addr_def p, rule go)

lemma ses_request_domain:
  assumes ses: "session w0 p t bs out T w" and p: "priv_sock T = Some p"
    and n: "unat (rp_domainlen (t_rp T)) = n"
    and wait: "length bs < n + nport \<Longrightarrow> Q 0 w"
    and bad: "\<And>e. n + nport \<le> length bs \<Longrightarrow>
       strlen_at 255 (arr_copy (rp_addr (t_rp T)) 0 (take n bs)) 0 = Inl e \<Longrightarrow> e \<in> E"
    and go: "\<And>k w'. n + nport \<le> length bs \<Longrightarrow> session w0 p t (drop (n + nport) bs) (out @ take k connect_reply)
         (requested (with_addr (take n bs) (take nport (drop n bs)) T)) w' \<Longrightarrow>
       k = 23 \<or> 2 ^ 30 < length out + 23 \<or> (\<exists>k. oom w0 k) \<Longrightarrow> Q 0 w'"
  shows "wpe E (request_domain (Some t) (Some p)) Q w"
  unfolding request_domain_def
  apply (rule wpe_bndI ses_load [OF ses] ses_readable [OF ses] wpe_ifI)+
   apply (simp only: n)
   apply (rule ses_request_tail [OF ses p], assumption)
    apply (erule bad, assumption)
   apply (rule go; assumption)
  using wait n by (simp add: wpe_ret)

definition with_dlen :: "byte \<Rightarrow> tunnel \<Rightarrow> tunnel" where
  "with_dlen l T = T\<lparr>t_rp := (t_rp T)\<lparr>rp_domainlen := l\<rparr>, read_count := read_count T + ndomainlen\<rparr>"

text \<open>The lengths of the addresses of fixed size.\<close>

definition addr_len :: "byte \<Rightarrow> nat option" where
  "addr_len atyp = (if atyp = 1 then Some NIPV4 else if atyp = 4 then Some NIPV6 else None)"

lemma ses_request_addr:
  assumes ses: "session w0 p t bs out T w" and p: "priv_sock T = Some p"
    and wait: "(\<exists>n. addr_len (rp_atyp (t_rp T)) = Some n \<and> length bs < n + nport) \<or>
       rp_atyp (t_rp T) = 3 \<and> bs = [] \<Longrightarrow> Q 0 w"
    and bad: "rp_atyp (t_rp T) \<notin> {1, 3, 4} \<Longrightarrow> Q (-1) w"
    and overrun: "\<And>n e. addr_len (rp_atyp (t_rp T)) = Some n \<Longrightarrow> n + nport \<le> length bs \<Longrightarrow>
       strlen_at 255 (arr_copy (rp_addr (t_rp T)) 0 (take n bs)) 0 = Inl e \<Longrightarrow> e \<in> E"
    and go: "\<And>n k w'. addr_len (rp_atyp (t_rp T)) = Some n \<Longrightarrow> n + nport \<le> length bs \<Longrightarrow>
       session w0 p t (drop (n + nport) bs) (out @ take k connect_reply)
         (requested (with_addr (take n bs) (take nport (drop n bs)) T)) w' \<Longrightarrow>
       k = 23 \<or> 2 ^ 30 < length out + 23 \<or> (\<exists>k. oom w0 k) \<Longrightarrow> Q 0 w'"
    and domain: "\<And>l rest w'. rp_atyp (t_rp T) = 3 \<Longrightarrow> bs = l # rest \<Longrightarrow>
       session w0 p t rest out (with_dlen l T) w' \<Longrightarrow> wpe E (request_domain (Some t) (Some p)) Q w'"
  shows "wpe E (request_addr (Some t) (Some p)) Q w"
proof -
  have fixed: "wpe E (bnd (rb_readable (Some p)) (\<lambda>m. if n + nport \<le> m then
       bnd (request_read_addr (Some t) (Some p) n) (\<lambda>_. request_done (Some t)) else ret 0)) Q w"
    if n: "addr_len (rp_atyp (t_rp T)) = Some n" for n
    apply (rule wpe_bndI ses_readable [OF ses] wpe_ifI)+
     apply (rule ses_request_tail [OF ses p], assumption)
      apply (rule overrun [OF n], assumption, assumption)
     apply (rule go [OF n]; assumption)
    using wait n by (auto simp: wpe_ret)
  have dom: "wpe E (bnd (rb_readable (Some p)) (\<lambda>n. if ndomainlen \<le> n then
       bnd (rb_read1 (Some p)) (\<lambda>l.
       bnd (tunnel_upd (Some t) (\<lambda>t. t\<lparr>t_rp := (t_rp t)\<lparr>rp_domainlen := l\<rparr>\<rparr>)) (\<lambda>_.
       bnd (tunnel_upd (Some t) (\<lambda>t. t\<lparr>read_count := read_count t + ndomainlen\<rparr>)) (\<lambda>_.
       request_domain (Some t) (Some p)))) else ret 0)) Q w" if d: "rp_atyp (t_rp T) = 3"
  proof (cases bs)
    case Nil
    with d wait show ?thesis
      by (intro wpe_bndI ses_readable [OF ses]) (simp add: ndomainlen_def wpe_ret)
  next
    case (Cons l rest)
    show ?thesis
      apply (rule wpe_bndI ses_readable [OF ses] wpe_ifI)+
        apply (rule ses_read1 [OF ses])
         apply (simp add: Cons)
        apply (rule wp_steps | (rule ses_steps, assumption))+
        apply (rule domain [OF d, of l rest]; simp add: Cons with_dlen_def)
      by (simp add: Cons ndomainlen_def)
  qed
  show ?thesis
    unfolding request_addr_def Let_def
    apply (rule wpe_bndI ses_load [OF ses])+
    using fixed [of NIPV4] fixed [of NIPV6] dom bad by (auto simp: addr_len_def wpe_ret)
qed

definition with_req :: "byte \<Rightarrow> byte \<Rightarrow> tunnel \<Rightarrow> tunnel" where
  "with_req r a T = T\<lparr>t_rp := (t_rp T)\<lparr>rp_ver := 5, rp_cmd := 1, rp_rsv := r, rp_atyp := a\<rparr>,
     read_count := read_count T + nheader_req\<rparr>"

lemma ses_request_header:
  assumes ses: "session w0 p t bs out T w"
    and wait: "length bs < 4 \<Longrightarrow> Q 0 w"
    and bad: "\<And>v c r a rest bs' T' w'. bs = v # c # r # a # rest \<Longrightarrow> v \<noteq> 5 \<or> c \<noteq> 1 \<Longrightarrow>
       session w0 p t bs' out T' w' \<Longrightarrow> \<exists>rp. T' = T\<lparr>t_rp := rp\<rparr> \<Longrightarrow> Q (-1) w'"
    and go: "\<And>r a rest w'. bs = 5 # 1 # r # a # rest \<Longrightarrow>
       session w0 p t rest out (with_req r a T) w' \<Longrightarrow> wpe E (request_addr (Some t) (Some p)) Q w'"
  shows "wpe E (request_header (Some t) (Some p)) Q w"
proof (cases "length bs < 4")
  case True
  with wait show ?thesis unfolding request_header_def
    by (intro wpe_bndI ses_readable [OF ses]) (simp add: nheader_req_def wpe_ret)
next
  case False
  then obtain v c r a rest where bs: "bs = v # c # r # a # rest"
    by (auto simp: numeral_eq_Suc Suc_le_length_iff not_less)
  show ?thesis
    unfolding request_header_def
    apply (rule wpe_bndI ses_readable [OF ses] wpe_ifI)+
      apply (rule ses_read1 [OF ses])
       apply (simp add: bs)
      apply (rule wpe_bndI | (rule ses_steps, assumption))+
      apply (rule wpe_ifI)
       apply (rule wpe_retI, rule bad [OF bs], simp add: bs, assumption, blast)
      apply (rule wpe_bndI | (rule ses_steps, assumption) | (rule ses_read1, assumption, simp add: bs))+
      apply (rule wpe_ifI)
       apply (rule wpe_retI, rule bad [OF bs], simp add: bs, assumption, simp, blast)
      apply (rule wpe_bndI | (rule ses_steps, assumption) | (rule ses_read1, assumption, simp add: bs))+
      apply (rule go [of r a rest]; simp add: bs with_req_def)
    using False by (simp add: nheader_req_def)
qed

section \<open>The handlers keep the invariant\<close>

text \<open>
  A handler is called with the private socket of the tunnel, or the tunnel has none and the
  first access faults.
\<close>

lemma session_enter:
  assumes inv: "winv as ws X Y w" and T: "tunnels w t = Some T" "t \<notin> X"
    and null: "priv_sock T = None \<Longrightarrow> wpe E f Q w"
    and run: "\<And>p bs out. priv_sock T = Some p \<Longrightarrow> session w p t bs out T w \<Longrightarrow> wpe E f Q w"
  shows "wpe E f Q w"
proof (cases "priv_sock T")
  case None
  then show ?thesis by (rule null)
next
  case (Some p)
  obtain s where "socks w p = Some s" using winv_priv [OF inv T Some] by blast
  from run [OF Some session_start [OF inv this T(1)]] show ?thesis .
qed

lemma open_handle_safe:
  assumes inv: "winv as ws X Y w" and T: "tunnels w t = Some T" "t \<notin> X" "t \<notin> Y" "t_state T = open_state"
  shows "wpe crashes (tunnel_open_handle (Some t)) (\<lambda>_ w'. winv as ws X Y w' \<and> same_shape w w') w"
    (is "wpe _ _ ?Q w")
proof (rule session_enter [OF inv T(1,2)])
  show "priv_sock T = None \<Longrightarrow> wpe crashes (tunnel_open_handle (Some t)) ?Q w"
    using T by (simp add: tunnel_open_handle_def wp)
next
  fix p bs out
  assume p: "priv_sock T = Some p" and ses: "session w p t bs out T w"
  from winv_tunnel(2,3) [OF inv T(1)] T have ph: "read_count T \<in> {0, 2}" "creds_ok T"
    by (auto simp: phase_defs)
  have fin: "?Q r w'" if "session w p t bs' out' T' w'" "priv_sock T' = priv_sock T" "remote_sock T' = remote_sock T"
      "phase_ok T'" "t_ap T' = t_ap T" for r :: int and bs' out' T' w'
    using session_done [OF inv T(1,2) that(1-4)] ph(2) that(5) by (simp add: creds_ok_def)
  have opened: "?Q r w'" if "replied w p t bs' out' src (opened w ms U) r w'" "priv_sock U = priv_sock T"
      "remote_sock U = remote_sock T" "t_ap U = t_ap T" for r bs' out' src ms U w'
    using replied_session [OF that(1)] fin that(2-4) by (auto simp: opened_def phase_defs)
  have "wpe crashes (open_header (Some t) (Some p)) ?Q w" if "read_count T = 0"
    by (rule ses_open_header [OF ses p])
       (use fin opened ses ph that T(4) in \<open>auto simp: versioned_def counted_def phase_defs\<close>)
  moreover have "wpe crashes (open_methods (Some t) (Some p)) ?Q w"
    by (rule ses_open_methods [OF ses p refl])
       (use fin opened ses ph T(4) in \<open>auto simp: phase_defs\<close>)
  ultimately show "wpe crashes (tunnel_open_handle (Some t)) ?Q w"
    unfolding tunnel_open_handle_def Let_def using ph
    by (intro wpe_bndI ses_load [OF ses]) (auto simp: p nheader_open_def intro!: wpe_bndI ses_load_sock [OF ses])
qed

lemma auth_handle_safe:
  assumes inv: "winv as ws X Y w" and T: "tunnels w t = Some T" "t \<notin> X" "t \<notin> Y" "t_state T = auth_state"
  shows "wpe crashes (tunnel_auth_handle (Some t)) (\<lambda>_ w'. winv as ws X Y w' \<and> same_shape w w') w"
    (is "wpe _ _ ?Q w")
proof (rule session_enter [OF inv T(1,2)])
  show "priv_sock T = None \<Longrightarrow> wpe crashes (tunnel_auth_handle (Some t)) ?Q w"
    using T by (simp add: tunnel_auth_handle_def Let_def wp)
next
  fix p bs out
  assume p: "priv_sock T = Some p" and ses: "session w p t bs out T w"
  from winv_tunnel(2,3) [OF inv T(1)] T have ph: "phase_ok T" "creds_ok T" by auto
  let ?ok = "\<lambda>U. priv_sock U = priv_sock T \<and> remote_sock U = remote_sock T \<and> creds_ok U \<and> t_state U = auth_state"
  have fin: "?Q r w'" if "session w p t bs' out' T' w'" "priv_sock T' = priv_sock T" "remote_sock T' = remote_sock T"
      "phase_ok T'" "creds_ok T'" for r :: int and bs' out' T' w'
    using session_done [OF inv T(1,2) that] .
  have passwd: "wpe crashes (auth_passwd (Some t) (Some p)) ?Q w'"
    if s: "session w p t bs' out U w'" and U: "?ok U" "phase_ok U" "unat (ap_plen (t_ap U)) \<le> MAX_PASSWD_LEN"
    for bs' U w'
  proof (rule ses_auth_passwd [OF s _ _ refl U(3)])
    have len: "length (take (unat (ap_plen (t_ap U))) bs') \<le> MAX_PASSWD_LEN" using U(3) by simp
    let ?V = "with_passwd (take (unat (ap_plen (t_ap U))) bs') U"
    from len U have V: "creds_ok ?V" by (intro creds_ok_with) simp_all
    then have V': "creds_ok (?V\<lparr>t_state := request_state, read_count := 0\<rparr>)" by (simp add: creds_ok_def)
    have ph': "phase_ok ?V" using U by (simp add: phase_defs with_passwd_def)
    show "?Q (-1) w''" if "session w p t (drop (unat (ap_plen (t_ap U))) bs') out ?V w''" for w''
      by (rule fin [OF that]) (use U V ph' in \<open>simp_all add: with_passwd_def\<close>)
    then show "?Q (-1) w''" if "session w p t (drop (unat (ap_plen (t_ap U))) bs') out ?V w''" for w'' using that .
    show "?Q 0 w''" if "session w p t (drop (unat (ap_plen (t_ap U))) bs') (out @ [ap_ver (t_ap U), 0])
        (?V\<lparr>t_state := request_state, read_count := 0\<rparr>) w''" for w''
      by (rule fin [OF that]) (use U V' in \<open>simp_all add: with_passwd_def phase_defs\<close>)
  qed (use fin [OF s] U p in simp_all)
  have plen: "wpe crashes (auth_plen (Some t) (Some p)) ?Q w'"
    if s: "session w p t bs' out U w'" and U: "?ok U" "unat (ap_ulen (t_ap U)) \<le> MAX_UNAME_LEN"
      "read_count U = nheader_auth + unat (ap_ulen (t_ap U))" for bs' U w'
    by (rule ses_auth_plen [OF s])
       (use fin U s in \<open>auto intro!: passwd fin [OF s] simp: phase_defs creds_ok_def with_plen_def\<close>)
  have uname: "wpe crashes (auth_uname (Some t) (Some p)) ?Q w'"
    if s: "session w p t bs' out U w'" and U: "?ok U" "unat (ap_ulen (t_ap U)) \<le> MAX_UNAME_LEN"
      "read_count U = nheader_auth" for bs' U w'
  proof (rule ses_auth_uname [OF s refl])
    let ?V = "with_uname (take (unat (ap_ulen (t_ap U))) bs') U"
    have "length (take (unat (ap_ulen (t_ap U))) bs') \<le> MAX_UNAME_LEN" using U(2) by simp
    with U have V: "creds_ok ?V" by (intro creds_ok_with) simp_all
    show "wpe crashes (auth_plen (Some t) (Some p)) ?Q w''"
      if "session w p t (drop (unat (ap_ulen (t_ap U))) bs') out ?V w''" for w''
      by (rule plen [OF that]) (use U V in \<open>simp_all add: with_uname_def\<close>)
  qed (use fin [OF s] U in \<open>simp add: phase_defs\<close>)
  have "wpe crashes (auth_header (Some t) (Some p)) ?Q w" if "read_count T = 0"
  proof (rule ses_auth_header [OF ses])
    show "?Q (-1) w'" if "session w p t rest out (T\<lparr>t_ap := (t_ap T)\<lparr>ap_ver := v, ap_ulen := l\<rparr>\<rparr>) w'" for v l rest w'
      by (rule fin [OF that]) (use \<open>read_count T = 0\<close> ph T(4) in \<open>simp_all add: phase_defs creds_ok_def\<close>)
    show "wpe crashes (auth_uname (Some t) (Some p)) ?Q w'"
      if "unat l \<le> MAX_UNAME_LEN" "session w p t rest out (with_ulen v l T) w'" for v l rest w'
      by (rule uname [OF that(2)])
         (use \<open>read_count T = 0\<close> that(1) ph T(4) in \<open>simp_all add: with_ulen_def creds_ok_def phase_defs\<close>)
  qed (simp add: inv)
  moreover have "wpe crashes (auth_uname (Some t) (Some p)) ?Q w" if "read_count T = nheader_auth"
    by (rule uname [OF ses]) (use that ph T(4) in \<open>auto simp: phase_defs\<close>)
  moreover have "wpe crashes (auth_plen (Some t) (Some p)) ?Q w"
    if "read_count T = nheader_auth + unat (ap_ulen (t_ap T))"
    by (rule plen [OF ses]) (use that ph T(4) in \<open>auto simp: phase_defs\<close>)
  moreover have "wpe crashes (auth_passwd (Some t) (Some p)) ?Q w"
    if "read_count T = nheader_auth + unat (ap_ulen (t_ap T)) + nplen"
    by (rule passwd [OF ses]) (use that ph T(4) in \<open>auto simp: phase_defs\<close>)
  ultimately show "wpe crashes (tunnel_auth_handle (Some t)) ?Q w"
    unfolding tunnel_auth_handle_def Let_def using ph T(4)
    by (intro wpe_bndI ses_load [OF ses]) (auto simp: p phase_defs intro!: wpe_bndI ses_load_sock [OF ses])
qed

lemma request_handle_safe:
  assumes inv: "winv as ws X Y w" and T: "tunnels w t = Some T" "t \<notin> X" "t \<notin> Y" "t_state T = request_state"
  shows "wpe crashes (tunnel_request_handle (Some t)) (\<lambda>_ w'. winv as ws X Y w' \<and> same_shape w w') w"
    (is "wpe _ _ ?Q w")
proof (rule session_enter [OF inv T(1,2)])
  show "priv_sock T = None \<Longrightarrow> wpe crashes (tunnel_request_handle (Some t)) ?Q w"
    using T by (simp add: tunnel_request_handle_def wp)
next
  fix p bs out
  assume p: "priv_sock T = Some p" and ses: "session w p t bs out T w"
  from winv_tunnel(2,3) [OF inv T(1)] T have ph: "read_count T \<in> {0, 4, 5}" "creds_ok T"
    by (auto simp: phase_defs)
  let ?ok = "\<lambda>U. priv_sock U = priv_sock T \<and> remote_sock U = remote_sock T \<and> t_ap U = t_ap T \<and>
    (t_state U = request_state \<and> read_count U \<in> {0, 4, 5} \<or> t_state U = connected_state)"
  have fin: "?Q r w'" if "session w p t bs' out' U w'" "?ok U" for r :: int and bs' out' U w'
    using session_done [OF inv T(1,2) that(1)] that(2) ph(2) by (auto simp: creds_ok_def phase_defs)
  have ok: "?ok (requested (with_addr a q U))" if "?ok U" for a q U
    using that by (simp add: requested_def with_addr_def)
  have domain: "wpe crashes (request_domain (Some t) (Some p)) ?Q w'"
    if s: "session w p t bs' out' U w'" and U: "?ok U" "priv_sock U = Some p" for bs' out' U w'
    by (rule ses_request_domain [OF s U(2) refl])
       (use fin [OF s U(1)] fin [OF _ ok [OF U(1)]] strlen_at_Inl in auto)
  have addr: "wpe crashes (request_addr (Some t) (Some p)) ?Q w'"
    if s: "session w p t bs' out' U w'" and U: "?ok U" "priv_sock U = Some p" "t_state U = request_state"
      "read_count U = 4" for bs' out' U w'
  proof (rule ses_request_addr [OF s U(2)])
    have V: "?ok (with_dlen l U)" "priv_sock (with_dlen l U) = Some p" for l
      using U by (simp_all add: with_dlen_def ndomainlen_def)
    show "wpe crashes (request_domain (Some t) (Some p)) ?Q w''"
      if "session w p t rest out' (with_dlen l U) w''" for l rest w''
      by (rule domain [OF that V])
  qed (use fin [OF s U(1)] fin [OF _ ok [OF U(1)]] strlen_at_Inl in auto)
  have "wpe crashes (request_header (Some t) (Some p)) ?Q w" if "read_count T = 0"
  proof (rule ses_request_header [OF ses])
    show "?Q (-1) w'" if "session w p t bs' out T' w'" "\<exists>rp. T' = T\<lparr>t_rp := rp\<rparr>" for bs' T' w'
      by (rule fin [OF that(1)]) (use \<open>read_count T = 0\<close> that(2) T(4) in auto)
    show "wpe crashes (request_addr (Some t) (Some p)) ?Q w'"
      if "session w p t rest out (with_req r a T) w'" for r a rest w'
      by (rule addr [OF that]) (use \<open>read_count T = 0\<close> p T(4) in \<open>simp_all add: with_req_def nheader_req_def\<close>)
  qed (simp add: inv)
  moreover have "wpe crashes (request_addr (Some t) (Some p)) ?Q w" if "read_count T = 4"
    by (rule addr [OF ses]) (use that p T(4) in auto)
  moreover have "wpe crashes (request_domain (Some t) (Some p)) ?Q w" if "read_count T = 5"
    by (rule domain [OF ses]) (use that p T(4) in auto)
  ultimately show "wpe crashes (tunnel_request_handle (Some t)) ?Q w"
    unfolding tunnel_request_handle_def Let_def using ph
    by (intro wpe_bndI ses_load [OF ses])
       (auto simp: p nheader_req_def ndomainlen_def intro!: wpe_bndI ses_load_sock [OF ses])
qed

section \<open>From the handlers to their parts\<close>

lemma ses_open_handle:
  assumes "session w0 p t bs out T w" and "priv_sock T = Some p"
  shows "read_count T = 0 \<Longrightarrow> wpe E (open_header (Some t) (Some p)) Q w \<Longrightarrow> wpe E (tunnel_open_handle (Some t)) Q w"
    and "read_count T = 2 \<Longrightarrow> wpe E (open_methods (Some t) (Some p)) Q w \<Longrightarrow> wpe E (tunnel_open_handle (Some t)) Q w"
  using assms(2) unfolding tunnel_open_handle_def Let_def
  by (intro wpe_bndI ses_load [OF assms(1)]; auto simp: nheader_open_def intro!: wpe_bndI ses_load_sock [OF assms(1)])+

lemma ses_auth_handle:
  assumes "session w0 p t bs out T w" and "priv_sock T = Some p" and "read_count T = 0"
  shows "wpe E (auth_header (Some t) (Some p)) Q w \<Longrightarrow> wpe E (tunnel_auth_handle (Some t)) Q w"
  using assms(2,3) unfolding tunnel_auth_handle_def Let_def
  by (intro wpe_bndI ses_load [OF assms(1)]) (auto intro!: wpe_bndI ses_load_sock [OF assms(1)])

lemma ses_request_handle:
  assumes "session w0 p t bs out T w" and "priv_sock T = Some p" and "read_count T = 0"
  shows "wpe E (request_header (Some t) (Some p)) Q w \<Longrightarrow> wpe E (tunnel_request_handle (Some t)) Q w"
  using assms(2,3) unfolding tunnel_request_handle_def Let_def
  by (intro wpe_bndI ses_load [OF assms(1)]) (auto intro!: wpe_bndI ses_load_sock [OF assms(1)])

end
