(* ===== verification/Closing.thy ===== *)
theory Closing
  imports Handshake
begin

text \<open>
  Forwarding and closing keep the invariant: the operations on buffers and on the registry, the
  handlers of the two data states, \<open>sock_force_shutdown\<close> and \<open>sock_shutdown\<close>.  A socket is
  released only after no tunnel points to it any more.
\<close>

section \<open>Buffers and registry\<close>

text \<open>What the data operations leave: the same tunnels, the same sockets with other buffers.\<close>

definition data_step :: "world \<Rightarrow> world \<Rightarrow> bool" where
  "data_step w w' \<longleftrightarrow> same_shape w w' \<and> tunnels w' = tunnels w"

lemma data_step_refl [simp]: "data_step w w"
  by (simp add: data_step_def)

lemma data_step_trans: "data_step u v \<Longrightarrow> data_step v w \<Longrightarrow> data_step u w"
  using same_shape_trans by (auto simp: data_step_def)

lemma data_step_shape: "data_step w w' \<Longrightarrow> same_shape w w'"
  by (simp add: data_step_def)

lemma data_step_sock:
  assumes "data_step w w'" and "socks w a = Some s"
  obtains s' where "socks w' a = Some s'" "s_fd s' = s_fd s" "s_tunnel s' = s_tunnel s" "ispriv s' = ispriv s"
  using assms same_shape_sock unfolding data_step_def by metis

lemma data_step_upd:
  assumes "socks w a = Some s" and "s_fd s' = s_fd s" "s_tunnel s' = s_tunnel s" "ispriv s' = ispriv s"
  shows "data_step w (w\<lparr>socks := (socks w)(a \<mapsto> s')\<rparr>)"
  using assms by (simp add: data_step_def same_shape_def)

lemma data_step_env: "env_step w w' \<Longrightarrow> data_step w w'"
  by (cases w; cases w') (simp add: env_step_def data_step_def same_shape_def)

lemma data_step_epoll [simp]:
  "data_step w (w\<lparr>epoll := e\<rparr>)" "data_step w (w\<lparr>errno_v := x\<rparr>)" "data_step w (w\<lparr>wire := y\<rparr>)"
  by (simp_all add: data_step_def same_shape_def)

definition kept :: "addr list \<Rightarrow> addr list \<Rightarrow> addr set \<Rightarrow> addr set \<Rightarrow> world \<Rightarrow> world \<Rightarrow> bool" where
  "kept as ws X Y w w' \<longleftrightarrow> winv as ws X Y w' \<and> data_step w w'"

lemma keptD: "kept as ws X Y w w' \<Longrightarrow> winv as ws X Y w'" "kept as ws X Y w w' \<Longrightarrow> data_step w w'"
  by (simp_all add: kept_def)

lemma kept_trans: "kept as ws X Y u v \<Longrightarrow> kept as ws X Y v w \<Longrightarrow> kept as ws X Y u w"
  using data_step_trans by (auto simp: kept_def)

lemma kept_refl: "winv as ws X Y w \<Longrightarrow> kept as ws X Y w w"
  by (simp add: kept_def)

lemma epoll_modify_safe:
  assumes "winv as ws X Y w" and "socks w a = Some s"
  shows "wpe E (epoll_modify (Some a) x y) (\<lambda>_ w'. kept as ws X Y w w') w"
  using assms winv_epoll_set [OF assms] by (simp add: epoll_modify_def wp kept_def)

lemma on_read_buff_safe:
  assumes inv: "winv as ws X Y w" and s: "socks w a = Some s"
    and f: "wpe E (f (read_buff s)) (\<lambda>(r, b) w'. env_step w w' \<and> wf_buff b) w"
  shows "wpe E (on_read_buff (Some a) f) (\<lambda>_ w'. kept as ws X Y w w') w"
proof -
  have "kept as ws X Y w (w'\<lparr>socks := (socks w')(a \<mapsto> s\<lparr>read_buff := b\<rparr>)\<rparr>)"
    if "env_step w w'" "wf_buff b" for w' b
  proof -
    have s': "socks w' a = Some s" using that(1) s by (cases w; cases w') (simp add: env_step_def)
    have "winv as ws X Y w'" using winv_env_step [OF that(1)] inv by simp
    from winv_sock_upd [OF this s'] winv_sock(3,4) [OF inv s] that(2)
    have "winv as ws X Y (w'\<lparr>socks := (socks w')(a \<mapsto> s\<lparr>read_buff := b\<rparr>)\<rparr>)" by simp
    with data_step_trans [OF data_step_env [OF that(1)] data_step_upd [OF s', of "s\<lparr>read_buff := b\<rparr>"]]
    show ?thesis by (simp add: kept_def)
  qed
  moreover have "socks w' a = Some s" if "env_step w w'" for w'
    using that s by (cases w; cases w') (simp add: env_step_def)
  ultimately have "wpe E (f (read_buff s)) (\<lambda>x w'. wpe E (case x of (r, b) \<Rightarrow>
      bnd (sock_upd (Some a) (\<lambda>s. s\<lparr>read_buff := b\<rparr>)) (\<lambda>_. ret r)) (\<lambda>_ w'. kept as ws X Y w w') w') w"
    by (intro wpe_conseq [OF f]) (auto simp: wp)
  with s show ?thesis by (simp add: on_read_buff_def wpe_bnd wpe_load)
qed

lemma on_write_buff_safe:
  assumes inv: "winv as ws X Y w" and s: "socks w a = Some s"
    and f: "wpe E (f (write_buff s)) (\<lambda>(r, b) w'. env_step w w' \<and> wf_buff b) w"
  shows "wpe E (on_write_buff (Some a) f) (\<lambda>_ w'. kept as ws X Y w w') w"
proof -
  have "kept as ws X Y w (w'\<lparr>socks := (socks w')(a \<mapsto> s\<lparr>write_buff := b\<rparr>)\<rparr>)"
    if "env_step w w'" "wf_buff b" for w' b
  proof -
    have s': "socks w' a = Some s" using that(1) s by (cases w; cases w') (simp add: env_step_def)
    have "winv as ws X Y w'" using winv_env_step [OF that(1)] inv by simp
    from winv_sock_upd [OF this s'] winv_sock(3,4) [OF inv s] that(2)
    have "winv as ws X Y (w'\<lparr>socks := (socks w')(a \<mapsto> s\<lparr>write_buff := b\<rparr>)\<rparr>)" by simp
    with data_step_trans [OF data_step_env [OF that(1)] data_step_upd [OF s', of "s\<lparr>write_buff := b\<rparr>"]]
    show ?thesis by (simp add: kept_def)
  qed
  moreover have "socks w' a = Some s" if "env_step w w'" for w'
    using that s by (cases w; cases w') (simp add: env_step_def)
  ultimately have "wpe E (f (write_buff s)) (\<lambda>x w'. wpe E (case x of (r, b) \<Rightarrow>
      bnd (sock_upd (Some a) (\<lambda>s. s\<lparr>write_buff := b\<rparr>)) (\<lambda>_. ret r)) (\<lambda>_ w'. kept as ws X Y w w') w') w"
    by (intro wpe_conseq [OF f]) (auto simp: wp)
  with s show ?thesis by (simp add: on_write_buff_def wpe_bnd wpe_load)
qed

lemma write_safe:
  assumes "winv as ws X Y w" and "socks w a = Some s"
  shows "wpe E (on_write_buff (Some a) (\<lambda>b. buff_write b src)) (\<lambda>_ w'. kept as ws X Y w w') w"
  by (rule on_write_buff_safe [OF assms], rule wpe_faults [OF wpe_conseq [OF buff_write_spec]])
     (use winv_sock(4) [OF assms] in auto)

lemma concat_safe:
  assumes "winv as ws X Y w" and "socks w a = Some s" and "wf_buff rear"
  shows "wpe E (on_write_buff (Some a) (\<lambda>b. buff_concat b rear)) (\<lambda>_ w'. kept as ws X Y w w') w"
  by (rule on_write_buff_safe [OF assms(1,2)], rule wpe_faults [OF wpe_conseq [OF buff_concat_spec]])
     (use winv_sock(4) [OF assms(1,2)] assms(3) in auto)

lemma clear_safe:
  assumes "winv as ws X Y w" and "socks w a = Some s"
  shows "kept as ws X Y w (w\<lparr>socks := (socks w)(a \<mapsto> s\<lparr>read_buff := buff_clear (read_buff s)\<rparr>)\<rparr>)"
  using winv_sock_upd [OF assms] winv_sock(3,4) [OF assms] data_step_upd [OF assms(2)]
  by (simp add: kept_def)

section \<open>The data states\<close>

lemma forward_safe:
  assumes inv: "winv as ws X Y w" and s: "socks w a = Some s" and d: "socks w b = Some d"
  shows "wpe E (forward (Some a) (Some b)) (\<lambda>_ w'. kept as ws X Y w w') w"
proof -
  have "wpe E (if r < 0 then ret (-1)
        else bnd (sock_upd (Some a) (\<lambda>s. s\<lparr>read_buff := buff_clear (read_buff s)\<rparr>)) (\<lambda>_.
             bnd (epoll_modify (Some b) True True) (\<lambda>_. ret 0))) (\<lambda>_ w'. kept as ws X Y w w') w1"
    if k: "kept as ws X Y w w1" for r :: int and w1
  proof -
    obtain s1 where s1: "socks w1 a = Some s1" by (rule data_step_sock [OF keptD(2) [OF k] s])
    let ?w = "w1\<lparr>socks := (socks w1)(a \<mapsto> s1\<lparr>read_buff := buff_clear (read_buff s1)\<rparr>)\<rparr>"
    note k2 = kept_trans [OF k clear_safe [OF keptD(1) [OF k] s1]]
    obtain d2 where d2: "socks ?w b = Some d2" by (rule data_step_sock [OF keptD(2) [OF k2] d])
    have "wpe E (epoll_modify (Some b) True True) (\<lambda>_ w'. kept as ws X Y w w') ?w"
      by (rule wpe_conseq [OF epoll_modify_safe [OF keptD(1) [OF k2] d2]]) (rule kept_trans [OF k2])
    with k s1 show ?thesis by (simp add: wpe_bnd wpe_ret_fun wpe_sock_upd)
  qed
  then have "wpe E (on_write_buff (Some b) (\<lambda>b. buff_concat b (read_buff s))) (\<lambda>r. wpe E (if r < 0 then ret (-1)
        else bnd (sock_upd (Some a) (\<lambda>s. s\<lparr>read_buff := buff_clear (read_buff s)\<rparr>)) (\<lambda>_.
             bnd (epoll_modify (Some b) True True) (\<lambda>_. ret 0))) (\<lambda>_ w'. kept as ws X Y w w')) w"
    by (rule wpe_conseq [OF concat_safe [OF inv d winv_sock(3) [OF inv s]]])
  with s show ?thesis by (simp add: forward_def wpe_bnd wpe_load)
qed

lemma connected_handle_safe:
  assumes inv: "winv as ws X Y w" and T: "tunnels w t = Some T" "t \<notin> X" and s: "socks w a = Some s"
  shows "wpe crashes (tunnel_connected_handle (Some t) (Some a)) (\<lambda>_ w'. kept as ws X Y w w') w"
proof -
  have fw: "wpe crashes (forward p q) (\<lambda>_ w'. kept as ws X Y w w') w"
    if "p \<in> {priv_sock T, remote_sock T}" "q \<in> {priv_sock T, remote_sock T}" "q \<noteq> None" for p q
  proof (cases p)
    case None
    then show ?thesis by (simp add: forward_def wp)
  next
    case (Some b)
    from that(3) obtain c where q: "q = Some c" by auto
    note pq = that(1,2)
    obtain sb sc where "socks w b = Some sb" "socks w c = Some sc"
      using pq Some q winv_priv [OF inv T] winv_remote [OF inv T]
      by (metis insert_iff singletonD)
    from forward_safe [OF inv this] Some q show ?thesis by simp
  qed
  have live: "\<exists>s. socks w b = Some s" if "Some b \<in> {priv_sock T, remote_sock T}" for b
    using that winv_priv [OF inv T] winv_remote [OF inv T] by (metis insert_iff singletonD)
  show ?thesis
    unfolding tunnel_connected_handle_def
    using T s fw live kept_refl [OF inv]
    by (auto simp: wp parsingHeader_def split: option.split) fastforce+
qed

lemma waitting_handle_safe:
  assumes inv: "winv as ws X Y w" and T: "tunnels w t = Some T" "t \<notin> X"
  shows "wpe crashes (tunnel_waitting_handle (Some t) pr) (\<lambda>_ w'. winv as ws X Y w' \<and> same_shape w w') w"
proof (cases "remote_sock T")
  case None
  with T inv show ?thesis by (simp add: tunnel_waitting_handle_def wp)
next
  case (Some a)
  obtain s where s: "socks w a = Some s" using winv_remote [OF inv T Some] by blast
  have rest: "wpe crashes (bnd (sock_upd (Some a) (\<lambda>s. s\<lparr>read_buff := buff_clear (read_buff s)\<rparr>)) (\<lambda>_.
     bnd (tunnel_upd (Some t) (\<lambda>t. t\<lparr>t_status := tmptun_is_close\<rparr>)) (\<lambda>_.
     bnd (epoll_modify (Some a) True True) (\<lambda>_. ret 0)))) (\<lambda>_ w'. winv as ws X Y w' \<and> same_shape w w') w1"
    if k: "kept as ws X Y w w1" for w1
  proof -
    obtain s1 where s1: "socks w1 a = Some s1" by (rule data_step_sock [OF keptD(2) [OF k] s])
    let ?w = "w1\<lparr>socks := (socks w1)(a \<mapsto> s1\<lparr>read_buff := buff_clear (read_buff s1)\<rparr>)\<rparr>"
    note k2 = kept_trans [OF k clear_safe [OF keptD(1) [OF k] s1]]
    have T2: "tunnels ?w t = Some T" using keptD(2) [OF k2] T by (simp add: data_step_def)
    let ?T = "T\<lparr>t_status := tmptun_is_close\<rparr>" let ?w' = "?w\<lparr>tunnels := (tunnels ?w)(t \<mapsto> ?T)\<rparr>"
    have inv2: "winv as ws X Y ?w'"
    proof (rule winv_tunnel_upd [OF winv_mono [OF keptD(1) [OF k2]] T2])
      show "peers_ok ?w t ?T"
        using winv_tunnel(1) [OF keptD(1) [OF k2] T2 T(2)] by (simp add: peers_ok_def)
      show "t \<notin> Y \<Longrightarrow> phase_ok ?T" "creds_ok ?T"
        using winv_tunnel(2,3) [OF keptD(1) [OF k2] T2] by simp_all
    qed auto
    have sh: "same_shape w ?w'"
      using keptD(2) [OF k2] T by (simp add: data_step_def same_shape_def)
    obtain s2 where s2: "socks ?w' a = Some s2" by simp
    have "wpe crashes (epoll_modify (Some a) True True) (\<lambda>_ w'. winv as ws X Y w' \<and> same_shape w w') ?w'"
      by (rule wpe_conseq [OF epoll_modify_safe [OF inv2 s2]])
         (blast intro: same_shape_trans [OF sh] dest: keptD data_step_shape)
    with s1 T2 show ?thesis by (simp add: wpe_bnd wpe_ret_fun wpe_sock_upd wpe_tunnel_upd)
  qed
  have wr: "wpe crashes (tunnel_write_remote (Some t) response) (\<lambda>_ w'. kept as ws X Y w w') w"
    unfolding tunnel_write_remote_def using T Some
    by (auto simp: wp intro!: wpe_conseq [OF write_safe [OF inv s]])
  have "wpe crashes (tunnel_write_remote (Some t) response) (\<lambda>r. wpe crashes (if r < 0 then ret (-1) else
     bnd (sock_upd (Some a) (\<lambda>s. s\<lparr>read_buff := buff_clear (read_buff s)\<rparr>)) (\<lambda>_.
     bnd (tunnel_upd (Some t) (\<lambda>t. t\<lparr>t_status := tmptun_is_close\<rparr>)) (\<lambda>_.
     bnd (epoll_modify (Some a) True True) (\<lambda>_. ret 0)))) (\<lambda>_ w'. winv as ws X Y w' \<and> same_shape w w')) w"
    by (rule wpe_conseq [OF wr], cases rule: case_split)
       (use rest in \<open>auto simp: wpe_ret kept_def data_step_def\<close>)
  with T Some show ?thesis by (simp add: tunnel_waitting_handle_def wpe_bnd wpe_load cong: if_cong)
qed

section \<open>Closing\<close>

text \<open>The tunnel after \<open>sock_force_shutdown\<close> of its socket \<open>a\<close>.\<close>

definition shut_tunnel :: "addr \<Rightarrow> bool \<Rightarrow> tunnel \<Rightarrow> tunnel" where
  "shut_tunnel a priv T =
     (let U = if t_status T = tmptun_is_close then T\<lparr>t_status := tmptun_is_free, remote_sock := None\<rparr>
              else if Some a = remote_sock T then T\<lparr>t_status := tunn_is_idle, remote_sock := None\<rparr>
              else T
      in if priv then U\<lparr>priv_sock := None\<rparr> else U\<lparr>remote_sock := None\<rparr>)"

lemma shut_tunnel_simps [simp]:
  "t_state (shut_tunnel a d T) = t_state T" "phase_ok (shut_tunnel a d T) = phase_ok T"
  "creds_ok (shut_tunnel a d T) = creds_ok T"
  "t_status T \<noteq> tmptun_is_close \<Longrightarrow> t_status (shut_tunnel a d T) \<noteq> tmptun_is_close"
  by (simp_all add: shut_tunnel_def Let_def)

lemma shut_tunnel_ptrs:
  "priv_sock (shut_tunnel a d T) = (if d then None else priv_sock T)"
  "remote_sock (shut_tunnel a d T) =
     (if d \<and> t_status T \<noteq> tmptun_is_close \<and> Some a \<noteq> remote_sock T then remote_sock T else None)"
  by (simp_all add: shut_tunnel_def Let_def)

text \<open>The world without the socket \<open>a\<close> and its descriptor, with \<open>T\<close> for the tunnel \<open>t\<close>.\<close>

definition closed_world :: "addr \<Rightarrow> sock \<Rightarrow> addr \<Rightarrow> tunnel \<Rightarrow> world \<Rightarrow> world \<Rightarrow> bool" where
  "closed_world a s t T w w' \<longleftrightarrow> w' = w\<lparr>tunnels := (tunnels w)(t \<mapsto> T), fd_open := (fd_open w)(s_fd s := False),
     epoll := (epoll w)(s_fd s := None), socks := (socks w)(a := None),
     live := live w', errno_v := errno_v w'\<rparr>"

lemma release_run:
  assumes s: "socks w a = Some s" "s_tunnel s = Some t" and T: "tunnels w t = Some T" and fd: "fd_open w (s_fd s)"
  shows "wpe E (sock_release (Some a)) (\<lambda>_. closed_world a s t
     (if ispriv s \<noteq> 0 then T\<lparr>priv_sock := None\<rparr> else T\<lparr>remote_sock := None\<rparr>) w) w"
proof -
  have e: "epoll w (s_fd s) = None \<Longrightarrow> (epoll w)(s_fd s := None) = epoll w" by auto
  show ?thesis
    using assms e
    by (cases "ispriv s = 0")
       (simp_all add: sock_release_def epoll_del_def buff_release_def wp Let_def closed_world_def)
qed

lemma force_shutdown_run:
  assumes s: "socks w a = Some s" "s_tunnel s = Some t" and T: "tunnels w t = Some T" and fd: "fd_open w (s_fd s)"
  shows "wpe E (sock_force_shutdown (Some a)) (\<lambda>_. closed_world a s t (shut_tunnel a (ispriv s \<noteq> 0) T) w) w"
proof -
  have rel: "wpe E (sock_release (Some a)) (\<lambda>_. closed_world a s t
     (if ispriv s \<noteq> 0 then U\<lparr>priv_sock := None\<rparr> else U\<lparr>remote_sock := None\<rparr>) w) (w\<lparr>tunnels := (tunnels w)(t \<mapsto> U)\<rparr>)" for U
    by (rule wpe_conseq [OF release_run [where T = U]])
       (use assms in \<open>auto simp: closed_world_def\<close>)
  from rel [of T] T have rel0: "wpe E (sock_release (Some a)) (\<lambda>_. closed_world a s t
     (if ispriv s \<noteq> 0 then T\<lparr>priv_sock := None\<rparr> else T\<lparr>remote_sock := None\<rparr>) w) w"
    by (simp add: fun_upd_idem)
  consider "t_status T = tmptun_is_close" | "t_status T \<noteq> tmptun_is_close" "remote_sock T = Some a"
    | "t_status T \<noteq> tmptun_is_close" "Some a \<noteq> remote_sock T" by fastforce
  then show ?thesis
  proof cases
    case 1
    with rel [of "T\<lparr>t_status := tmptun_is_free, remote_sock := None\<rparr>"] s T show ?thesis
      by (simp add: sock_force_shutdown_def wp shut_tunnel_def Let_def)
  next
    case 2
    with rel [of "T\<lparr>t_status := tunn_is_idle, remote_sock := None\<rparr>"] s T show ?thesis
      by (simp add: sock_force_shutdown_def wp shut_tunnel_def Let_def)
  next
    case 3
    with rel0 s T show ?thesis
      by (simp add: sock_force_shutdown_def wp shut_tunnel_def Let_def)
  qed
qed

text \<open>After the call nothing points to the socket any more, and the invariant holds again.\<close>

lemma closed_world_winv:
  assumes inv: "winv as ws X Y w" and s: "socks w a = Some s" "s_tunnel s = Some t" and T: "tunnels w t = Some T"
    and t: "t \<notin> X" and w': "closed_world a s t (shut_tunnel a (ispriv s \<noteq> 0) T) w w'"
  shows "winv as ws X Y w'"
proof -
  let ?T = "shut_tunnel a (ispriv s \<noteq> 0) T" let ?w = "w\<lparr>tunnels := (tunnels w)(t \<mapsto> ?T)\<rparr>"
  have inv1: "winv as ws X Y ?w"
  proof (rule winv_tunnel_upd [OF winv_mono [OF inv] T])
    show "peers_ok w t ?T"
      using winv_tunnel(1) [OF inv T t] by (rule peers_ok_less) (simp_all add: shut_tunnel_ptrs)
    show "t \<notin> Y \<Longrightarrow> phase_ok ?T" "creds_ok ?T" using winv_tunnel(2,3) [OF inv T] by simp_all
  qed auto
  have "priv_sock U \<noteq> Some a \<and> remote_sock U \<noteq> Some a" if U: "tunnels ?w u = Some U" "u \<notin> X" for u U
  proof -
    have po: "peers_ok ?w u U" using winv_tunnel(1) [OF inv1 U] .
    have own: "u = t" if "priv_sock U = Some a \<or> remote_sock U = Some a"
      using po that s by (auto simp: peers_ok_def peer_ok_def)
    show ?thesis
    proof (rule ccontr)
      assume "\<not> ?thesis"
      with own U(1) have "U = ?T" "priv_sock U = Some a \<or> remote_sock U = Some a" by auto
      with po s show False
        by (auto simp: peers_ok_def peer_ok_def shut_tunnel_ptrs split: if_splits)
    qed
  qed
  from winv_sock_free [OF inv1 _ this] s(1)
  have "winv as ws X Y (?w\<lparr>fd_open := (fd_open w)(s_fd s := False), epoll := (epoll w)(s_fd s := None),
      socks := (socks w)(a := None), live := live w', errno_v := errno_v w'\<rparr>)" by simp
  then show ?thesis by (subst w' [unfolded closed_world_def]) simp
qed

lemma force_shutdown_safe:
  assumes inv: "winv as ws X Y w" and s: "socks w a = Some s" "s_tunnel s = Some t" and t: "t \<notin> X"
  shows "wpe E (sock_force_shutdown (Some a)) (\<lambda>_ w'. winv as ws X Y w' \<and> socks w' = (socks w)(a := None) \<and>
     conns w' = conns w \<and>
     (\<exists>T. tunnels w t = Some T \<and> tunnels w' = (tunnels w)(t \<mapsto> shut_tunnel a (ispriv s \<noteq> 0) T))) w"
proof -
  obtain T where T: "tunnels w t = Some T" using winv_sock_tunnel [OF inv s(1)] s(2) by auto
  show ?thesis
  proof (rule wpe_conseq [OF force_shutdown_run [OF s T winv_sock(5) [OF inv s(1)]]])
    fix w' assume cw: "closed_world a s t (shut_tunnel a (ispriv s \<noteq> 0) T) w w'"
    from closed_world_winv [OF inv s T t cw] have "winv as ws X Y w'" .
    moreover have "socks w' = (socks w)(a := None)" "conns w' = conns w"
      "tunnels w' = (tunnels w)(t \<mapsto> shut_tunnel a (ispriv s \<noteq> 0) T)"
      by (subst cw [unfolded closed_world_def], simp)+
    ultimately show "winv as ws X Y w' \<and> socks w' = (socks w)(a := None) \<and> conns w' = conns w \<and>
        (\<exists>T. tunnels w t = Some T \<and> tunnels w' = (tunnels w)(t \<mapsto> shut_tunnel a (ispriv s \<noteq> 0) T))"
      using T by blast
  qed
qed

text \<open>Objects other than sockets stay.\<close>

definition grows :: "world \<Rightarrow> world \<Rightarrow> bool" where
  "grows w w' \<longleftrightarrow> (\<forall>t. tunnels w t \<noteq> None \<longrightarrow> tunnels w' t \<noteq> None)"

lemma grows_refl [simp]: "grows w w"
  by (simp add: grows_def)

lemma grows_trans: "grows u v \<Longrightarrow> grows v w \<Longrightarrow> grows u w"
  by (simp add: grows_def)

lemma same_shape_grows: "same_shape w w' \<Longrightarrow> grows w w'"
  unfolding same_shape_def grows_def by fastforce

text \<open>An update that only takes pointers away from a tunnel, or changes its status.\<close>

lemma tunnel_less_safe:
  assumes inv: "winv as ws X Y w" and T: "tunnels w t = Some T" "t \<notin> X"
    and f: "priv_sock (f T) \<in> {priv_sock T, None}" "remote_sock (f T) \<in> {remote_sock T, None}"
      "phase_ok (f T) = phase_ok T" "creds_ok (f T) = creds_ok T"
    and Q: "winv as ws X Y (w\<lparr>tunnels := (tunnels w)(t \<mapsto> f T)\<rparr>) \<Longrightarrow> Q () (w\<lparr>tunnels := (tunnels w)(t \<mapsto> f T)\<rparr>)"
  shows "wpe E (tunnel_upd (Some t) f) Q w"
proof -
  have "winv as ws X Y (w\<lparr>tunnels := (tunnels w)(t \<mapsto> f T)\<rparr>)"
  proof (rule winv_tunnel_upd [OF winv_mono [OF inv] T(1)])
    show "peers_ok w t (f T)" using winv_tunnel(1) [OF inv T] f(1,2) by (rule peers_ok_less)
    show "t \<notin> Y \<Longrightarrow> phase_ok (f T)" "creds_ok (f T)" using winv_tunnel(2,3) [OF inv T(1)] f(3,4) by simp_all
  qed auto
  from Q [OF this] T show ?thesis by (simp add: wp)
qed

section \<open>\<open>sock_shutdown\<close>\<close>

abbreviation closes :: "addr list \<Rightarrow> addr list \<Rightarrow> world \<Rightarrow> world \<Rightarrow> bool" where
  "closes as ws w w' \<equiv> winv as ws {} {} w' \<and> grows w w'"

definition attached :: "world \<Rightarrow> addr \<Rightarrow> addr \<Rightarrow> bool" where
  "attached w a t \<longleftrightarrow> (\<exists>s. socks w a = Some s \<and> s_tunnel s = Some t)"

lemma attachedI: "socks w a = Some s \<Longrightarrow> s_tunnel s = Some t \<Longrightarrow> attached w a t"
  by (simp add: attached_def)

text \<open>A socket of the tunnel is closed, and then a few of the tunnel's members are set.\<close>

lemma force_then:
  assumes inv: "winv as ws {} {} w" and s: "socks w a = Some s" "s_tunnel s = Some t" and T: "tunnels w t = Some T"
    and f: "\<And>U. priv_sock (f U) \<in> {priv_sock U, None}" "\<And>U. remote_sock (f U) \<in> {remote_sock U, None}"
      "\<And>U. phase_ok (f U) = phase_ok U" "\<And>U. creds_ok (f U) = creds_ok U"
    and Q: "\<And>w' U. winv as ws {} {} w' \<Longrightarrow> tunnels w' = (tunnels w)(t \<mapsto> f U) \<Longrightarrow>
       U = shut_tunnel a (ispriv s \<noteq> 0) T \<Longrightarrow> socks w' = (socks w)(a := None) \<Longrightarrow> Q () w'"
  shows "wpe E (sock_force_shutdown (Some a)) (\<lambda>_. wpe E (tunnel_upd (Some t) f) Q) w"
proof (rule wpe_conseq [OF force_shutdown_safe [OF inv s]], simp, elim conjE exE)
  fix w1 U
  assume inv1: "winv as ws {} {} w1" and w1: "tunnels w t = Some U"
    "tunnels w1 = (tunnels w)(t \<mapsto> shut_tunnel a (ispriv s \<noteq> 0) U)" "socks w1 = (socks w)(a := None)"
  then have T1: "tunnels w1 t = Some (shut_tunnel a (ispriv s \<noteq> 0) T)" using T by simp
  show "wpe E (tunnel_upd (Some t) f) Q w1"
    by (rule tunnel_less_safe [where f = f, OF inv1 T1 _ f], simp, rule Q) (use w1 T in auto)
qed

lemma tunnel_upd_twice:
  assumes "wpe E (tunnel_upd p (\<lambda>t. g (f t))) Q w"
  shows "wpe E (tunnel_upd p f) (\<lambda>_. wpe E (tunnel_upd p g) Q) w"
  using assms by (auto simp: wp split: option.splits)

lemma shutdown_remote_safe:
  assumes inv: "winv as ws {} {} w" and T: "tunnels w t = Some T" and a: "attached w a t"
  shows "wpe crashes (shutdown_remote (Some a) (Some t)) (\<lambda>_ w'. closes as ws w w' \<and>
     (\<exists>U. tunnels w' t = Some U \<and> (t_status U = tmptun_is_close \<longrightarrow> attached w' a t))) w"
    (is "wpe _ _ ?Q w")
proof (cases "remote_sock T = Some a \<and> t_state T \<in> {connected_state, tunnel_waitting}")
  case False
  then show ?thesis using assms by (auto simp: shutdown_remote_def wp)
next
  case True
  then obtain s where s: "socks w a = Some s" "s_tunnel s = Some t" "ispriv s = 0"
    using winv_remote [OF inv T] by auto
  have fin: "wpe crashes (sock_force_shutdown (Some a)) (\<lambda>_. wpe crashes
      (tunnel_upd (Some t) (\<lambda>t. t\<lparr>t_status := st\<rparr>)) (\<lambda>_. wpe crashes
      (tunnel_upd (Some t) (\<lambda>t. t\<lparr>remote_sock := None\<rparr>)) ?Q)) w"
    if "st \<noteq> tmptun_is_close" for st
  proof -
    have "wpe crashes (sock_force_shutdown (Some a)) (\<lambda>_. wpe crashes
      (tunnel_upd (Some t) (\<lambda>t. t\<lparr>t_status := st, remote_sock := None\<rparr>)) ?Q) w"
      by (rule force_then [OF inv s(1,2) T]) (use that T in \<open>auto simp: grows_def\<close>)
    then show ?thesis by (rule wpe_conseq) (rule tunnel_upd_twice)
  qed
  from True fin [of tunn_is_idle] fin [of tmptun_is_free] T show ?thesis
    by (auto simp: shutdown_remote_def wp_fun wpe_load)
qed

lemma shutdown_priv_safe:
  assumes inv: "winv as ws {} {} w" and T: "tunnels w t = Some T" and a: "socks w a = Some s" "s_tunnel s = Some t"
  shows "wpe crashes (shutdown_priv (Some a) (Some t)) (\<lambda>_ w'. closes as ws w w' \<and>
     (\<exists>U. tunnels w' t = Some U \<and> (attached w' a t \<or>
        t_status U \<noteq> tmptun_is_close \<and> remote_sock U = None))) w"
    (is "wpe _ _ ?Q w")
proof (cases "priv_sock T = Some a")
  case False
  then show ?thesis using assms attachedI [OF a] by (auto simp: shutdown_priv_def wp)
next
  case True
  then have pr: "ispriv s \<noteq> 0" using winv_priv [OF inv T _ True] a by auto
  let ?g = "\<lambda>t. t\<lparr>t_status := tunn_is_free, priv_sock := None\<rparr>"
  let ?rest = "bnd (load tunnels (Some t)) (\<lambda>t'. if remote_sock t' \<noteq> None then
         let sock1 = remote_sock t' in
         bnd (load socks sock1) (\<lambda>_.
         bnd (sock_force_shutdown sock1) (\<lambda>_.
         tunnel_upd (Some t) (\<lambda>t. t\<lparr>remote_sock := None\<rparr>)))
       else ret ())"
  have "wpe crashes (sock_force_shutdown (Some a)) (\<lambda>_. wpe crashes
      (tunnel_upd (Some t) ?g) (\<lambda>_. wpe crashes ?rest ?Q)) w"
  proof (rule force_then [OF inv a T])
    fix w1 U
    assume inv1: "winv as ws {} {} w1" and w1: "tunnels w1 = (tunnels w)(t \<mapsto> ?g U)"
      and U: "U = shut_tunnel a (ispriv s \<noteq> 0) T"
    from w1 have T1: "tunnels w1 t = Some (?g U)" by simp
    show "wpe crashes ?rest ?Q w1"
    proof (cases "remote_sock U")
      case None
      with inv1 w1 show ?thesis by (simp add: wp grows_def)
    next
      case (Some b)
      then obtain s1 where s1: "socks w1 b = Some s1" "s_tunnel s1 = Some t" "ispriv s1 = 0"
        using winv_remote [OF inv1 T1] by auto
      have "wpe crashes (sock_force_shutdown (Some b)) (\<lambda>_. wpe crashes
          (tunnel_upd (Some t) (\<lambda>t. t\<lparr>remote_sock := None\<rparr>)) ?Q) w1"
        by (rule force_then [OF inv1 s1(1,2) T1]) (use w1 in \<open>auto simp: grows_def\<close>)
      with Some T1 s1 show ?thesis by (simp add: wpe_bnd wpe_load Let_def)
    qed
  qed auto
  then have "wpe crashes (sock_force_shutdown (Some a)) (\<lambda>_. wpe crashes
      (tunnel_upd (Some t) (\<lambda>t. t\<lparr>t_status := tunn_is_free\<rparr>)) (\<lambda>_. wpe crashes
      (tunnel_upd (Some t) (\<lambda>t. t\<lparr>priv_sock := None\<rparr>)) (\<lambda>_. wpe crashes ?rest ?Q))) w"
    by (rule wpe_conseq) (rule tunnel_upd_twice)
  with True T show ?thesis by (simp add: shutdown_priv_def wp_fun wpe_load)
qed

lemma shutdown_single_safe:
  assumes inv: "winv as ws {} {} w" and T: "tunnels w t = Some T"
    and a: "t_status T = tmptun_is_close \<Longrightarrow> attached w a t"
  shows "wpe crashes (shutdown_single (Some a) (Some t)) (\<lambda>_ w'. closes as ws w w') w"
    (is "wpe _ _ ?Q w")
proof (cases "t_status T = tmptun_is_close")
  case False
  then show ?thesis using assms by (auto simp: shutdown_single_def wp)
next
  case True
  then obtain s where s: "socks w a = Some s" "s_tunnel s = Some t" using a by (auto simp: attached_def)
  have "wpe crashes (sock_force_shutdown (Some a)) (\<lambda>_. wpe crashes
      (tunnel_upd (Some t) (\<lambda>t. t\<lparr>t_status := tmptun_is_free, remote_sock := None\<rparr>)) ?Q) w"
    by (rule force_then [OF inv s T]) (auto simp: grows_def)
  then have "wpe crashes (sock_force_shutdown (Some a)) (\<lambda>_. wpe crashes
      (tunnel_upd (Some t) (\<lambda>t. t\<lparr>t_status := tmptun_is_free\<rparr>)) (\<lambda>_. wpe crashes
      (tunnel_upd (Some t) (\<lambda>t. t\<lparr>remote_sock := None\<rparr>)) ?Q)) w"
    by (rule wpe_conseq) (rule tunnel_upd_twice)
  with True T s show ?thesis by (simp add: shutdown_single_def wp_fun wpe_load)
qed

text \<open>The steps after the half-close, in their order.\<close>

lemma forward_left_safe:
  assumes inv: "winv as ws {} {} w" and T: "tunnels w t = Some T"
  shows "wpe crashes (forward_left_data (Some a) (Some t)) (\<lambda>_ w'. kept as ws {} {} w w') w"
proof -
  have "wpe crashes (on_write_buff (Some a) (\<lambda>b. buff_concat b (read_buff ps))) (\<lambda>_ w'. kept as ws {} {} w w') w"
    if r: "remote_sock T = Some a" and ps: "socks w p = Some ps" for p ps
  proof -
    obtain s where "socks w a = Some s" using winv_remote [OF inv T _ r] by auto
    from concat_safe [OF inv this winv_sock(3) [OF inv ps]] show ?thesis .
  qed
  moreover have "\<exists>ps. socks w p = Some ps" if "priv_sock T = Some p" for p
    using winv_priv [OF inv T _ that] by auto
  ultimately show ?thesis
    using T kept_refl [OF inv]
    by (cases "priv_sock T") (fastforce simp: forward_left_data_def wp_fun wpe_load wpe_ret)+
qed

lemma closes_trans:
  "grows u v \<Longrightarrow> closes as ws v w \<Longrightarrow> closes as ws u w"
  using grows_trans by blast

lemma sock_shutdown_safe:
  assumes inv: "winv as ws {} {} w" and s: "socks w a = Some s"
  shows "wpe crashes (sock_shutdown (Some a)) (\<lambda>_ w'. closes as ws w w') w"
proof -
  obtain t T where t: "s_tunnel s = Some t" "tunnels w t = Some T" by (rule winv_sock_tunnel [OF inv s])
  let ?s1 = "s\<lparr>s_state := sock_halfclosed\<rparr>" let ?w1 = "w\<lparr>socks := (socks w)(a \<mapsto> ?s1)\<rparr>"
  have k1: "kept as ws {} {} w ?w1"
    using winv_sock_upd [OF inv s, of ?s1] winv_sock(3,4) [OF inv s] data_step_upd [OF s, of ?s1]
    by (simp add: kept_def)
  have T1: "tunnels ?w1 t = Some T" using t by simp
  have closing: "wpe crashes (shutdown_priv (Some a) (Some t)) (\<lambda>_. wpe crashes (shutdown_remote (Some a) (Some t)) (\<lambda>_.
      wpe crashes (shutdown_single (Some a) (Some t)) (\<lambda>_ w'. closes as ws w w'))) w2"
    if k: "kept as ws {} {} w w2" and s2: "socks w2 a = Some s2" "s_tunnel s2 = Some t" for w2 s2
  proof -
    have T2: "tunnels w2 t = Some T" using t keptD(2) [OF k] by (simp add: data_step_def)
    show ?thesis
    proof (rule wpe_conseq [OF shutdown_priv_safe [OF keptD(1) [OF k] T2 s2]], elim conjE exE)
      fix w3 U assume w3: "winv as ws {} {} w3" "grows w2 w3" "tunnels w3 t = Some U"
        and U: "attached w3 a t \<or> t_status U \<noteq> tmptun_is_close \<and> remote_sock U = None"
      have g: "grows w w3"
        using same_shape_grows [OF data_step_shape [OF keptD(2) [OF k]]] w3(2) by (rule grows_trans)
      show "wpe crashes (shutdown_remote (Some a) (Some t)) (\<lambda>_. wpe crashes (shutdown_single (Some a) (Some t))
          (\<lambda>_ w'. closes as ws w w')) w3"
      proof (cases "attached w3 a t")
        case False
        with U w3 g show ?thesis by (simp add: shutdown_remote_def shutdown_single_def wp)
      next
        case True
        show ?thesis
        proof (rule wpe_conseq [OF shutdown_remote_safe [OF w3(1,3) True]], elim conjE exE)
          fix w4 V assume w4: "winv as ws {} {} w4" "grows w3 w4" "tunnels w4 t = Some V"
            and V: "t_status V = tmptun_is_close \<longrightarrow> attached w4 a t"
          have "wpe crashes (shutdown_single (Some a) (Some t)) (\<lambda>_ w'. closes as ws w4 w') w4"
            using shutdown_single_safe [OF w4(1,3)] V by blast
          then show "wpe crashes (shutdown_single (Some a) (Some t)) (\<lambda>_ w'. closes as ws w w') w4"
            by (rule wpe_conseq) (rule closes_trans [OF grows_trans [OF g w4(2)]])
        qed
      qed
    qed
  qed
  have rest: "wpe crashes (bnd (load socks (Some a)) (\<lambda>s. if 0 < buff_readable (write_buff s)
        then bnd (epoll_modify (Some a) True False) (\<lambda>_. ret ())
        else bnd (load tunnels (Some t)) (\<lambda>_. bnd (shutdown_priv (Some a) (Some t)) (\<lambda>_.
          bnd (shutdown_remote (Some a) (Some t)) (\<lambda>_. shutdown_single (Some a) (Some t))))))
      (\<lambda>_ w'. closes as ws w w') w2"
    if k: "kept as ws {} {} w w2" for w2
  proof -
    obtain s2 where s2: "socks w2 a = Some s2" "s_tunnel s2 = Some t"
      using data_step_sock [OF keptD(2) [OF k] s] t(1) by metis
    have T2: "tunnels w2 t = Some T" using t keptD(2) [OF k] by (simp add: data_step_def)
    have "closes as ws w w'" if "kept as ws {} {} w2 w'" for w'
      using kept_trans [OF k that] same_shape_grows by (auto simp: kept_def data_step_def)
    then have "wpe crashes (epoll_modify (Some a) True False) (\<lambda>_ w'. closes as ws w w') w2"
      by (rule wpe_conseq [OF epoll_modify_safe [OF keptD(1) [OF k] s2(1)]])
    with closing [OF k s2] s2 T2 show ?thesis by (simp add: wp_fun wpe_load)
  qed
  have "wpe crashes (forward_left_data (Some a) (Some t)) (\<lambda>_. wpe crashes
      (bnd (load socks (Some a)) (\<lambda>s. if 0 < buff_readable (write_buff s)
        then bnd (epoll_modify (Some a) True False) (\<lambda>_. ret ())
        else bnd (load tunnels (Some t)) (\<lambda>_. bnd (shutdown_priv (Some a) (Some t)) (\<lambda>_.
          bnd (shutdown_remote (Some a) (Some t)) (\<lambda>_. shutdown_single (Some a) (Some t))))))
      (\<lambda>_ w'. closes as ws w w')) ?w1"
    by (rule wpe_conseq [OF forward_left_safe [OF keptD(1) [OF k1] T1]])
       (rule rest [OF kept_trans [OF k1]])
  with s t(1) show ?thesis
    by (simp add: sock_shutdown_def Let_def wp_fun wpe_sock_upd wpe_load cong: if_cong)
qed

lemma tunnel_shutdown_safe:
  assumes inv: "winv as ws {} {} w" and T: "tunnels w t = Some T"
  shows "wpe crashes (tunnel_shutdown (Some t) (Some a)) (\<lambda>_ w'. closes as ws w w') w"
proof -
  have second: "wpe crashes (bnd (load tunnels (Some t)) (\<lambda>t.
      if Some a = remote_sock t then sock_shutdown (remote_sock t) else ret ())) (\<lambda>_ w'. closes as ws w w') w1"
    if c: "closes as ws w w1" for w1
  proof -
    from c T obtain U where U: "tunnels w1 t = Some U" by (auto simp: grows_def)
    have "wpe crashes (sock_shutdown (Some a)) (\<lambda>_ w'. closes as ws w w') w1" if r: "remote_sock U = Some a"
    proof -
      have inv1: "winv as ws {} {} w1" using c by simp
      obtain s where s: "socks w1 a = Some s" using winv_remote [OF inv1 U _ r] by auto
      from sock_shutdown_safe [OF inv1 s] show ?thesis
        by (rule wpe_conseq) (rule closes_trans [OF conjunct2 [OF c]])
    qed
    with U c show ?thesis by (auto simp: wp_fun wpe_load)
  qed
  have first: "wpe crashes (sock_shutdown (Some a)) (\<lambda>_ w'. closes as ws w w') w" if "priv_sock T = Some a"
    using winv_priv [OF inv T _ that] sock_shutdown_safe [OF inv] by blast
  show ?thesis
  proof (cases "priv_sock T = Some a")
    case True
    have "wpe crashes (sock_shutdown (Some a)) (\<lambda>_. wpe crashes (bnd (load tunnels (Some t)) (\<lambda>t.
      if Some a = remote_sock t then sock_shutdown (remote_sock t) else ret ())) (\<lambda>_ w'. closes as ws w w')) w"
      by (rule wpe_conseq [OF first [OF True]]) (rule second)
    with True T show ?thesis by (simp add: tunnel_shutdown_def wp_fun wpe_load cong: if_cong)
  next
    case False
    with second [of w] inv T show ?thesis by (simp add: tunnel_shutdown_def wp_fun wpe_load wpe_ret)
  qed
qed

end
