(* ===== verification/Placing.thy ===== *)
theory Placing
  imports Closing
begin

text \<open>
  Choosing a place for a connection keeps the invariant: the searches of the two pools, the
  allocation of new elements, and \<open>tunnel_create\<close> as a whole.
\<close>

section \<open>Looking at the pools\<close>

definition placed :: "world \<Rightarrow> addr \<Rightarrow> addr \<Rightarrow> bool" where
  "placed w a t \<longleftrightarrow> (\<exists>c. conns w a = Some c \<and> c_tunnel c = Some t)"

lemma listed_placed:
  assumes "winv as ws X Y w" and "a \<in> set as \<union> set ws"
  obtains t T where "placed w a t" "tunnels w t = Some T"
  using winv_listed [OF assms] unfolding placed_def by metis

lemma wpe_conn_tunnel:
  "wpe E (conn_tunnel p) Q w = (case p of None \<Rightarrow> NullDeref \<in> E
     | Some a \<Rightarrow> (case conns w a of None \<Rightarrow> UseAfterFree \<in> E | Some c \<Rightarrow> wpe E (load tunnels (c_tunnel c)) Q w))"
  by (simp add: conn_tunnel_def wpe_bnd wpe_load split: option.split)

lemma wpe_conn_upd:
  "wpe E (conn_upd p f) Q w = (case p of None \<Rightarrow> NullDeref \<in> E
     | Some a \<Rightarrow> (case conns w a of None \<Rightarrow> UseAfterFree \<in> E | Some c \<Rightarrow> wpe E (tunnel_upd (c_tunnel c) f) Q w))"
  by (simp add: conn_upd_def wpe_bnd wpe_load split: option.split)

lemma placed_conn:
  assumes "placed w a t"
  obtains c where "conns w a = Some c" "c_tunnel c = Some t"
  using assms by (auto simp: placed_def)

text \<open>What a search with a comparison \<open>cmp\<close> finds: an element whose tunnel satisfies \<open>P\<close>.\<close>

definition looks_for :: "world \<Rightarrow> cb_compare \<Rightarrow> (tunnel \<Rightarrow> bool) \<Rightarrow> addr list \<Rightarrow> bool" where
  "looks_for w cmp P xs \<longleftrightarrow> (\<forall>x \<in> set xs. \<forall>q. wpe crashes (cmp x q) (\<lambda>c w'. w' = w \<and>
     (c = 0 \<longrightarrow> (\<exists>t T. placed w x t \<and> tunnels w t = Some T \<and> P T))) w)"

lemma looks_for_status:
  assumes inv: "winv as ws X Y w" and xs: "set xs \<subseteq> set as \<union> set ws"
    and cmp: "\<And>x q. cmp x q = bnd (conn_tunnel (Some x)) (\<lambda>t. ret (if t_status t = st then 0 else -1))"
  shows "looks_for w cmp (\<lambda>T. t_status T = st) xs"
  unfolding looks_for_def cmp
proof (intro ballI allI)
  fix x q assume "x \<in> set xs"
  with xs listed_placed [OF inv] obtain t T where t: "placed w x t" "tunnels w t = Some T" by blast
  then show "wpe crashes (bnd (conn_tunnel (Some x)) (\<lambda>t. ret (if t_status t = st then 0 else (-1 :: int))))
      (\<lambda>c w'. w' = w \<and> (c = 0 \<longrightarrow> (\<exists>t T. placed w x t \<and> tunnels w t = Some T \<and> t_status T = st))) w"
    by (auto simp: wp_fun wpe_conn_tunnel wpe_load placed_def)
qed

lemma looks_for_App:
  assumes "pools w as ws" and "looks_for w cmp P as"
  shows "wpe crashes (AppListFnd q cmp) (\<lambda>r w'. w' = w \<and> (\<forall>x. r = Some x \<longrightarrow>
     x \<in> set as \<and> (\<exists>t T. placed w x t \<and> tunnels w t = Some T \<and> P T))) w"
  by (rule wpe_conseq [OF AppListFnd_spec [OF assms(1),
        where P = "\<lambda>x c. c = 0 \<longrightarrow> (\<exists>t T. placed w x t \<and> tunnels w t = Some T \<and> P T)"]])
     (use assms(2) in \<open>auto simp: looks_for_def\<close>)

lemma looks_for_wait:
  assumes "pools w as ws" and "looks_for w cmp P ws"
  shows "wpe crashes (waitListFnd q cmp) (\<lambda>r w'. w' = w \<and> (\<forall>x. r = Some x \<longrightarrow>
     x \<in> set ws \<and> (\<exists>t T. placed w x t \<and> tunnels w t = Some T \<and> P T))) w"
  by (rule wpe_conseq [OF waitListFnd_spec [OF assms(1),
        where P = "\<lambda>x c. c = 0 \<longrightarrow> (\<exists>t T. placed w x t \<and> tunnels w t = Some T \<and> P T)"]])
     (use assms(2) in \<open>auto simp: looks_for_def\<close>)

section \<open>What a choice leaves\<close>

text \<open>No socket is touched, no pointer between tunnels and sockets changes.\<close>

definition extends :: "world \<Rightarrow> world \<Rightarrow> bool" where
  "extends w w' \<longleftrightarrow> socks w' = socks w \<and>
     (\<forall>t T. tunnels w t = Some T \<longrightarrow> (\<exists>T'. tunnels w' t = Some T' \<and>
        priv_sock T' = priv_sock T \<and> remote_sock T' = remote_sock T)) \<and>
     fd_open w' = fd_open w \<and> SERVER_fd w' = SERVER_fd w \<and> SERVER2_fd w' = SERVER2_fd w"

lemma extends_refl [simp]: "extends w w"
  by (simp add: extends_def)

lemma extends_unused: "extends w w' \<Longrightarrow> fd_unused w' fd = fd_unused w fd"
  by (simp add: extends_def fd_unused_def)

lemma extends_grows: "extends w w' \<Longrightarrow> grows w w'"
  unfolding extends_def grows_def by fastforce

text \<open>A new element of the pool \<open>k\<close>.\<close>

lemma next_addr_fresh:
  assumes inv: "winv as ws X Y w"
  shows "tunnels w (next_addr w) = None" "socks w (next_addr w) = None" "conns w (next_addr w) = None"
    "next_addr w \<notin> set as \<union> set ws" "Suc (next_addr w) \<notin> set as \<union> set ws"
proof -
  show "tunnels w (next_addr w) = None"
    using winv_tunnel(4) [OF inv, of "next_addr w"] by (metis less_irrefl not_Some_eq)
  show "socks w (next_addr w) = None"
    using winv_sock(2) [OF inv, of "next_addr w"] by (metis less_irrefl not_Some_eq)
  show "conns w (next_addr w) = None"
    using inv by (auto simp: winv_def conns_ok_def) (metis less_irrefl not_Some_eq)
  have "\<forall>a \<in> set as \<union> set ws. a < next_addr w" using inv by (simp add: winv_def pools_def)
  then show "next_addr w \<notin> set as \<union> set ws" "Suc (next_addr w) \<notin> set as \<union> set ws"
    by (meson less_irrefl, meson Suc_lessD less_irrefl)
qed

lemma new_pair:
  assumes inv: "winv as ws X Y w" and T: "priv_sock T = None" "remote_sock T = None" "phase_ok T" "creds_ok T"
    and Q: "\<And>a t w'. winv as ws X Y w' \<Longrightarrow> placed w' a t \<Longrightarrow> tunnels w' t = Some T \<Longrightarrow> extends w w' \<Longrightarrow>
       a \<notin> set as \<union> set ws \<Longrightarrow> a < next_addr w' \<Longrightarrow> wpe E (f (Some a)) Q w'"
  shows "wpe E (bnd (new_tunnel T) (\<lambda>tun. bnd (new_conn \<lparr>c_tunnel = tun\<rparr>) f)) Q w"
proof -
  let ?n = "next_addr w"
  let ?w1 = "w\<lparr>tunnels := (tunnels w)(?n \<mapsto> T), next_addr := Suc ?n\<rparr>"
  have inv1: "winv as ws X Y ?w1" by (rule winv_new_tunnel [OF inv T])
  let ?c = "\<lparr>c_tunnel = Some ?n\<rparr>"
  let ?w2 = "?w1\<lparr>conns := (conns ?w1)(next_addr ?w1 \<mapsto> ?c), next_addr := Suc (next_addr ?w1)\<rparr>"
  have inv2: "winv as ws X Y ?w2"
    by (rule winv_new_conn [where t = ?n, OF inv1]) simp_all
  have "extends w ?w2" using next_addr_fresh(1) [OF inv] by (auto simp: extends_def)
  moreover have "placed ?w2 (Suc ?n) ?n" by (simp add: placed_def)
  ultimately have "wpe E (f (Some (Suc ?n))) Q ?w2"
    by (intro Q [where t = ?n, OF inv2]) (use next_addr_fresh(5) [OF inv] in auto)
  then show ?thesis by (simp add: wp_fun wpe_new)
qed

lemma waitListAdd_winv:
  assumes inv: "winv as ws X Y w" and a: "placed w a t" "a \<notin> set as \<union> set ws" "a < next_addr w"
    and Q: "\<And>l. winv as (a # ws) X Y (w\<lparr>links := l\<rparr>) \<Longrightarrow> Q 0 (w\<lparr>links := l\<rparr>)"
  shows "wpe E (waitListAdd (Some a)) Q w"
proof -
  from a(1) obtain c where "conns w a = Some c" by (auto simp: placed_def)
  from waitListAdd_spec [OF winv_pools [OF inv] this a(3,2)] obtain w' where
    run: "waitListAdd (Some a) w = Inr (0, w')" and p: "pools w' as (a # ws)" and w': "w' = w\<lparr>links := links w'\<rparr>"
    by blast
  have "winv as (a # ws) X Y (w\<lparr>links := links w'\<rparr>)"
    by (rule winv_links [OF inv]) (use p w' in simp)
  from Q [OF this] w' have "Q 0 w'" by simp
  with run show ?thesis by (simp add: wpe_def)
qed

lemma AppListAdd_winv:
  assumes inv: "winv as ws X Y w" and a: "placed w a t" "a \<notin> set as \<union> set ws" "a < next_addr w"
    and Q: "\<And>l. winv (a # as) ws X Y (w\<lparr>links := l\<rparr>) \<Longrightarrow> Q 0 (w\<lparr>links := l\<rparr>)"
  shows "wpe E (AppListAdd (Some a)) Q w"
proof -
  from a(1) obtain c where "conns w a = Some c" by (auto simp: placed_def)
  from AppListAdd_spec [OF winv_pools [OF inv] this a(3,2)] obtain w' where
    run: "AppListAdd (Some a) w = Inr (0, w')" and p: "pools w' (a # as) ws" and w': "w' = w\<lparr>links := links w'\<rparr>"
    by blast
  have "winv (a # as) ws X Y (w\<lparr>links := links w'\<rparr>)"
    by (rule winv_links [OF inv]) (use p w' in simp)
  from Q [OF this] w' have "Q 0 w'" by simp
  with run show ?thesis by (simp add: wpe_def)
qed

lemma zero_tunnel_ok [simp]:
  "priv_sock zero_tunnel = None" "remote_sock zero_tunnel = None"
  "phase_ok (zero_tunnel\<lparr>t_state := tunnel_waitting\<rparr>)" "phase_ok zero_tunnel" "creds_ok zero_tunnel"
  by (simp_all add: zero_tunnel_def creds_ok_def phase_ok_def)

lemma wpe_malloc_winv:
  assumes "winv as ws X Y w"
  shows "wpe E malloc Q w = Q True (w\<lparr>allocs := Suc (allocs w), live := live w + 1\<rparr>)"
  using winv_oom [OF assms] by (simp add: wp)

section \<open>Parked places and tunnels\<close>

lemma getWaitobj_new_safe:
  assumes inv: "winv as ws X Y w"
  shows "wpe crashes (getWaitobjFrList_new fd) (\<lambda>p w'. extends w w' \<and>
     (\<exists>a t ws'. p = Some a \<and> placed w' a t \<and> winv as ws' X Y w')) w" (is "wpe _ _ ?Q w")
proof -
  let ?T = "zero_tunnel\<lparr>t_state := tunnel_waitting, t_status := tmptun_is_wait\<rparr>"
  let ?w = "w\<lparr>allocs := Suc (Suc (allocs w)), live := live w + 1 + 1\<rparr>"
  have inv': "winv as ws X Y ?w" using inv by simp
  have "wpe crashes (bnd (new_tunnel ?T) (\<lambda>tun. bnd (new_conn \<lparr>c_tunnel = tun\<rparr>)
      (\<lambda>p. bnd (waitListAdd p) (\<lambda>_. ret p)))) ?Q ?w"
  proof (rule new_pair [OF inv'])
    fix a t w'
    assume w': "winv as ws X Y w'" "placed w' a t" "extends ?w w'" "a \<notin> set as \<union> set ws" "a < next_addr w'"
    show "wpe crashes (bnd (waitListAdd (Some a)) (\<lambda>_. ret (Some a))) ?Q w'"
      unfolding wp_fun
      by (rule waitListAdd_winv [OF w'(1,2,4,5)]) (use w'(2,3) in \<open>auto simp: extends_def placed_def\<close>)
  qed simp_all
  then show ?thesis
    using winv_oom [OF inv] by (simp add: getWaitobjFrList_new_def wp_fun wpe_malloc)
qed

lemma getWaitobj_safe:
  assumes inv: "winv as ws X Y w"
  shows "wpe crashes (getWaitobjFrList fd) (\<lambda>p w'. extends w w' \<and>
     (\<exists>a t ws'. p = Some a \<and> placed w' a t \<and> winv as ws' X Y w')) w" (is "wpe _ _ ?Q w")
proof -
  note new = getWaitobj_new_safe [OF inv, of fd]
  have found: "wpe crashes (bnd (waitListFnd None waitCompare) (\<lambda>p. if p \<noteq> None then
       bnd (conn_upd p (\<lambda>t. t\<lparr>t_state := tunnel_waitting\<rparr>)) (\<lambda>_.
       bnd (conn_upd p (\<lambda>t. t\<lparr>t_status := tmptun_is_wait\<rparr>)) (\<lambda>_. ret p))
     else getWaitobjFrList_new fd)) ?Q w"
    unfolding wp_fun
  proof (rule wpe_conseq [OF looks_for_wait [OF winv_pools [OF inv] looks_for_status [OF inv]]], simp,
      rule waitCompare_def, elim conjE)
    fix p w1
    assume w1: "w1 = w" and p: "\<forall>x. p = Some x \<longrightarrow> x \<in> set ws \<and>
      (\<exists>t T. placed w x t \<and> tunnels w t = Some T \<and> t_status T = tmptun_is_free)"
    show "wpe crashes (if p \<noteq> None then
       bnd (conn_upd p (\<lambda>t. t\<lparr>t_state := tunnel_waitting\<rparr>)) (\<lambda>_.
       bnd (conn_upd p (\<lambda>t. t\<lparr>t_status := tmptun_is_wait\<rparr>)) (\<lambda>_. ret p))
     else getWaitobjFrList_new fd) ?Q w1"
    proof (cases p)
      case None
      with new w1 show ?thesis by simp
    next
      case (Some a)
      with p obtain t T where a: "placed w a t" "tunnels w t = Some T" by auto
      let ?T = "T\<lparr>t_state := tunnel_waitting, t_status := tmptun_is_wait\<rparr>"
      let ?w = "w\<lparr>tunnels := (tunnels w)(t \<mapsto> ?T)\<rparr>"
      have ok: "winv as ws X Y ?w"
        by (rule winv_tunnel_upd [OF winv_mono [OF inv] a(2)])
           (use winv_tunnel(1,3) [OF inv a(2)] in \<open>auto simp: phase_ok_def peers_ok_def\<close>)
      have "extends w ?w" "placed ?w a t" using a by (auto simp: extends_def placed_def)
      with ok have fin: "?Q (Some a) ?w" by blast
      obtain c where "conns w a = Some c" "c_tunnel c = Some t" by (rule placed_conn [OF a(1)])
      with fin a w1 Some show ?thesis
        by (simp add: wp_fun wpe_conn_upd wpe_tunnel_upd)
    qed
  qed
  show ?thesis unfolding getWaitobjFrList_def wp_fun
    using new found by (simp add: wpe_ListEmpty [OF winv_pools [OF inv]])
qed

lemma getTarget_new_safe:
  assumes inv: "winv as ws X Y w"
  shows "wpe crashes (getTargetFrList_new fd) (\<lambda>p w'. extends w w' \<and>
     (\<exists>a t as'. p = Some a \<and> placed w' a t \<and> winv as' ws X Y w')) w" (is "wpe _ _ ?Q w")
proof -
  let ?T = "zero_tunnel\<lparr>t_status := tunn_is_idle\<rparr>"
  let ?w = "w\<lparr>allocs := Suc (Suc (allocs w)), live := live w + 1 + 1\<rparr>"
  have inv': "winv as ws X Y ?w" using inv by simp
  have "wpe crashes (bnd (new_tunnel ?T) (\<lambda>tun. bnd (new_conn \<lparr>c_tunnel = tun\<rparr>)
      (\<lambda>p. bnd (AppListAdd p) (\<lambda>_. ret p)))) ?Q ?w"
  proof (rule new_pair [OF inv'])
    fix a t w'
    assume w': "winv as ws X Y w'" "placed w' a t" "extends ?w w'" "a \<notin> set as \<union> set ws" "a < next_addr w'"
    show "wpe crashes (bnd (AppListAdd (Some a)) (\<lambda>_. ret (Some a))) ?Q w'"
      unfolding wp_fun
      by (rule AppListAdd_winv [OF w'(1,2,4,5)]) (use w'(2,3) in \<open>auto simp: extends_def placed_def\<close>)
  qed simp_all
  then show ?thesis
    using winv_oom [OF inv] by (simp add: getTargetFrList_new_def wp_fun wpe_malloc)
qed

text \<open>
  A tunnel that is taken again for a private connection is at the start of a handshake
  before \<open>read_count\<close> is reset: until then it is exempt.
\<close>

lemma getTarget_safe:
  assumes inv: "winv as ws {} {} w"
  shows "wpe crashes (getTargetFrList fd pr) (\<lambda>p w'. extends w w' \<and>
     (\<exists>a t as' ws'. p = Some a \<and> placed w' a t \<and> winv as' ws' {} {t} w')) w" (is "wpe _ _ ?Q w")
proof -
  have new: "wpe crashes (getTargetFrList_new fd) ?Q w"
    by (rule wpe_conseq [OF getTarget_new_safe [OF inv]]) (blast intro: winv_mono)
  have wait: "wpe crashes (getWaitobjFrList fd) ?Q w"
    by (rule wpe_conseq [OF getWaitobj_safe [OF inv]]) (blast intro: winv_mono)
  have upd: "winv as ws {} {t} (w\<lparr>tunnels := (tunnels w)(t \<mapsto> U)\<rparr>) \<and> extends w (w\<lparr>tunnels := (tunnels w)(t \<mapsto> U)\<rparr>)
      \<and> placed (w\<lparr>tunnels := (tunnels w)(t \<mapsto> U)\<rparr>) a t"
    if a: "placed w a t" "tunnels w t = Some T" and U: "priv_sock U = priv_sock T" "remote_sock U = remote_sock T"
      "creds_ok U = creds_ok T" for a t T U
  proof (intro conjI)
    show "winv as ws {} {t} (w\<lparr>tunnels := (tunnels w)(t \<mapsto> U)\<rparr>)"
      by (rule winv_tunnel_upd [OF winv_mono [OF inv] a(2)])
         (use winv_tunnel(1,3) [OF inv a(2)] U in \<open>auto simp: peers_ok_def\<close>)
  qed (use a U in \<open>auto simp: extends_def placed_def\<close>)
  have idle: "wpe crashes (bnd (AppListFnd None appCompare) (\<lambda>p. if p \<noteq> None then
         bnd (conn_upd p (\<lambda>t. t\<lparr>t_status := tunn_is_run\<rparr>)) (\<lambda>_.
         bnd (conn_tunnel p) (\<lambda>t. bnd (load socks (priv_sock t)) (\<lambda>_. ret p)))
       else getWaitobjFrList fd)) ?Q w"
    unfolding wp_fun
  proof (rule wpe_conseq [OF looks_for_App [OF winv_pools [OF inv] looks_for_status [OF inv]]], simp,
      rule appCompare_def, elim conjE)
    fix p w1
    assume w1: "w1 = w" and p: "\<forall>x. p = Some x \<longrightarrow> x \<in> set as \<and>
      (\<exists>t T. placed w x t \<and> tunnels w t = Some T \<and> t_status T = tunn_is_idle)"
    show "wpe crashes (if p \<noteq> None then
         bnd (conn_upd p (\<lambda>t. t\<lparr>t_status := tunn_is_run\<rparr>)) (\<lambda>_.
         bnd (conn_tunnel p) (\<lambda>t. bnd (load socks (priv_sock t)) (\<lambda>_. ret p)))
       else getWaitobjFrList fd) ?Q w1"
    proof (cases p)
      case None
      with wait w1 show ?thesis by simp
    next
      case (Some a)
      with p obtain t T where a: "placed w a t" "tunnels w t = Some T" by auto
      have "\<exists>s. socks w b = Some s" if "priv_sock T = Some b" for b
        using winv_priv [OF inv a(2) _ that] by auto
      moreover obtain c where "conns w a = Some c" "c_tunnel c = Some t" by (rule placed_conn [OF a(1)])
      ultimately show ?thesis using upd [OF a, of "T\<lparr>t_status := tunn_is_run\<rparr>"] a w1 Some
        by (cases "priv_sock T")
           (auto simp: wp_fun wpe_conn_upd wpe_tunnel_upd wpe_conn_tunnel wpe_load, blast)
    qed
  qed
  have unused: "wpe crashes (bnd (AppListFnd None appCompare1) (\<lambda>p. if p \<noteq> None then
         bnd (conn_upd p (\<lambda>t. t\<lparr>t_status := tunn_is_run\<rparr>)) (\<lambda>_.
         bnd (conn_upd p (\<lambda>t. t\<lparr>t_state := open_state\<rparr>)) (\<lambda>_. ret p))
       else getTargetFrList_new fd)) ?Q w"
    unfolding wp_fun
  proof (rule wpe_conseq [OF looks_for_App [OF winv_pools [OF inv] looks_for_status [OF inv]]], simp,
      rule appCompare1_def, elim conjE)
    fix p w1
    assume w1: "w1 = w" and p: "\<forall>x. p = Some x \<longrightarrow> x \<in> set as \<and>
      (\<exists>t T. placed w x t \<and> tunnels w t = Some T \<and> t_status T = tunn_is_free)"
    show "wpe crashes (if p \<noteq> None then
         bnd (conn_upd p (\<lambda>t. t\<lparr>t_status := tunn_is_run\<rparr>)) (\<lambda>_.
         bnd (conn_upd p (\<lambda>t. t\<lparr>t_state := open_state\<rparr>)) (\<lambda>_. ret p))
       else getTargetFrList_new fd) ?Q w1"
    proof (cases p)
      case None
      with new w1 show ?thesis by simp
    next
      case (Some a)
      with p obtain t T where a: "placed w a t" "tunnels w t = Some T" by auto
      obtain c where "conns w a = Some c" "c_tunnel c = Some t" by (rule placed_conn [OF a(1)])
      with upd [OF a, of "T\<lparr>t_status := tunn_is_run, t_state := open_state\<rparr>"] a w1 Some show ?thesis
        by (auto simp: wp_fun wpe_conn_upd wpe_tunnel_upd)
    qed
  qed
  show ?thesis unfolding getTargetFrList_def wp_fun
    using new wait idle unused by (simp add: wpe_ListEmpty [OF winv_pools [OF inv]])
qed

section \<open>A new connection\<close>

lemma cap_ok_INIT: "cap_ok INIT_BUFF_CAP"
  unfolding cap_ok_def INIT_BUFF_CAP_def by (intro exI [of _ 10]) simp

lemma env_step_fields:
  assumes "env_step w w'"
  shows "socks w' = socks w" "tunnels w' = tunnels w" "conns w' = conns w" "next_addr w' = next_addr w"
    "fd_unused w' fd = fd_unused w fd"
  using assms by (cases w; cases w'; simp add: env_step_def fd_unused_def)+

lemma sock_create_safe:
  assumes inv: "winv as ws X Y w" and fd: "fd_unused w fd" and T: "tunnels w t = Some T"
  shows "wpe E (sock_create fd st pr (Some t)) (\<lambda>p w'. winv as ws X Y w' \<and> tunnels w' = tunnels w \<and>
     (\<exists>a s. p = Some a \<and> socks w' a = Some s \<and> s_tunnel s = Some t \<and> ispriv s = pr)) w" (is "wpe E _ ?Q w")
proof -
  let ?new = "\<lambda>rb wb. new_sock \<lparr>s_fd = fd, s_read_handle = tunnel_read_handle_p, s_write_handle = tunnel_write_handle_p,
               read_buff = rb, write_buff = wb, s_tunnel = Some t, s_state = st,
               ispriv = pr, iskeepalive = 0\<rparr>"
  have new: "wpe E (?new rb wb) ?Q v" if "env_step w v" "wf_buff rb" "wf_buff wb" for v rb wb
  proof -
    let ?s = "\<lparr>s_fd = fd, s_read_handle = tunnel_read_handle_p, s_write_handle = tunnel_write_handle_p,
               read_buff = rb, write_buff = wb, s_tunnel = Some t, s_state = st,
               ispriv = pr, iskeepalive = 0\<rparr>"
    have "winv as ws X Y (v\<lparr>socks := (socks v)(next_addr v \<mapsto> ?s), next_addr := Suc (next_addr v)\<rparr>)"
      by (rule winv_new_sock [where T = T])
         (use that T fd inv env_step_fields [OF that(1)] winv_env_step [OF that(1)] in simp_all)
    with env_step_fields [OF that(1)] show ?thesis by (simp add: wpe_new)
  qed
  have no: "\<not> (\<exists>k. oom v k)" if "env_step w v" for v
    using winv_oom [OF inv] env_step_same [OF that] by simp
  have create: "wpe E (buff_create INIT_BUFF_CAP) (\<lambda>r v'. \<exists>b. r = Some b \<and> env_step w v' \<and> wf_buff b) v"
    if "env_step w v" for v
    by (rule wpe_faults [OF wpe_conseq [OF buff_create_spec [OF cap_ok_INIT]]])
       (use no [OF that] env_step_trans [OF that] in \<open>auto split: option.splits\<close>)
  have second: "wpe E (bnd (buff_create INIT_BUFF_CAP) (\<lambda>wb. case wb of
         None \<Rightarrow> bnd (buff_release rb) (\<lambda>_. bnd free (\<lambda>_. ret None))
       | Some wb \<Rightarrow> ?new rb wb)) ?Q v" if "env_step w v" "wf_buff rb" for v rb
    unfolding wp_fun by (rule wpe_conseq [OF create [OF that(1)]]) (use new that(2) in auto)
  have first: "wpe E (bnd (buff_create INIT_BUFF_CAP) (\<lambda>rb. case rb of None \<Rightarrow> ret None
       | Some rb \<Rightarrow> bnd (buff_create INIT_BUFF_CAP) (\<lambda>wb. case wb of
         None \<Rightarrow> bnd (buff_release rb) (\<lambda>_. bnd free (\<lambda>_. ret None))
       | Some wb \<Rightarrow> ?new rb wb))) ?Q v" if "env_step w v" for v
    unfolding wpe_bnd_fun [of _ "buff_create INIT_BUFF_CAP" "\<lambda>rb. case rb of None \<Rightarrow> ret None | Some rb \<Rightarrow> _ rb"]
    by (rule wpe_conseq [OF create [OF that]]) (use second in auto)
  show ?thesis unfolding sock_create_def
    using winv_oom [OF inv] first [of "w\<lparr>allocs := Suc (allocs w), live := live w + 1\<rparr>"]
    by (simp add: wpe_bnd wpe_malloc)
qed

lemma epoll_add_safe:
  assumes "winv as ws X Y w" and "socks w a = Some s"
  shows "wpe E (epoll_add (Some a)) (\<lambda>_ w'. winv as ws X Y w') w"
  using assms winv_epoll_set [OF assms] by (simp add: epoll_add_def wp)

text \<open>The new socket becomes one of the two of its tunnel; the handshake position is reset.\<close>

lemma attach_end:
  assumes inv: "winv as ws {} {t} w" and T: "tunnels w t = Some T" and s: "socks w a = Some s"
    and U: "peers_ok w t U" "phase_ok U" "creds_ok U"
  shows "wpe crashes (epoll_add (Some a)) (\<lambda>_. world_ok) (w\<lparr>tunnels := (tunnels w)(t \<mapsto> U)\<rparr>)"
proof -
  have "winv as ws {} {} (w\<lparr>tunnels := (tunnels w)(t \<mapsto> U)\<rparr>)"
    by (rule winv_tunnel_upd [OF winv_mono [OF inv] T]) (use U in auto)
  then show ?thesis
    by (rule wpe_conseq [OF epoll_add_safe [where a = a and s = s]]) (use s in \<open>auto simp: world_ok_def\<close>)
qed

lemma attach_priv_safe:
  assumes inv: "winv as ws {} {t} w" and T: "tunnels w t = Some T"
    and s: "socks w a = Some s" "s_tunnel s = Some t" "ispriv s \<noteq> 0"
  shows "wpe crashes (attach_priv (Some t) (Some a)) (\<lambda>_. world_ok) w"
proof -
  let ?U = "T\<lparr>t_state := open_state, priv_sock := Some a, read_count := 0, t_closed := 0\<rparr>"
  have "peers_ok w t ?U" "phase_ok ?U" "creds_ok ?U"
    using winv_tunnel(1,3) [OF inv T] s by (simp_all add: peers_ok_def peer_ok_def phase_ok_def)
  from attach_end [OF inv T s(1) this] T show ?thesis
    by (simp add: attach_priv_def wp_fun wpe_tunnel_upd)
qed

lemma attach_remote_safe:
  assumes inv: "winv as ws {} {t} w" and T: "tunnels w t = Some T"
    and s: "socks w a = Some s" "s_tunnel s = Some t" "ispriv s = 0"
  shows "wpe crashes (attach_remote (Some t) (Some a)) (\<lambda>_. world_ok) w"
proof -
  let ?V = "\<lambda>x. T\<lparr>remote_sock := Some a, read_count := 0, t_closed := 0, t_state := x\<rparr>"
  have ok: "peers_ok w t (?V x)" "creds_ok (?V x)" for x
    using winv_tunnel(1,3) [OF inv T] s by (simp_all add: peers_ok_def peer_ok_def)
  have ph: "phase_ok (?V tunnel_waitting)" "phase_ok (?V connected_state)"
    by (simp_all add: phase_ok_def)
  from attach_end [OF inv T s(1) ok(1) ph(1) ok(2)] attach_end [OF inv T s(1) ok(1) ph(2) ok(2)] T
  show ?thesis
    by (cases "t_status T = tmptun_is_wait") (simp_all add: attach_remote_def wp_fun wpe_tunnel_upd wpe_load)
qed

lemma tunnel_create_safe:
  assumes inv: "winv as ws {} {} w" and fd: "fd_unused w fd"
  shows "wpe crashes (tunnel_create fd pr) (\<lambda>_. world_ok) w"
proof -
  let ?w = "w\<lparr>fd_nonblock := (fd_nonblock w)(fd := True), fd_keepalive := (fd_keepalive w)(fd := True)\<rparr>"
  let ?attach = "\<lambda>tunnel new. bnd (if pr \<noteq> 0 then attach_priv tunnel new else attach_remote tunnel new) (\<lambda>_. ret tunnel)"
  let ?make = "\<lambda>tunnel. bnd (sock_create fd sock_connected pr tunnel) (\<lambda>new. if new = None then
       bnd (free_tunnel tunnel) (\<lambda>_. bnd (sys_close fd) (\<lambda>_. ret None)) else ?attach tunnel new)"
  let ?choose = "bnd (getTargetFrList fd pr) (\<lambda>p. if p = None then bnd (sys_close fd) (\<lambda>_. ret None)
     else bnd (load conns p) (\<lambda>c. ?make (c_tunnel c)))"
  have make: "wpe crashes (?make (Some t)) (\<lambda>_. world_ok) w1"
    if inv1: "winv as1 ws1 {} {t} w1" and fd1: "fd_unused w1 fd" and T: "tunnels w1 t = Some T" for as1 ws1 w1 t T
    unfolding wp_fun
  proof (rule wpe_conseq [OF sock_create_safe [OF inv1 fd1 T]], elim conjE exE)
    fix new w2 a s
    assume w2: "winv as1 ws1 {} {t} w2" "tunnels w2 = tunnels w1" and new: "new = Some a"
      and s: "socks w2 a = Some s" "s_tunnel s = Some t" "ispriv s = pr"
    from T w2 have T': "tunnels w2 t = Some T" by simp
    show "wpe crashes (if new = None then bnd (free_tunnel (Some t)) (\<lambda>_. bnd (sys_close fd) (\<lambda>_. ret None))
        else ?attach (Some t) new) (\<lambda>_. world_ok) w2"
      using attach_priv_safe [OF w2(1) T' s(1,2)] attach_remote_safe [OF w2(1) T' s(1,2)] s(3) new
      by (simp add: wp_fun)
  qed
  have inv': "winv as ws {} {} ?w" using inv by simp
  have "wpe crashes ?choose (\<lambda>_. world_ok) ?w"
    unfolding wp_fun
  proof (rule wpe_conseq [OF getTarget_safe [OF inv']], elim conjE exE)
    fix p w1 a t as1 ws1
    assume w1: "extends ?w w1" "winv as1 ws1 {} {t} w1" and p: "p = Some a" "placed w1 a t"
    obtain c where c: "conns w1 a = Some c" "c_tunnel c = Some t" by (rule placed_conn [OF p(2)])
    obtain T where T: "tunnels w1 t = Some T" using winv_conn [OF w1(2) c(1)] c(2) by auto
    have "fd_unused w1 fd" using extends_unused [OF w1(1)] fd by (simp add: fd_unused_def)
    from make [OF w1(2) this T] p(1) c
    show "wpe crashes (if p = None then bnd (sys_close fd) (\<lambda>_. ret None)
        else bnd (load conns p) (\<lambda>c. ?make (c_tunnel c))) (\<lambda>_. world_ok) w1"
      by (simp add: wpe_bnd wpe_load cong: if_cong)
  qed
  then show ?thesis
    using fd by (simp add: tunnel_create_def Let_def wpe_bnd sock_nonblocking_def sock_keepalive_def
        wpe_gets wpe_kernel wpe_ret fd_unused_def cong: if_cong)
qed

lemma accept_handle_safe:
  assumes "world_ok w"
  shows "wpe crashes (accept_handle k pr) (\<lambda>_. world_ok) w"
proof -
  from assms obtain as ws where inv: "winv as ws {} {} w" by (auto simp: world_ok_def)
  show ?thesis
  proof (cases k)
    case (Inr e)
    with inv show ?thesis by (simp add: accept_handle_def wp world_ok_def, blast)
  next
    case (Inl fd)
    show ?thesis
    proof (cases "fd < 0 \<or> fd_open w fd")
      case True
      with inv Inl show ?thesis by (simp add: accept_handle_def wp world_ok_def, blast)
    next
      case False
      let ?w = "w\<lparr>fd_open := (fd_open w)(fd := True), epoll := (epoll w)(fd := None)\<rparr>"
      let ?w' = "?w\<lparr>fd_nonblock := (fd_nonblock w)(fd := False), fd_keepalive := (fd_keepalive w)(fd := False),
                wire := (wire w)(fd := [])\<rparr>"
      from False have no: "\<not> fd_open w fd" by simp
      have inv': "winv as ws {} {} ?w'" using winv_fd_open(1) [OF inv no] by simp
      have "fd_unused ?w' fd" using winv_fd_open(2) [OF inv no] by (simp add: fd_unused_def)
      from tunnel_create_safe [OF inv' this] False Inl show ?thesis
        by (simp add: accept_handle_def wpe_bnd wpe_sys_accept wp_fun)
    qed
  qed
qed

end
