(* ===== verification/Safety.thy ===== *)
theory Safety
  imports Placing
begin

text \<open>
  The event handlers and the loop keep the invariant.  A turn of the loop that gets one event
  runs into no use of a released object, no failed assertion and no endless walk; a turn with
  several events can meet a socket that an earlier event of the same batch has released, and
  into that fault only.
\<close>

section \<open>Moving a socket to another tunnel\<close>

lemma winv_sock_move:
  assumes inv: "winv as ws X Y w" and s: "socks w b = Some s" and u: "tunnels w u = Some U"
    and un: "\<And>t T. tunnels w t = Some T \<Longrightarrow> t \<notin> X \<Longrightarrow> priv_sock T \<noteq> Some b \<and> remote_sock T \<noteq> Some b"
  shows "winv as ws X Y (w\<lparr>socks := (socks w)(b \<mapsto> s\<lparr>s_tunnel := Some u\<rparr>)\<rparr>)"
proof -
  let ?s = "s\<lparr>s_tunnel := Some u\<rparr>" let ?w = "w\<lparr>socks := (socks w)(b \<mapsto> ?s)\<rparr>"
  have so: "socks_ok ?w"
    using inv s u unfolding winv_def socks_ok_def sock_ok_def live_tunnel_def by (auto split: if_splits)
  have peer: "peer_ok ?w t d p" if "peer_ok w t d p" "p \<noteq> Some b" for t d p
    using that unfolding peer_ok_def by auto
  have to: "tunnels_ok X Y ?w"
    using inv peer un unfolding winv_def tunnels_ok_def peers_ok_def by simp
  have "interest_ok ?w fd i" if "interest_ok w fd i" for fd i
    using that s unfolding interest_ok_def by auto
  then have "registry_ok ?w" using inv unfolding winv_def registry_ok_def by simp
  with so to inv show ?thesis
    by (simp add: winv_def pools_def conns_ok_def live_tunnel_def listeners_ok_def mem_ok_def)
qed

text \<open>Only its own tunnel points to a socket.\<close>

lemma points_back:
  assumes "winv as ws X Y w" and "socks w b = Some s" and "tunnels w t = Some T" and "t \<notin> X"
    and "priv_sock T = Some b \<or> remote_sock T = Some b"
  shows "s_tunnel s = Some t" "priv_sock T = Some b \<Longrightarrow> ispriv s \<noteq> 0" "remote_sock T = Some b \<Longrightarrow> ispriv s = 0"
  using winv_tunnel(1) [OF assms(1,3,4)] assms(2,5) by (auto simp: peers_ok_def peer_ok_def)

section \<open>Giving a remote connection back\<close>

text \<open>The rest of \<open>tunnel_switch_handle\<close> once the tunnel has let go of the socket.\<close>

lemma park_safe:
  assumes inv: "winv as ws {} {} w" and s: "socks w a = Some s" "ispriv s = 0"
    and un: "\<And>t T. tunnels w t = Some T \<Longrightarrow> priv_sock T \<noteq> Some a \<and> remote_sock T \<noteq> Some a"
  shows "wpe crashes (bnd (getWaitobjFrList fd) (\<lambda>conn1.
         bnd (conn_upd conn1 (\<lambda>t. t\<lparr>remote_sock := Some a\<rparr>)) (\<lambda>_.
         bnd (load conns conn1) (\<lambda>c.
         bnd (sock_upd (Some a) (\<lambda>s. s\<lparr>s_tunnel := c_tunnel c\<rparr>)) (\<lambda>_.
         bnd (conn_upd conn1 (\<lambda>t. t\<lparr>t_state := tunnel_waitting\<rparr>)) (\<lambda>_.
         conn_upd conn1 (\<lambda>t. t\<lparr>t_status := tmptun_is_alive\<rparr>))))))) (\<lambda>_. world_ok) w"
  unfolding wp_fun
proof (rule wpe_conseq [OF getWaitobj_safe [OF inv]], elim conjE exE)
  fix p w1 q u ws1
  assume ext: "extends w w1" and p: "p = Some q" "placed w1 q u" and inv1: "winv as ws1 {} {} w1"
  obtain c where c: "conns w1 q = Some c" "c_tunnel c = Some u" by (rule placed_conn [OF p(2)])
  obtain U where U: "tunnels w1 u = Some U" using winv_conn [OF inv1 c(1)] c(2) by auto
  from ext s have s1: "socks w1 a = Some s" by (simp add: extends_def)
  have un1: "priv_sock T \<noteq> Some a \<and> remote_sock T \<noteq> Some a" if T: "tunnels w1 t = Some T" for t T
  proof (rule ccontr)
    assume pt: "\<not> ?thesis"
    then have "s_tunnel s = Some t" using points_back(1) [OF inv1 s1 T] by auto
    then obtain T0 where T0: "tunnels w t = Some T0" using winv_sock_tunnel [OF inv s(1)] by auto
    from ext T0 have "\<exists>T'. tunnels w1 t = Some T' \<and> priv_sock T' = priv_sock T0 \<and> remote_sock T' = remote_sock T0"
      unfolding extends_def by blast
    with T have "priv_sock T = priv_sock T0" "remote_sock T = remote_sock T0" by auto
    with un [OF T0] pt show False by simp
  qed
  let ?s = "s\<lparr>s_tunnel := Some u\<rparr>" let ?w = "w1\<lparr>socks := (socks w1)(a \<mapsto> ?s)\<rparr>"
  let ?U = "U\<lparr>remote_sock := Some a, t_state := tunnel_waitting, t_status := tmptun_is_alive\<rparr>"
  have inv2: "winv as ws1 {u} {} ?w"
    by (rule winv_sock_move [OF winv_mono [OF inv1] s1 U]) (use un1 in auto)
  have "winv as ws1 {} {} (?w\<lparr>tunnels := (tunnels ?w)(u \<mapsto> ?U)\<rparr>)"
  proof (rule winv_tunnel_upd [OF winv_mono [OF inv2]])
    show "tunnels ?w u = Some U" using U by simp
    show "peers_ok ?w u ?U"
      using winv_tunnel(1) [OF inv1 U] un1 [OF U] s(2) by (auto simp: peers_ok_def peer_ok_def)
    show "phase_ok ?U" by (simp add: phase_ok_def)
    show "creds_ok ?U" using winv_tunnel(3) [OF inv1 U] by simp
  qed auto
  then have "world_ok (?w\<lparr>tunnels := (tunnels ?w)(u \<mapsto> ?U)\<rparr>)" unfolding world_ok_def by blast
  with p(1) c U s1
  show "wpe crashes (conn_upd p (\<lambda>t. t\<lparr>remote_sock := Some a\<rparr>)) (\<lambda>_. wpe crashes (load conns p) (\<lambda>c.
      wpe crashes (sock_upd (Some a) (\<lambda>s. s\<lparr>s_tunnel := c_tunnel c\<rparr>)) (\<lambda>_.
      wpe crashes (conn_upd p (\<lambda>t. t\<lparr>t_state := tunnel_waitting\<rparr>)) (\<lambda>_.
      wpe crashes (conn_upd p (\<lambda>t. t\<lparr>t_status := tmptun_is_alive\<rparr>)) (\<lambda>_. world_ok))))) w1"
    by (simp add: wpe_conn_upd wpe_tunnel_upd wpe_load wpe_sock_upd)
qed

lemma switch_handle_safe:
  assumes inv: "winv as ws {} {} w" and s: "socks w a = Some s" and T: "tunnels w t = Some T"
    and run: "t_status T = tunn_is_run"
  shows "wpe crashes (tunnel_switch_handle (Some a) (Some t)) (\<lambda>_. world_ok) w"
proof -
  let ?park = "bnd (getWaitobjFrList (s_fd s)) (\<lambda>conn1.
         bnd (conn_upd conn1 (\<lambda>t. t\<lparr>remote_sock := Some a\<rparr>)) (\<lambda>_.
         bnd (load conns conn1) (\<lambda>c.
         bnd (sock_upd (Some a) (\<lambda>s. s\<lparr>s_tunnel := c_tunnel c\<rparr>)) (\<lambda>_.
         bnd (conn_upd conn1 (\<lambda>t. t\<lparr>t_state := tunnel_waitting\<rparr>)) (\<lambda>_.
         conn_upd conn1 (\<lambda>t. t\<lparr>t_status := tmptun_is_alive\<rparr>))))))"
  let ?rest = "bnd (load tunnels (Some t)) (\<lambda>t1. if Some a = remote_sock t1 then
         bnd (if t_status t1 = tunn_is_run then
                bnd (tunnel_upd (Some t) (\<lambda>t. t\<lparr>t_status := tunn_is_idle\<rparr>)) (\<lambda>_.
                bnd (tunnel_upd (Some t) (\<lambda>t. t\<lparr>remote_sock := None\<rparr>)) (\<lambda>_.
                bnd (load tunnels (Some t)) (\<lambda>t. bnd (load socks (priv_sock t)) (\<lambda>_. ret ()))))
              else ret ()) (\<lambda>_. ?park)
       else ret ())"
  have ok: "world_ok w'" if "kept as ws {} {} w w'" for w'
    using keptD(1) [OF that] by (auto simp: world_ok_def)
  have mod: "wpe crashes (epoll_modify (Some a) x y) (\<lambda>_. world_ok) w" for x y
    by (rule wpe_conseq [OF epoll_modify_safe [OF inv s]]) (rule ok)
  have rest: "wpe crashes ?rest (\<lambda>_. world_ok) w1" if k: "kept as ws {} {} w w1" for w1
  proof -
    note inv1 = keptD(1) [OF k]
    obtain s1 where s1: "socks w1 a = Some s1" "ispriv s1 = ispriv s"
      using data_step_sock [OF keptD(2) [OF k] s] by metis
    have T1: "tunnels w1 t = Some T" using keptD(2) [OF k] T by (simp add: data_step_def)
    show ?thesis
    proof (cases "remote_sock T = Some a")
      case False
      with T1 ok [OF k] show ?thesis by (auto simp: wp_fun wpe_load)
    next
      case True
      let ?T = "T\<lparr>t_status := tunn_is_idle, remote_sock := None\<rparr>"
      let ?w = "w1\<lparr>tunnels := (tunnels w1)(t \<mapsto> ?T)\<rparr>"
      have inv2: "winv as ws {} {} ?w"
        by (rule winv_tunnel_upd [OF winv_mono [OF inv1] T1])
           (use winv_tunnel [OF inv1 T1] in \<open>auto simp: peers_ok_def\<close>)
      note ptb = points_back [OF inv1 s1(1)]
      have np: "ispriv s1 = 0" "s_tunnel s1 = Some t" using ptb [OF T1] True by auto
      have s2: "socks ?w a = Some s1" using s1 by simp
      have un: "priv_sock U \<noteq> Some a \<and> remote_sock U \<noteq> Some a" if U: "tunnels ?w u = Some U" for u U
        using points_back [OF inv2 s2 U] np U by (auto split: if_splits)
      have "\<exists>s. socks w1 b = Some s" if "priv_sock T = Some b" for b
        using winv_priv [OF inv1 T1 _ that] by auto
      with park_safe [OF inv2 s2 np(1) un] True T1 run s1(1) show ?thesis
        by (cases "priv_sock T") (auto simp: wp_fun wpe_load wpe_tunnel_upd)
    qed
  qed
  have "wpe crashes (epoll_modify (Some a) False True) (\<lambda>_. wpe crashes ?rest (\<lambda>_. world_ok)) w"
    by (rule wpe_conseq [OF epoll_modify_safe [OF inv s]]) (rule rest)
  with mod s show ?thesis
    by (simp add: tunnel_switch_handle_def wp_fun wpe_load Let_def cong: if_cong)
qed

section \<open>Read and write events\<close>

lemma kept_world_ok: "kept as ws {} {} w w' \<Longrightarrow> world_ok w'"
  by (auto simp: kept_def world_ok_def)

lemma force_shutdown_ok:
  assumes "winv as ws {} {} w" and "socks w a \<noteq> None"
  shows "wpe E (sock_force_shutdown (Some a)) (\<lambda>_. world_ok) w"
proof -
  from assms(2) obtain s where s: "socks w a = Some s" by auto
  obtain t T where t: "s_tunnel s = Some t" "tunnels w t = Some T" by (rule winv_sock_tunnel [OF assms(1) s])
  show ?thesis
    by (rule wpe_conseq [OF force_shutdown_safe [OF assms(1) s t(1)]]) (auto simp: world_ok_def)
qed

lemma tunnel_shutdown_ok:
  assumes "winv as ws {} {} w" and "tunnels w t = Some T"
  shows "wpe crashes (tunnel_shutdown (Some t) (Some a)) (\<lambda>_. world_ok) w"
  by (rule wpe_conseq [OF tunnel_shutdown_safe [OF assms]]) (auto simp: world_ok_def)

text \<open>A handshake handler, and the forced shutdown when it fails.\<close>

lemma handle_or_shutdown:
  assumes h: "wpe crashes h (\<lambda>_ w'. winv as ws {} {} w' \<and> same_shape w w') w" and a: "socks w a \<noteq> None"
  shows "wpe crashes (bnd h (\<lambda>r. if r < (0 :: int) then sock_force_shutdown (Some a) else ret ())) (\<lambda>_. world_ok) w"
  unfolding wp_fun
proof (rule wpe_conseq [OF h], elim conjE)
  fix r :: int and w'
  assume w': "winv as ws {} {} w'" "same_shape w w'"
  from a obtain s where "socks w a = Some s" by auto
  from same_shape_sock [OF w'(2) this] have "socks w' a \<noteq> None" by auto
  with force_shutdown_ok [OF w'(1)] w'(1)
  show "wpe crashes (if r < 0 then sock_force_shutdown (Some a) else ret ()) (\<lambda>_. world_ok) w'"
    by (auto simp: wpe_ret world_ok_def)
qed

lemma read_state_safe:
  assumes inv: "winv as ws {} {} w" and a: "socks w a = Some s" and T: "tunnels w t = Some T"
  shows "wpe crashes (tunnel_read_state (Some a) (Some t)) (\<lambda>_. world_ok) w"
proof (cases "t_state T")
  case open_state
  with handle_or_shutdown [OF open_handle_safe [OF inv T _ _ open_state]] a T show ?thesis
    by (simp add: tunnel_read_state_def wpe_bnd wpe_load)
next
  case auth_state
  with handle_or_shutdown [OF auth_handle_safe [OF inv T _ _ auth_state]] a T show ?thesis
    by (simp add: tunnel_read_state_def wpe_bnd wpe_load)
next
  case request_state
  with handle_or_shutdown [OF request_handle_safe [OF inv T _ _ request_state]] a T show ?thesis
    by (simp add: tunnel_read_state_def wpe_bnd wpe_load)
next
  case connecting_state
  with winv_tunnel(2) [OF inv T] show ?thesis by (simp add: phase_ok_def)
next
  case connected_state
  have "wpe crashes (tunnel_connected_handle (Some t) (Some a)) (\<lambda>r. wpe crashes
      (if r < 0 then tunnel_shutdown (Some t) (Some a) else ret ()) (\<lambda>_. world_ok)) w"
  proof (rule wpe_conseq [OF connected_handle_safe [OF inv T _ a]], simp)
    fix r :: int and w' assume k: "kept as ws {} {} w w'"
    have "tunnels w' t = Some T" using keptD(2) [OF k] T by (simp add: data_step_def)
    with tunnel_shutdown_ok [OF keptD(1) [OF k]] kept_world_ok [OF k]
    show "wpe crashes (if r < 0 then tunnel_shutdown (Some t) (Some a) else ret ()) (\<lambda>_. world_ok) w'"
      by (simp add: wpe_ret)
  qed
  with connected_state T show ?thesis by (simp add: tunnel_read_state_def wp_fun wpe_load)
next
  case tunnel_waitting
  have "wpe crashes (tunnel_waitting_handle (Some t) pr) (\<lambda>_. world_ok) w" for pr
    by (rule wpe_conseq [OF waitting_handle_safe [OF inv T]]) (auto simp: world_ok_def)
  with tunnel_waitting T a show ?thesis by (simp add: tunnel_read_state_def wp_fun wpe_load)
qed

lemma read_handle_safe:
  assumes "world_ok w" and s: "socks w a = Some s"
  shows "wpe crashes (tunnel_read_handle kr fd (Some a)) (\<lambda>_. world_ok) w"
proof -
  from assms(1) obtain as ws where inv: "winv as ws {} {} w" by (auto simp: world_ok_def)
  obtain t T where t: "s_tunnel s = Some t" "tunnels w t = Some T" by (rule winv_sock_tunnel [OF inv s])
  have "wpe crashes (on_read_buff (Some a) (buff_readfd kr)) (\<lambda>n. wpe crashes (bnd (load tunnels (Some t)) (\<lambda>_.
     bnd (gets errno_v) (\<lambda>e. if n < 0 \<and> \<not> retry_errno e then sock_shutdown (Some a)
       else if n = 0 then sock_shutdown (Some a) else tunnel_read_state (Some a) (Some t)))) (\<lambda>_. world_ok)) w"
  proof (rule wpe_conseq [OF on_read_buff_safe [OF inv s]])
    show "wpe crashes (buff_readfd kr (read_buff s)) (\<lambda>(r, b) w'. env_step w w' \<and> wf_buff b) w"
      by (rule wpe_faults [OF wpe_conseq [OF buff_readfd_spec [OF winv_sock(3) [OF inv s]]]]) auto
  next
    fix n :: int and w1 assume k: "kept as ws {} {} w w1"
    obtain s1 where s1: "socks w1 a = Some s1" by (rule data_step_sock [OF keptD(2) [OF k] s])
    have T1: "tunnels w1 t = Some T" using keptD(2) [OF k] t by (simp add: data_step_def)
    have "wpe crashes (sock_shutdown (Some a)) (\<lambda>_. world_ok) w1"
      by (rule wpe_conseq [OF sock_shutdown_safe [OF keptD(1) [OF k] s1]]) (auto simp: world_ok_def)
    with read_state_safe [OF keptD(1) [OF k] s1 T1] T1
    show "wpe crashes (bnd (load tunnels (Some t)) (\<lambda>_.
     bnd (gets errno_v) (\<lambda>e. if n < 0 \<and> \<not> retry_errno e then sock_shutdown (Some a)
       else if n = 0 then sock_shutdown (Some a) else tunnel_read_state (Some a) (Some t)))) (\<lambda>_. world_ok) w1"
      by (simp add: wpe_bnd wpe_load wpe_gets)
  qed
  with s t show ?thesis by (simp add: tunnel_read_handle_def Let_def wp_fun wpe_load cong: if_cong)
qed

lemma write_out_safe:
  assumes inv: "winv as ws {} {} w" and s: "socks w a = Some s"
  shows "wpe crashes (tunnel_write_out kw fd (Some a)) (\<lambda>_ w'. kept as ws {} {} w w') w"
proof -
  have "wpe crashes (on_write_buff (Some a) (\<lambda>b. bnd (buff_writefd kw b) (\<lambda>(n, out, b). ret ((n, out), b))))
      (\<lambda>(n, out). wpe crashes (bnd (modifies (\<lambda>w. w\<lparr>wire := (wire w)(fd := wire w fd @ out)\<rparr>)) (\<lambda>_.
       bnd (gets errno_v) (\<lambda>e. ret (n \<le> 0 \<and> \<not> retry_errno e)))) (\<lambda>_ w'. kept as ws {} {} w w')) w"
  proof (rule wpe_conseq [OF on_write_buff_safe [OF inv s]])
    show "wpe crashes (bnd (buff_writefd kw (write_buff s)) (\<lambda>(n, out, b). ret ((n, out), b)))
        (\<lambda>(r, b) w'. env_step w w' \<and> wf_buff b) w"
      unfolding wpe_bnd
      by (rule wpe_faults [OF wpe_conseq [OF buff_writefd_spec [OF winv_sock(4) [OF inv s]]]])
         (auto simp: wpe_ret)
  next
    fix r :: "int \<times> byte list" and w1 assume k: "kept as ws {} {} w w1"
    then have "kept as ws {} {} w (w1\<lparr>wire := x\<rparr>)" for x
      using data_step_trans [OF keptD(2) [OF k] data_step_epoll(3)] by (simp add: kept_def)
    then show "(case r of (n, out) \<Rightarrow> wpe crashes (bnd (modifies (\<lambda>w. w\<lparr>wire := (wire w)(fd := wire w fd @ out)\<rparr>)) (\<lambda>_.
       bnd (gets errno_v) (\<lambda>e. ret (n \<le> 0 \<and> \<not> retry_errno e)))) (\<lambda>_ w'. kept as ws {} {} w w')) w1"
      by (simp add: wpe_bnd wpe_gets wpe_modifies wpe_ret split: prod.split)
  qed
  then have "wpe crashes (on_write_buff (Some a) (\<lambda>b. bnd (buff_writefd kw b) (\<lambda>(n, out, b). ret ((n, out), b))))
      (\<lambda>x. wpe crashes (case x of (n, out) \<Rightarrow> bnd (modifies (\<lambda>w. w\<lparr>wire := (wire w)(fd := wire w fd @ out)\<rparr>)) (\<lambda>_.
       bnd (gets errno_v) (\<lambda>e. ret (n \<le> 0 \<and> \<not> retry_errno e)))) (\<lambda>_ w'. kept as ws {} {} w w')) w"
    by (rule wpe_conseq) auto
  with s kept_refl [OF inv] show ?thesis
    by (simp add: tunnel_write_out_def wpe_bnd wpe_load wpe_ret)
qed

lemma write_handle_safe:
  assumes "world_ok w" and s: "socks w a = Some s"
  shows "wpe crashes (tunnel_write_handle kw fd (Some a)) (\<lambda>_. world_ok) w"
proof -
  from assms(1) obtain as ws where inv: "winv as ws {} {} w" by (auto simp: world_ok_def)
  obtain t T where t: "s_tunnel s = Some t" "tunnels w t = Some T" by (rule winv_sock_tunnel [OF inv s])
  have nc: "t_state T \<noteq> connecting_state" using winv_tunnel(2) [OF inv t(2)] by (auto simp: phase_ok_def)
  let ?rest = "\<lambda>force. if force then sock_force_shutdown (Some a)
     else bnd (load tunnels (Some t)) (\<lambda>t'.
     bnd (if t_state t' = connecting_state then tunnel_connecting_handle (Some t) else ret 0) (\<lambda>r.
     if r < 0 then tunnel_shutdown (Some t) (Some a)
     else bnd (load tunnels (Some t)) (\<lambda>t'.
     if t_status t' = tunn_is_run then tunnel_switch_handle (Some a) (Some t)
     else bnd (load socks (Some a)) (\<lambda>s.
     bnd (epoll_modify (Some a) (0 < buff_readable (write_buff s)) True) (\<lambda>_. ret ())))))"
  have rest: "wpe crashes (?rest force) (\<lambda>_. world_ok) w1" if k: "kept as ws {} {} w w1" for force w1
  proof -
    note inv1 = keptD(1) [OF k]
    obtain s1 where s1: "socks w1 a = Some s1" by (rule data_step_sock [OF keptD(2) [OF k] s])
    have T1: "tunnels w1 t = Some T" using keptD(2) [OF k] t by (simp add: data_step_def)
    have "wpe crashes (epoll_modify (Some a) x True) (\<lambda>_. world_ok) w1" for x
      by (rule wpe_conseq [OF epoll_modify_safe [OF inv1 s1]]) (rule kept_world_ok)
    with force_shutdown_ok [OF inv1] switch_handle_safe [OF inv1 s1 T1] s1 T1 nc show ?thesis
      by (simp add: wp_fun wpe_load)
  qed
  have "wpe crashes (tunnel_write_out kw fd (Some a)) (\<lambda>force. wpe crashes (?rest force) (\<lambda>_. world_ok)) w"
    by (rule wpe_conseq [OF write_out_safe [OF inv s]]) (rule rest)
  with s t show ?thesis by (simp add: tunnel_write_handle_def Let_def wpe_bnd wpe_load cong: if_cong)
qed

section \<open>Pairing\<close>

lemma looks_for_waiting:
  assumes inv: "winv as ws {} {} w"
  shows "looks_for w waitCompare2 (\<lambda>T. t_status T \<in> {tmptun_is_wait, tmptun_is_alive}) ws"
  unfolding looks_for_def
proof (intro ballI allI)
  fix x q assume "x \<in> set ws"
  with listed_placed [OF inv] obtain t T where t: "placed w x t" "tunnels w t = Some T" by blast
  obtain c where c: "conns w x = Some c" "c_tunnel c = Some t" by (rule placed_conn [OF t(1)])
  have "\<exists>s. socks w b = Some s" if "remote_sock T = Some b" for b
    using winv_remote [OF inv t(2) _ that] by auto
  with t c show "wpe crashes (waitCompare2 x q) (\<lambda>c w'. w' = w \<and> (c = 0 \<longrightarrow>
      (\<exists>t T. placed w x t \<and> tunnels w t = Some T \<and> t_status T \<in> {tmptun_is_wait, tmptun_is_alive}))) w"
    by (cases "remote_sock T") (auto simp: waitCompare2_def wpe_bnd wpe_conn_tunnel wpe_load wpe_ret, blast)
qed

text \<open>The parked connection of \<open>q\<close> goes to the idle tunnel of \<open>p0\<close>.\<close>

lemma pair_safe:
  assumes inv: "winv as ws {} {} w" and p0: "placed w p0 t" "tunnels w t = Some T" "t_status T = tunn_is_idle"
    and q: "placed w q u" "tunnels w u = Some U" "t_status U \<noteq> tunn_is_idle"
  shows "wpe crashes
     (bnd (conn_upd (Some p0) (\<lambda>t. t\<lparr>t_status := tunn_is_run\<rparr>)) (\<lambda>_.
      bnd (conn_tunnel (Some q)) (\<lambda>tp.
      bnd (conn_upd (Some p0) (\<lambda>t. t\<lparr>remote_sock := remote_sock tp\<rparr>)) (\<lambda>_.
      bnd (load conns (Some p0)) (\<lambda>c0.
      bnd (sock_upd (remote_sock tp) (\<lambda>s. s\<lparr>s_tunnel := c_tunnel c0\<rparr>)) (\<lambda>_.
      bnd (tunnel_connected_handle (c_tunnel c0) (remote_sock tp)) (\<lambda>_.
      bnd (conn_upd (Some q) (\<lambda>t. t\<lparr>t_status := tmptun_is_free\<rparr>)) (\<lambda>_.
      bnd (conn_upd (Some q) (\<lambda>t. t\<lparr>remote_sock := None\<rparr>)) (\<lambda>_.
      ret (0, arg))))))))))
     (\<lambda>_ w'. winv as ws {} {} w') w"
proof -
  from p0(2,3) q(2,3) have ne: "u \<noteq> t" by auto
  obtain c where c: "conns w p0 = Some c" "c_tunnel c = Some t" by (rule placed_conn [OF p0(1)])
  obtain d where d: "conns w q = Some d" "c_tunnel d = Some u" by (rule placed_conn [OF q(1)])
  show ?thesis
  proof (cases "remote_sock U")
    case None
    with p0 q c d ne show ?thesis
      by (simp add: wp_fun wpe_conn_upd wpe_tunnel_upd wpe_conn_tunnel wpe_load wpe_sock_upd)
  next
    case (Some b)
    obtain s where s: "socks w b = Some s" "s_tunnel s = Some u" "ispriv s = 0"
      by (rule winv_remote [OF inv q(2) _ Some]) auto
    let ?s = "s\<lparr>s_tunnel := Some t\<rparr>" let ?w1 = "w\<lparr>socks := (socks w)(b \<mapsto> ?s)\<rparr>"
    let ?T = "T\<lparr>t_status := tunn_is_run, remote_sock := Some b\<rparr>"
    let ?w2 = "?w1\<lparr>tunnels := (tunnels ?w1)(t \<mapsto> ?T)\<rparr>"
    have un: "priv_sock V \<noteq> Some b \<and> remote_sock V \<noteq> Some b" if V: "tunnels w v = Some V" "v \<notin> {u}" for v V
      using points_back(1) [OF inv s(1) V(1)] V(2) s(2) by auto
    have inv1: "winv as ws {u} {} ?w1"
      by (rule winv_sock_move [OF winv_mono [OF inv] s(1) p0(2)]) (use un in auto)
    have T1: "tunnels ?w1 t = Some T" using p0(2) by simp
    have inv2: "winv as ws {u} {} ?w2"
    proof (rule winv_tunnel_upd [OF winv_mono [OF inv1] T1])
      show "peers_ok ?w1 t ?T"
        using winv_tunnel(1) [OF inv p0(2)] un [OF p0(2)] ne s by (auto simp: peers_ok_def peer_ok_def)
      show "phase_ok ?T" "creds_ok ?T" using winv_tunnel(2,3) [OF inv p0(2)] by simp_all
    qed auto
    let ?rest = "bnd (conn_upd (Some q) (\<lambda>t. t\<lparr>t_status := tmptun_is_free\<rparr>)) (\<lambda>_.
      bnd (conn_upd (Some q) (\<lambda>t. t\<lparr>remote_sock := None\<rparr>)) (\<lambda>_. ret (0 :: int, arg)))"
    have "wpe crashes (tunnel_connected_handle (Some t) (Some b)) (\<lambda>_. wpe crashes ?rest (\<lambda>_. winv as ws {} {})) ?w2"
    proof (rule wpe_conseq [OF connected_handle_safe [OF inv2, where s = ?s]])
      show "tunnels ?w2 t = Some ?T" "t \<notin> {u}" "socks ?w2 b = Some ?s" using ne by simp_all
    next
      fix w3 assume k: "kept as ws {u} {} ?w2 w3"
      note inv3 = keptD(1) [OF k]
      have U3: "tunnels w3 u = Some U" "conns w3 = conns w"
        using keptD(2) [OF k] q(2) ne by (simp_all add: data_step_def same_shape_def)
      let ?U = "U\<lparr>t_status := tmptun_is_free, remote_sock := None\<rparr>"
      have "winv as ws {} {} (w3\<lparr>tunnels := (tunnels w3)(u \<mapsto> ?U)\<rparr>)"
      proof (rule winv_tunnel_upd [OF winv_mono [OF inv3] U3(1)])
        have "peer_ok w u True (priv_sock U)" using winv_tunnel(1) [OF inv q(2)] by (simp add: peers_ok_def)
        moreover have "priv_sock U \<noteq> Some b" using points_back(2) [OF inv s(1) q(2)] Some s(3) by auto
        ultimately have "peer_ok ?w2 u True (priv_sock U)" by (auto simp: peer_ok_def)
        then have "peer_ok w3 u True (priv_sock U)"
          using data_step_sock [OF keptD(2) [OF k]] unfolding peer_ok_def by metis
        then show "peers_ok w3 u ?U" by (simp add: peers_ok_def)
        show "phase_ok ?U" "creds_ok ?U" using winv_tunnel(2,3) [OF inv q(2)] by simp_all
      qed auto
      with U3 d show "wpe crashes ?rest (\<lambda>_. winv as ws {} {}) w3"
        by (simp add: wp_fun wpe_conn_upd wpe_tunnel_upd)
    qed
    moreover have "?w2 = w\<lparr>tunnels := (tunnels w)(t \<mapsto> ?T), socks := (socks w)(b \<mapsto> ?s)\<rparr>" by simp
    ultimately have "wpe crashes (tunnel_connected_handle (Some t) (Some b)) (\<lambda>_. wpe crashes ?rest (\<lambda>_. winv as ws {} {}))
        (w\<lparr>tunnels := (tunnels w)(t \<mapsto> ?T), socks := (socks w)(b \<mapsto> ?s)\<rparr>)" by (simp only:)
    with p0 q c d ne s Some show ?thesis
      by (simp add: wp_fun wpe_conn_upd wpe_tunnel_upd wpe_conn_tunnel wpe_load wpe_sock_upd)
  qed
qed

lemma fndIdle_safe:
  assumes inv: "winv as ws {} {} w" and p0: "p0 \<in> set as"
  shows "wpe crashes (fndIdleConnElemt p0 arg) (\<lambda>_ w'. winv as ws {} {} w') w"
proof -
  obtain t T where t: "placed w p0 t" "tunnels w t = Some T"
    by (rule listed_placed [OF inv]) (use p0 in auto)
  obtain c where c: "conns w p0 = Some c" "c_tunnel c = Some t" by (rule placed_conn [OF t(1)])
  let ?pair = "\<lambda>p. bnd (conn_upd (Some p0) (\<lambda>t. t\<lparr>t_status := tunn_is_run\<rparr>)) (\<lambda>_.
         bnd (conn_tunnel p) (\<lambda>tp.
         bnd (conn_upd (Some p0) (\<lambda>t. t\<lparr>remote_sock := remote_sock tp\<rparr>)) (\<lambda>_.
         bnd (load conns (Some p0)) (\<lambda>c0.
         bnd (sock_upd (remote_sock tp) (\<lambda>s. s\<lparr>s_tunnel := c_tunnel c0\<rparr>)) (\<lambda>_.
         bnd (tunnel_connected_handle (c_tunnel c0) (remote_sock tp)) (\<lambda>_.
         bnd (conn_upd p (\<lambda>t. t\<lparr>t_status := tmptun_is_free\<rparr>)) (\<lambda>_.
         bnd (conn_upd p (\<lambda>t. t\<lparr>remote_sock := None\<rparr>)) (\<lambda>_.
         ret (0, arg)))))))))"
  have "wpe crashes (waitListFnd None waitCompare2) (\<lambda>p. wpe crashes
      (if p \<noteq> None then ?pair p else ret (-1, arg)) (\<lambda>_. winv as ws {} {})) w" if "t_status T = tunn_is_idle"
  proof (rule wpe_conseq [OF looks_for_wait [OF winv_pools [OF inv] looks_for_waiting [OF inv]]], elim conjE)
    fix p w1
    assume w1: "w1 = w" and p: "\<forall>x. p = Some x \<longrightarrow> x \<in> set ws \<and> (\<exists>t T. placed w x t \<and> tunnels w t = Some T \<and>
        t_status T \<in> {tmptun_is_wait, tmptun_is_alive})"
    show "wpe crashes (if p \<noteq> None then ?pair p else ret (-1, arg)) (\<lambda>_. winv as ws {} {}) w1"
    proof (cases p)
      case None
      with inv w1 show ?thesis by (simp add: wpe_ret)
    next
      case (Some q)
      with p obtain u U where "placed w q u" "tunnels w u = Some U" "t_status U \<noteq> tunn_is_idle" by auto
      from pair_safe [OF inv t that this] Some w1 show ?thesis by simp
    qed
  qed
  with inv t c show ?thesis
    unfolding fndIdleConnElemt_def
    by (cases "ws = []"; cases "t_status T = tunn_is_idle")
       (simp_all add: wpe_bnd_fun [of _ "conn_tunnel (Some p0)"] wpe_conn_tunnel wpe_load wpe_ret wpe_bnd
        wpe_ListEmpty [OF winv_pools [OF inv]])
qed

lemma waitLinePairing_safe:
  assumes "world_ok w"
  shows "wpe crashes waitLinePairing (\<lambda>_. world_ok) w"
proof -
  from assms obtain as ws where inv: "winv as ws {} {} w" by (auto simp: world_ok_def)
  have "wpe crashes (AppListDo fndIdleConnElemt ()) (\<lambda>_ w'. winv as ws {} {} w') w"
  proof (rule AppListDo_spec [where as = as])
    show "procs_head w = Some HApp \<and> dlist (links w) HApp (map Cell as)" if "winv as ws {} {} w" for w
      using winv_pools [OF that] by (simp add: pools_def)
    show "length as \<le> next_addr w" using pools_length [OF winv_pools [OF inv]] by simp
    show "wpe crashes (fndIdleConnElemt x b) (\<lambda>_. winv as ws {} {}) w" if "x \<in> set as" "winv as ws {} {} w" for x b w
      using fndIdle_safe [OF that(2,1)] .
  qed (rule inv)
  then have "wpe crashes (AppListDo fndIdleConnElemt ()) (\<lambda>_. world_ok) w"
    by (rule wpe_conseq) (auto simp: world_ok_def)
  with assms show ?thesis
    by (simp add: waitLinePairing_def wpe_bnd wpe_ListEmpty [OF winv_pools [OF inv]] wpe_ret)
qed

end
