(* ===== verification/Loop.thy ===== *)
theory Loop
  imports Safety
begin

text \<open>
  The loop as a transition system: from the state \<open>server_init\<close> leaves, every turn of
  \<open>server_start\<close> is a step, and the invariant holds in every state that can be reached.  The
  argument is a locale; it is used twice, for turns that get at most one event and for turns that
  get any number of them.
\<close>

section \<open>Systems with an invariant\<close>

text \<open>The states a system can be in: a step with an input that is allowed, and that does not fault.\<close>

inductive reach :: "('s \<Rightarrow> bool) \<Rightarrow> ('i \<Rightarrow> bool) \<Rightarrow> ('i \<Rightarrow> ('s, 'a) act) \<Rightarrow> 's \<Rightarrow> bool"
  for init allowed step where
  reach_init: "init s \<Longrightarrow> reach init allowed step s"
| reach_step: "reach init allowed step s \<Longrightarrow> allowed i \<Longrightarrow> step i s = Inr (x, s') \<Longrightarrow> reach init allowed step s'"

inductive_cases reach_elim: "reach init allowed step s"

locale invariant_system =
  fixes init :: "'s \<Rightarrow> bool"
    and allowed :: "'i \<Rightarrow> bool"
    and step :: "'i \<Rightarrow> ('s, 'a) act"
    and inv :: "'s \<Rightarrow> bool"
    and faults :: "fault set"
  assumes inv_init: "init s \<Longrightarrow> inv s"
    and inv_step: "inv s \<Longrightarrow> allowed i \<Longrightarrow> wpe faults (step i) (\<lambda>_. inv) s"
begin

lemma reach_inv: "reach init allowed step s \<Longrightarrow> inv s"
proof (induction rule: reach.induct)
  case (reach_init s)
  then show ?case by (rule inv_init)
next
  case (reach_step s i x s')
  from wpe_Inr [OF inv_step [OF reach_step.IH reach_step.hyps(2)] reach_step.hyps(3)] show ?case .
qed

lemma reach_faults: "reach init allowed step s \<Longrightarrow> allowed i \<Longrightarrow> step i s = Inl e \<Longrightarrow> e \<in> faults"
  using wpe_Inl [OF inv_step [OF reach_inv]] .

end

section \<open>One event\<close>

text \<open>What \<open>epoll_wait\<close> reports is never a listener that is ready to be written to.\<close>

definition event_ok :: "udata \<Rightarrow> kevent \<Rightarrow> bool" where
  "event_ok ud e \<longleftrightarrow> (ke_out e \<longrightarrow> ke_in e \<or> (\<exists>a. ud = UdSock a))"

lemma reported_ok:
  assumes "world_ok w" and "reported w e = Some (ud, e')"
  shows "event_ok ud e'" "ud = UdSock a \<Longrightarrow> socks w a \<noteq> None"
proof -
  from assms(2) obtain i where i: "epoll w (ke_fd e) = Some i" "ud = ep_ptr i" "e' = e" "ke_out e \<longrightarrow> ep_out i"
    by (auto simp: reported_def split: option.splits if_splits)
  from assms(1) i(1) have "interest_ok w (ke_fd e) i"
    by (auto simp: world_ok_def winv_def registry_ok_def)
  with i show "event_ok ud e'" "ud = UdSock a \<Longrightarrow> socks w a \<noteq> None"
    by (cases "ep_ptr i"; auto simp: interest_ok_def event_ok_def)+
qed

lemma server_event_safe:
  assumes ok: "world_ok w" and ev: "event_ok ud e" and E: "crashes \<subseteq> E"
    and live: "\<And>a. ud = UdSock a \<Longrightarrow> socks w a \<noteq> None \<or> UseAfterFree \<in> E"
  shows "wpe E (server_event ud e) (\<lambda>_. world_ok) w"
proof (cases ud)
  case UdServer
  with ev ok wpe_faults [OF accept_handle_safe [OF ok] E] show ?thesis
    by (auto simp: server_event_def cur_fd_of_def event_ok_def wpe_bnd wpe_gets wpe_ret)
next
  case UdServer2
  with ev ok wpe_faults [OF accept_handle_safe [OF ok] E] show ?thesis
    by (auto simp: server_event_def cur_fd_of_def event_ok_def wpe_bnd wpe_gets wpe_ret)
next
  case (UdSock a)
  show ?thesis
  proof (cases "socks w a")
    case None
    with live UdSock show ?thesis by (simp add: server_event_def cur_fd_of_def wpe_bnd wpe_load)
  next
    case (Some s)
    from ok obtain as ws where inv: "winv as ws {} {} w" by (auto simp: world_ok_def)
    from winv_sock(6,7) [OF inv Some] Some UdSock ok
      wpe_faults [OF read_handle_safe [OF ok Some] E] wpe_faults [OF write_handle_safe [OF ok Some] E]
    show ?thesis
      by (auto simp: server_event_def cur_fd_of_def as_sock_def wp_fun wpe_gets wpe_load)
  qed
qed

section \<open>A turn\<close>

lemma epoll_wait_ok:
  assumes ok: "world_ok w"
  shows "\<exists>evs. epoll_wait es w = Inr (evs, w) \<and> length evs \<le> length es \<and> length evs \<le> MAX_EPOLL_EVENTS \<and>
     (\<forall>(ud, e) \<in> set evs. event_ok ud e \<and> (\<forall>a. ud = UdSock a \<longrightarrow> socks w a \<noteq> None))"
proof -
  have len: "length (first_per_fd es) \<le> length es" for es
    by (induction es) (auto intro: le_trans [OF length_filter_le])
  let ?rs = "filter (\<lambda>r. r \<noteq> None) (map (reported w) (take MAX_EPOLL_EVENTS (first_per_fd es)))"
  have l: "length ?rs \<le> length (take MAX_EPOLL_EVENTS (first_per_fd es))"
    by (rule le_trans [OF length_filter_le]) simp
  have el: "event_ok ud e \<and> (\<forall>a. ud = UdSock a \<longrightarrow> socks w a \<noteq> None)" if "(ud, e) \<in> set (map the ?rs)" for ud e
  proof -
    from that obtain f where "reported w f = Some (ud, e)" by auto
    from reported_ok [OF ok this] show ?thesis by blast
  qed
  have "\<forall>(ud, e) \<in> set (map the ?rs). event_ok ud e \<and> (\<forall>a. ud = UdSock a \<longrightarrow> socks w a \<noteq> None)"
    using el by blast
  moreover have "length (map the ?rs) \<le> length es" "length (map the ?rs) \<le> MAX_EPOLL_EVENTS"
    using l len [of es] by simp_all
  moreover have "epoll_wait es w = Inr (map the ?rs, w)" by (simp add: epoll_wait_def gets_def)
  ultimately show ?thesis by blast
qed

lemma server_events_safe:
  assumes "world_ok w" and "\<forall>(ud, e) \<in> set evs. event_ok ud e"
  shows "wpe (insert UseAfterFree crashes) (server_events evs) (\<lambda>_. world_ok) w"
  using assms
proof (induction evs arbitrary: w)
  case Nil
  then show ?case by (simp add: wpe_ret)
next
  case (Cons x evs)
  obtain ud e where x: "x = (ud, e)" by (cases x)
  have "wpe (insert UseAfterFree crashes) (server_event ud e) (\<lambda>r. wpe (insert UseAfterFree crashes)
      (if r < 0 then ret () else server_events evs) (\<lambda>_. world_ok)) w"
    by (rule wpe_conseq [OF server_event_safe [OF Cons.prems(1)]])
       (use Cons x in \<open>auto simp: wpe_ret\<close>)
  with x show ?case by (simp add: wpe_bnd)
qed

definition calm :: "wait_result \<Rightarrow> bool" where
  "calm r = (case r of WaitEvents es \<Rightarrow> length es \<le> 1 | WaitErr _ \<Rightarrow> True)"

lemma pairing_after:
  assumes "world_ok w" and "crashes \<subseteq> E"
  shows "wpe E (bnd waitLinePairing (\<lambda>_. ret (0 :: int))) (\<lambda>_. world_ok) w"
  using wpe_faults [OF waitLinePairing_safe [OF assms(1)] assms(2)] by (simp add: wp_fun)

lemma world_ok_errno: "world_ok (w\<lparr>errno_v := e\<rparr>) = world_ok w"
  by (simp add: world_ok_def)

lemma server_round_err_safe:
  assumes "world_ok w" and "crashes \<subseteq> E"
  shows "wpe E (server_round (WaitErr e)) (\<lambda>_. world_ok) w"
proof -
  have "world_ok (w\<lparr>errno_v := e\<rparr>)" using assms(1) by (simp add: world_ok_errno)
  with pairing_after [OF this assms(2)] show ?thesis
    by (cases "e = EINTR") (simp_all add: server_round_def wpe_bnd [of _ "modifies _"] wpe_modifies wpe_ret)
qed

lemma server_round_events:
  assumes ok: "world_ok w" and E: "crashes \<subseteq> E"
    and evs: "\<And>evs. length evs \<le> length es \<Longrightarrow>
       (\<forall>(ud, e) \<in> set evs. event_ok ud e \<and> (\<forall>a. ud = UdSock a \<longrightarrow> socks w a \<noteq> None)) \<Longrightarrow>
       wpe E (server_events evs) (\<lambda>_. world_ok) w"
  shows "wpe E (server_round (WaitEvents es)) (\<lambda>_. world_ok) w"
proof -
  from epoll_wait_ok [OF ok] obtain evs where w: "epoll_wait es w = Inr (evs, w)" "length evs \<le> length es"
    "\<forall>(ud, e) \<in> set evs. event_ok ud e \<and> (\<forall>a. ud = UdSock a \<longrightarrow> socks w a \<noteq> None)" by blast
  have "wpe E (server_events evs) (\<lambda>_. wpe E (bnd waitLinePairing (\<lambda>_. ret (0 :: int))) (\<lambda>_. world_ok)) w"
    by (rule wpe_conseq [OF evs [OF w(2,3)]]) (rule pairing_after [OF _ E])
  moreover have "wpe E (epoll_wait es) Q w = Q evs w" for Q by (simp add: wpe_def w(1))
  ultimately show ?thesis by (simp add: server_round_def wp_fun)
qed

lemma server_round_safe:
  assumes "world_ok w"
  shows "wpe (insert UseAfterFree crashes) (server_round r) (\<lambda>_. world_ok) w"
proof (cases r)
  case (WaitEvents es)
  show ?thesis unfolding WaitEvents
    by (rule server_round_events [OF assms]) (auto intro!: server_events_safe assms)
next
  case (WaitErr e)
  show ?thesis unfolding WaitErr by (rule server_round_err_safe [OF assms]) auto
qed

lemma server_round_calm_safe:
  assumes ok: "world_ok w" and calm: "calm r"
  shows "wpe crashes (server_round r) (\<lambda>_. world_ok) w"
proof (cases r)
  case (WaitEvents es)
  show ?thesis unfolding WaitEvents
  proof (rule server_round_events [OF ok])
    fix evs :: "(udata \<times> kevent) list"
    assume len: "length evs \<le> length es"
      and evs: "\<forall>(ud, e) \<in> set evs. event_ok ud e \<and> (\<forall>a. ud = UdSock a \<longrightarrow> socks w a \<noteq> None)"
    from len calm WaitEvents have "length evs \<le> 1" by (simp add: calm_def)
    then consider "evs = []" | ud e where "evs = [(ud, e)]"
      by (cases evs; cases "tl evs") auto
    then show "wpe crashes (server_events evs) (\<lambda>_. world_ok) w"
    proof cases
      case 1
      with ok show ?thesis by (simp add: wpe_ret)
    next
      case 2
      have "wpe crashes (server_event ud e) (\<lambda>r. wpe crashes (if r < 0 then ret () else ret ()) (\<lambda>_. world_ok)) w"
        by (rule wpe_conseq [OF server_event_safe [OF ok]]) (use evs 2 in \<open>auto simp: wpe_ret\<close>)
      with 2 show ?thesis by (simp add: wpe_bnd cong: if_cong)
    qed
  qed simp
next
  case (WaitErr e)
  show ?thesis unfolding WaitErr by (rule server_round_err_safe [OF ok]) simp
qed

section \<open>The start\<close>

text \<open>What \<open>main\<close> does before the loop: the lists, the listeners, the registry, the credentials.\<close>

definition server_boot :: "arr \<Rightarrow> arr \<Rightarrow> net_result \<Rightarrow> net_result \<Rightarrow> bool \<Rightarrow> arr \<Rightarrow> arr \<Rightarrow> int prog" where
  "server_boot port rmtPort k1 k2 epoll_ok username passwd =
     bnd thrdListInit (\<lambda>_. server_init port rmtPort k1 k2 epoll_ok username passwd)"

text \<open>
  The states a successful start leaves when the allocator behaves like \<open>mem\<close>: \<open>mem n\<close> says that the
  \<open>n\<close>-th request of the run finds no memory.  With \<open>plenty\<close> there is always memory.
\<close>

definition started :: "(nat \<Rightarrow> bool) \<Rightarrow> world \<Rightarrow> bool" where
  "started mem w \<longleftrightarrow> (\<exists>dirt l port rmtPort k1 k2 eo username passwd.
     server_boot port rmtPort k1 k2 eo username passwd (boot_world mem dirt l) = Inr (0, w))"

definition plenty :: "nat \<Rightarrow> bool" where
  "plenty n \<longleftrightarrow> False"

lemma thrdListInit_run:
  "thrdListInit (boot_world mem dirt l) = Inr ((), (boot_world mem dirt l)\<lparr>procs_head := Some HApp,
     procs_head2 := Some HWait, sockfdlist_head := Some HFd,
     links := INIT_LIST_HEAD (INIT_LIST_HEAD (INIT_LIST_HEAD l HApp) HWait) HFd\<rparr>)"
  by (simp add: thrdListInit_def AppListInit_def waitListInit_def FdListInit_def boot_world_def
      bnd_def gets_def modifies_def)

text \<open>A listener that is opened is a new open descriptor; nothing else that matters changes.\<close>

definition quiet :: "world \<Rightarrow> world \<Rightarrow> bool" where
  "quiet w w' \<longleftrightarrow> w' = w\<lparr>errno_v := errno_v w', fd_open := fd_open w', epoll := epoll w',
     fd_nonblock := fd_nonblock w', fd_keepalive := fd_keepalive w', wire := wire w'\<rparr>"

lemma openServerSock_run:
  "wpe UNIV (openServerSock port k) (\<lambda>(r, fd) w'. quiet w w' \<and> (r = 0 \<or> r = -1) \<and>
     (r = 0 \<longrightarrow> (\<exists>n. fd = Some n \<and> \<not> fd_open w n \<and> fd_open w' = (fd_open w)(n := True) \<and>
        epoll w' = (epoll w)(n := None)))) w"
  by (auto simp: openServerSock_def simpNetSrvOpen_def wp quiet_def split: sum.split)

lemma quiet_fields:
  assumes "quiet w w'"
  shows "socks w' = socks w" "tunnels w' = tunnels w" "conns w' = conns w" "links w' = links w"
    "procs_head w' = procs_head w" "procs_head2 w' = procs_head2 w" "next_addr w' = next_addr w" "oom w' = oom w"
  by (subst assms [unfolded quiet_def], simp)+

lemma boot_lists:
  "dlist (INIT_LIST_HEAD (INIT_LIST_HEAD (INIT_LIST_HEAD l HApp) HWait) HFd) HApp []"
  "dlist (INIT_LIST_HEAD (INIT_LIST_HEAD (INIT_LIST_HEAD l HApp) HWait) HFd) HWait []"
  by (simp_all add: dlist_def INIT_LIST_HEAD_def)

lemma listening_ok:
  assumes w: "socks w = (\<lambda>_. None)" "tunnels w = (\<lambda>_. None)" "conns w = (\<lambda>_. None)"
    and heads: "procs_head w = Some HApp" "procs_head2 w = Some HWait" "dlist (links w) HApp []" "dlist (links w) HWait []"
    and mem: "\<forall>n. \<not> oom w n"
    and fds: "fd_open w (SERVER_fd w)" "fd_open w (SERVER2_fd w)" "SERVER_fd w \<noteq> SERVER2_fd w"
    and ep: "\<And>fd i. epoll w fd = Some i \<Longrightarrow> fd = SERVER_fd w \<and> ep_ptr i = UdServer \<and> \<not> ep_out i \<or>
       fd = SERVER2_fd w \<and> ep_ptr i = UdServer2 \<and> \<not> ep_out i"
  shows "world_ok w"
proof -
  have "interest_ok w fd i" if "epoll w fd = Some i" for fd i
    using ep [OF that] by (auto simp: interest_ok_def)
  then have "registry_ok w" by (simp add: registry_ok_def)
  with assms have "winv [] [] {} {} w"
    by (simp add: winv_def pools_def socks_ok_def tunnels_ok_def conns_ok_def listeners_ok_def mem_ok_def)
  then show ?thesis unfolding world_ok_def by blast
qed

lemma server_init_safe:
  assumes w: "socks w = (\<lambda>_. None)" "tunnels w = (\<lambda>_. None)" "conns w = (\<lambda>_. None)" "epoll w = (\<lambda>_. None)"
    and heads: "procs_head w = Some HApp" "procs_head2 w = Some HWait" "dlist (links w) HApp []" "dlist (links w) HWait []"
    and mem: "\<forall>n. \<not> oom w n"
  shows "wpe UNIV (server_init port rmtPort k1 k2 eo u pw) (\<lambda>r w'. r = 0 \<longrightarrow> world_ok w') w" (is "wpe _ _ ?Q w")
proof -
  let ?creds = "bnd (gets (\<lambda>w. (mon_username w, mon_passwd w))) (\<lambda>(u0, pw0).
     bnd (lift_res (snprintf_s u0 u)) (\<lambda>u.
     bnd (modifies (\<lambda>w. w\<lparr>mon_username := u\<rparr>)) (\<lambda>_.
     bnd (lift_res (snprintf_s pw0 pw)) (\<lambda>pw.
     bnd (modifies (\<lambda>w. w\<lparr>mon_passwd := pw\<rparr>)) (\<lambda>_. ret 0)))))"
  let ?reg = "\<lambda>fd1 fd2. bnd (modifies (\<lambda>w. w\<lparr>SERVER_fd := the fd1, SERVER2_fd := the fd2\<rparr>)) (\<lambda>_.
     bnd (epoll_ctl_add (the fd1) \<lparr>ep_ptr = UdServer, ep_out = False, ep_in = True\<rparr>) (\<lambda>_.
     bnd (epoll_ctl_add (the fd2) \<lparr>ep_ptr = UdServer2, ep_out = False, ep_in = True\<rparr>) (\<lambda>_. ?creds)))"
  let ?two = "\<lambda>fd1. bnd (openServerSock rmtPort k2) (\<lambda>(r, fd2). if r < 0 then ret (-1)
     else if \<not> eo then ret (-1) else ?reg fd1 fd2)"
  have creds: "wpe UNIV ?creds ?Q v" if "world_ok v" for v
    using that by (auto simp: wp world_ok_def winv_defs split: sum.splits)
  have reg: "wpe UNIV (?reg (Some m) (Some n)) ?Q w2"
    if q: "quiet w w2" and fds: "fd_open w2 m" "fd_open w2 n" "m \<noteq> n" and ep: "epoll w2 = (\<lambda>_. None)" for m n w2
  proof -
    let ?v = "w2\<lparr>SERVER_fd := m, SERVER2_fd := n, epoll := (epoll w2)(m \<mapsto>
       \<lparr>ep_ptr = UdServer, ep_out = False, ep_in = True\<rparr>, n \<mapsto> \<lparr>ep_ptr = UdServer2, ep_out = False, ep_in = True\<rparr>)\<rparr>"
    have "world_ok ?v"
      by (rule listening_ok) (use quiet_fields [OF q] w heads mem fds ep in \<open>auto split: if_splits\<close>)
    from creds [OF this] fds ep show ?thesis by (simp add: wpe_bnd wpe_modifies wpe_kernel)
  qed
  have two: "wpe UNIV (?two (Some m)) ?Q w1"
    if q: "quiet w w1" and fds: "fd_open w1 m" and ep: "epoll w1 = (\<lambda>_. None)" for m w1
    unfolding wpe_bnd_fun [of _ "openServerSock rmtPort k2"]
  proof (rule wpe_faults [OF wpe_conseq [OF openServerSock_run]])
    fix x :: "int \<times> int option" and w2
    assume x: "(case x of (r, fd) \<Rightarrow> \<lambda>w'. quiet w1 w' \<and> (r = 0 \<or> r = - 1) \<and>
      (r = 0 \<longrightarrow> (\<exists>n. fd = Some n \<and> \<not> fd_open w1 n \<and> fd_open w' = (fd_open w1)(n := True) \<and>
        epoll w' = (epoll w1)(n := None)))) w2"
    obtain r fd2 where x': "x = (r, fd2)" by (cases x)
    have "quiet w w2" using x q unfolding x' quiet_def by (cases w; cases w1; cases w2) simp
    show "wpe UNIV (case x of (r, fd2) \<Rightarrow> if r < 0 then ret (-1) else if \<not> eo then ret (-1) else ?reg (Some m) fd2) ?Q w2"
    proof (cases "r = 0")
      case False
      with x x' show ?thesis by (auto simp: wpe_ret)
    next
      case True
      with x x' obtain n where n: "fd2 = Some n" "\<not> fd_open w1 n" "fd_open w2 = (fd_open w1)(n := True)"
        "epoll w2 = (epoll w1)(n := None)" by auto
      with fds have "m \<noteq> n" by auto
      with reg [OF \<open>quiet w w2\<close>, of m n] n fds ep True x' show ?thesis by (auto simp: wpe_ret)
    qed
  qed simp
  have "wpe UNIV (openServerSock port k1) (\<lambda>x. wpe UNIV (case x of (r, fd1) \<Rightarrow> if r < 0 then ret (-1) else ?two fd1) ?Q) w"
  proof (rule wpe_faults [OF wpe_conseq [OF openServerSock_run]])
    fix x :: "int \<times> int option" and w1
    assume "(case x of (r, fd) \<Rightarrow> \<lambda>w'. quiet w w' \<and> (r = 0 \<or> r = - 1) \<and>
      (r = 0 \<longrightarrow> (\<exists>n. fd = Some n \<and> \<not> fd_open w n \<and> fd_open w' = (fd_open w)(n := True) \<and>
        epoll w' = (epoll w)(n := None)))) w1"
    with two [of w1] w(4)
    show "wpe UNIV (case x of (r, fd1) \<Rightarrow> if r < 0 then ret (-1) else ?two fd1) ?Q w1"
      by (cases x) (auto simp: wpe_ret)
  qed simp
  then show ?thesis unfolding server_init_def by (simp add: wpe_bnd)
qed

lemma started_ok: "started plenty w \<Longrightarrow> world_ok w"
proof -
  assume "started plenty w"
  then obtain dirt l port rmtPort k1 k2 eo u pw
    where run: "server_boot port rmtPort k1 k2 eo u pw (boot_world plenty dirt l) = Inr (0, w)" by (auto simp: started_def)
  have "wpe UNIV (server_boot port rmtPort k1 k2 eo u pw) (\<lambda>r w'. r = 0 \<longrightarrow> world_ok w') (boot_world plenty dirt l)"
    unfolding server_boot_def wpe_bnd wpe_def [of _ thrdListInit] thrdListInit_run
    using server_init_safe boot_lists by (simp add: boot_world_def plenty_def)
  from wpe_Inr [OF this run] show ?thesis by simp
qed

interpretation calm_server: invariant_system "started plenty" calm server_round world_ok crashes
  by unfold_locales (auto intro: started_ok server_round_calm_safe)

interpretation busy_server: invariant_system "started plenty" "\<lambda>_. True" server_round world_ok "insert UseAfterFree crashes"
  by unfold_locales (auto intro: started_ok server_round_safe)

end
