(* ===== verification/Runs.thy ===== *)
theory Runs
  imports Loop
begin

text \<open>
  Concrete runs of the whole server: a start that succeeds, and short schedules of events.  The
  runs are evaluated by the simplifier with the calculus of \<open>Prelude\<close>; they show that the
  faults the safety theorems leave open do occur, and they are the inputs of the witnesses.
\<close>

section \<open>A start\<close>

definition net_ok :: "int \<Rightarrow> net_result" where
  "net_ok n = \<lparr>nr_socket = Inl n, nr_reuse = True, nr_bind = True, nr_listen = True\<rparr>"

definition demo_boot :: world where
  "demo_boot = boot_world (\<lambda>_. False) (\<lambda>_. 0) \<lparr>prev = (\<lambda>x. x), nxt = (\<lambda>x. x)\<rparr>"

definition text_arr :: "byte list \<Rightarrow> arr" where
  "text_arr xs = arr_copy (\<lambda>_. 0) 0 xs"

definition demo_start :: world where
  "demo_start = demo_boot\<lparr>procs_head := Some HApp, procs_head2 := Some HWait, sockfdlist_head := Some HFd,
     fd_open := (\<lambda>fd. fd \<in> {0, 1, 2, 3, 4}),
     epoll := [3 \<mapsto> \<lparr>ep_ptr = UdServer, ep_out = False, ep_in = True\<rparr>, 4 \<mapsto> \<lparr>ep_ptr = UdServer2, ep_out = False, ep_in = True\<rparr>],
     SERVER_fd := 3, SERVER2_fd := 4\<rparr>"

lemma strlen_0: "strlen_at 255 a 0 = (if a 0 = 0 then Inr 0 else strlen_at 254 a 1)"
  by (simp add: strlen_at.simps(2) [of 254, simplified])

lemma atoi_0: "atoi_reads 16 (\<lambda>_. 0) = Inr 0"
  by (simp add: atoi_reads_def span_end.simps(2) [of _ 15, simplified])

lemma demo_started: "server_boot (\<lambda>_. 0) (\<lambda>_. 0) (net_ok 3) (net_ok 4) True (\<lambda>_. 0) (\<lambda>_. 0) demo_boot = Inr (0, demo_start)"
proof -
  have "wpe {} (server_boot (\<lambda>_. 0) (\<lambda>_. 0) (net_ok 3) (net_ok 4) True (\<lambda>_. 0) (\<lambda>_. 0)) (\<lambda>r w. r = 0 \<and> w = demo_start) demo_boot"
    unfolding server_boot_def server_init_def openServerSock_def simpNetSrvOpen_def thrdListInit_def
      AppListInit_def waitListInit_def FdListInit_def
    by (auto simp: atoi_0 wp_fun wp net_ok_def demo_boot_def demo_start_def boot_world_def snprintf_s_def strlen_0 INIT_LIST_HEAD_def Let_def fun_eq_iff)
  from wpe_total [OF this] show ?thesis by auto
qed

text \<open>The same start with the user name \<open>u\<close> and the password \<open>p\<close>.\<close>

definition auth_start :: world where
  "auth_start = demo_start\<lparr>mon_username := text_arr [0x75], mon_passwd := text_arr [0x70]\<rparr>"

section \<open>Events\<close>

definition kev_in :: "int \<Rightarrow> rd_result \<Rightarrow> kevent" where
  "kev_in fd r = \<lparr>ke_fd = fd, ke_in = True, ke_out = False, ke_rd = r, ke_wr = WrOk 0, ke_acc = Inr EAGAIN\<rparr>"

definition kev_out :: "int \<Rightarrow> wr_result \<Rightarrow> kevent" where
  "kev_out fd r = \<lparr>ke_fd = fd, ke_in = False, ke_out = True, ke_rd = RdErr EAGAIN, ke_wr = r, ke_acc = Inr EAGAIN\<rparr>"

definition ev_in :: "int \<Rightarrow> byte list \<Rightarrow> wait_result" where
  "ev_in fd bs = WaitEvents [kev_in fd (RdBytes bs)]"

definition ev_out :: "int \<Rightarrow> nat \<Rightarrow> wait_result" where
  "ev_out fd n = WaitEvents [kev_out fd (WrOk n)]"

definition ev_accept :: "int \<Rightarrow> int \<Rightarrow> wait_result" where
  "ev_accept fd new = WaitEvents [\<lparr>ke_fd = fd, ke_in = True, ke_out = False, ke_rd = RdErr EAGAIN, ke_wr = WrOk 0, ke_acc = Inl new\<rparr>]"

section \<open>Evaluation\<close>

lemmas run_defs = server_round_def epoll_wait_def reported_def MAX_EPOLL_EVENTS_def server_event_def cur_fd_of_def
  as_sock_def accept_handle_def tunnel_create_def sock_nonblocking_def sock_keepalive_def getTargetFrList_def
  getTargetFrList_new_def getWaitobjFrList_def getWaitobjFrList_new_def AppListEmpty_def waitListEmpty_def
  AppListFnd_def waitListFnd_def AppListAdd_def waitListAdd_def AppListDo_def list_add_cell_def
  list_empty_def list_add_def list_add_between_def Let_def INIT_LIST_HEAD_def
  sock_create_def buff_create_def buff_release_def attach_priv_def attach_remote_def epoll_add_def epoll_modify_def
  epoll_del_def waitLinePairing_def fndIdleConnElemt_def wpe_conn_tunnel wpe_conn_upd vbody_entry_def
  appCompare_def appCompare1_def waitCompare_def waitCompare2_def INIT_BUFF_CAP_def

lemma numeral_unfold:
  "list_find (numeral k) cmp head entry =
     (if entry = head then ret None
      else bnd (vbody_entry entry) (\<lambda>pptr.
           bnd (cmp pptr) (\<lambda>c.
           if c = 0 then ret (Some pptr)
           else bnd (gets (\<lambda>w. nxt (links w) entry)) (list_find (pred_numeral k) cmp head))))"
  "list_do (numeral k) stop cbf arg head entry =
     (if entry = head then ret arg
      else bnd (vbody_entry entry) (\<lambda>pptr.
           bnd (cbf pptr arg) (\<lambda>(c, arg).
           if c = stop then ret arg
           else bnd (gets (\<lambda>w. nxt (links w) entry)) (list_do (pred_numeral k) stop cbf arg head))))"
  by (simp_all add: numeral_eq_Suc)

lemmas read_defs = tunnel_read_handle_def on_read_buff_def buff_readfd_def buff_read_into_def buff_writable_def size_sub_def
  to_int_def of_int_size_def retry_errno_def tunnel_read_state_def tunnel_open_handle_def open_header_def open_methods_def
  rb_readable_def rb_read_def rb_read1_def buff_readable_def buff_read_def size_add_def nheader_open_def
  sock_force_shutdown_def sock_release_def arr_copy_def zero_tunnel_def c_assert_def

lemmas shut_defs = sock_shutdown_def forward_left_data_def shutdown_priv_def shutdown_remote_def shutdown_single_def

lemma reserve_room: "n \<le> buff_writable b \<Longrightarrow> wpe E (buff_reserve b n) Q s = Q (0, b) s"
  by (simp add: wpe_def buff_reserve.simps ret_def)

lemma wpe_writefd_ok:
  "wpe E (buff_writefd (WrOk k) b) Q s =
     (let n = to_int (min k (of_int_size (to_int (buff_readable b)))) in
      if n \<le> 0 then Q (n, [], b) s
      else Q (n, map (data b) [read_index b ..< read_index b + of_int_size n],
              b\<lparr>read_index := size_add (read_index b) (of_int_size n)\<rparr>) s)"
  by (simp add: buff_writefd_def Let_def wp)

lemmas write_defs = tunnel_connected_handle_def parsingHeader_def forward_def buff_concat_def buff_write_def reserve_room
  on_write_buff_def buff_clear_def tunnel_write_handle_def tunnel_write_out_def wpe_writefd_ok tunnel_switch_handle_def
  tunnel_write_client_def auth_required_def


lemmas start_defs = auth_start_def demo_start_def demo_boot_def boot_world_def text_arr_def

lemmas event_defs = ev_accept_def ev_in_def ev_out_def kev_in_def kev_out_def

lemma strcmp_numeral:
  "strcmp_at (numeral k) a b i = (if a i \<noteq> b i then Inr False else if a i = 0 then Inr True
     else strcmp_at (pred_numeral k) a b (Suc i))"
  by (simp add: numeral_eq_Suc)

lemmas auth_defs = tunnel_auth_handle_def auth_header_def auth_uname_def auth_plen_def auth_passwd_def
  credentials_differ_def nheader_auth_def nplen_def MAX_UNAME_LEN_def MAX_PASSWD_LEN_def strcmp_numeral

lemmas evaluate = run_defs read_defs wp_fun wp event_defs start_defs numeral_unfold write_defs contents_def

section \<open>Faults that do occur\<close>

text \<open>
  A client whose greeting is refused leaves a tunnel that is idle and has no private socket;
  the next remote connection is given to it, and its descriptor is printed.
\<close>

lemma null_deref_run: "server_start [ev_accept 3 5, ev_in 5 [4, 1, 0], ev_accept 4 6] demo_start = Inl NullDeref"
proof -
  have "wpe {NullDeref} (server_start [ev_accept 3 5, ev_in 5 [4, 1, 0], ev_accept 4 6]) (\<lambda>_ _. False) demo_start"
    by (simp add: evaluate)
  then show ?thesis by (auto dest: wpe_only)
qed

text \<open>
  Two events of one batch: the first closes the private socket and the remote one with it, the
  second belongs to the remote one.
\<close>

definition batch_run :: "wait_result list" where
  "batch_run = [ev_accept 3 5, ev_accept 4 6, WaitEvents [kev_in 5 (RdBytes []), kev_in 6 (RdBytes [7])]]"

lemma use_after_free_run: "server_start batch_run demo_start = Inl UseAfterFree"
proof -
  have "wpe {UseAfterFree} (server_start batch_run) (\<lambda>_ _. False) demo_start"
    by (simp add: evaluate shut_defs batch_run_def)
  then show ?thesis by (auto dest: wpe_only)
qed

text \<open>When \<open>sock_create\<close> finds no memory, \<open>tunnel_create\<close> frees a tunnel the list still holds.\<close>

lemma freed_tunnel_run: "server_start [ev_accept 3 5] (demo_start\<lparr>oom := (\<lambda>n. n = 2)\<rparr>) = Inl UseAfterFree"
proof -
  have "wpe {UseAfterFree} (server_start [ev_accept 3 5]) (\<lambda>_ _. False) (demo_start\<lparr>oom := (\<lambda>n. n = 2)\<rparr>)"
    by (simp add: evaluate)
  then show ?thesis by (auto dest: wpe_only)
qed

text \<open>When the first of the two buffers cannot be made, the block of the socket is lost.\<close>

lemma sock_create_leak:
  "\<exists>w. sock_create 5 sock_connected 1 (Some 0) (demo_start\<lparr>oom := (\<lambda>n. n = 1)\<rparr>) = Inr (None, w) \<and>
     live w = live demo_start + 1"
proof -
  have "wpe {} (sock_create 5 sock_connected 1 (Some 0)) (\<lambda>p w. p = None \<and> live w = live demo_start + 1)
     (demo_start\<lparr>oom := (\<lambda>n. n = 1)\<rparr>)" by (simp add: evaluate)
  from wpe_total [OF this] show ?thesis by auto
qed

section \<open>Ways around the credentials\<close>

text \<open>
  A remote connection that is accepted while a client has not yet said anything makes the tunnel
  connected: what the client sends is passed on, though credentials are configured.
\<close>

lemma unauthenticated_run:
  "\<exists>w T s. server_start [ev_accept 3 5, ev_accept 4 6, ev_in 5 [7]] auth_start = Inr (0, w) \<and>
     tunnels w 0 = Some T \<and> t_state T = connected_state \<and> remote_sock T = Some 3 \<and>
     socks w 3 = Some s \<and> s_fd s = 6 \<and> contents (write_buff s) = [7]"
proof -
  have "wpe {} (server_start [ev_accept 3 5, ev_accept 4 6, ev_in 5 [7]]) (\<lambda>r w. r = 0 \<and> (\<exists>T s.
     tunnels w 0 = Some T \<and> t_state T = connected_state \<and> remote_sock T = Some 3 \<and>
     socks w 3 = Some s \<and> s_fd s = 6 \<and> contents (write_buff s) = [7])) auth_start"
    by (simp add: evaluate)
  from wpe_total [OF this] show ?thesis by blast
qed

text \<open>
  A tunnel keeps the name and the password of the client before.  The next client may send an
  empty name and an empty password: nothing is copied over the old ones, which match.
\<close>

definition login_run :: "wait_result list" where
  "login_run = [ev_accept 3 5, ev_in 5 [5, 1, 2], ev_in 5 [1, 1, 0x75, 1, 0x70], ev_out 5 100, ev_in 5 []]"

definition empty_login_run :: "wait_result list" where
  "empty_login_run = [ev_accept 3 7, ev_in 7 [5, 1, 2], ev_in 7 [1, 0, 0]]"

lemma stale_credentials_run:
  "\<exists>w T. server_start (login_run @ empty_login_run) auth_start = Inr (0, w) \<and> tunnels w 0 = Some T \<and>
     t_state T = request_state"
proof -
  have "wpe {} (server_start (login_run @ empty_login_run)) (\<lambda>r w. r = 0 \<and> (\<exists>T.
     tunnels w 0 = Some T \<and> t_state T = request_state)) auth_start"
    by (simp add: login_run_def empty_login_run_def evaluate auth_defs shut_defs)
  from wpe_total [OF this] show ?thesis by blast
qed

lemma empty_login_refused_run:
  "\<exists>w T. server_start empty_login_run auth_start = Inr (0, w) \<and> tunnels w 0 = Some T \<and>
     t_state T = auth_state \<and> priv_sock T = None"
proof -
  have "wpe {} (server_start empty_login_run) (\<lambda>r w. r = 0 \<and> (\<exists>T.
     tunnels w 0 = Some T \<and> t_state T = auth_state \<and> priv_sock T = None)) auth_start"
    by (simp add: empty_login_run_def evaluate auth_defs shut_defs)
  from wpe_total [OF this] show ?thesis by blast
qed

section \<open>Two messages in one read\<close>

text \<open>
  A client that sends its greeting and its request at once gets the answer to the greeting; the request
  stays in the read buffer, and the events in which the socket can be written do not look at it.
\<close>

definition coalesced_run :: "wait_result list" where
  "coalesced_run = [ev_accept 3 5, ev_in 5 [5, 1, 0, 5, 1, 0, 1, 10, 0, 0, 7, 0, 80], ev_out 5 100, ev_out 5 100]"

lemma coalesced_stuck_run:
  "\<exists>w T s. server_start coalesced_run demo_start = Inr (0, w) \<and> wire w 5 = [5, 0] \<and> tunnels w 0 = Some T \<and>
     t_state T = request_state \<and> socks w 2 = Some s \<and> contents (read_buff s) = [5, 1, 0, 1, 10, 0, 0, 7, 0, 80] \<and>
     contents (write_buff s) = []"
proof -
  have "wpe {} (server_start coalesced_run) (\<lambda>r w. r = 0 \<and> (\<exists>T s. wire w 5 = [5, 0] \<and> tunnels w 0 = Some T \<and>
     t_state T = request_state \<and> socks w 2 = Some s \<and> contents (read_buff s) = [5, 1, 0, 1, 10, 0, 0, 7, 0, 80] \<and>
     contents (write_buff s) = [])) demo_start"
    by (simp add: coalesced_run_def evaluate upt_rec)
  from wpe_total [OF this] show ?thesis by blast
qed

end
