(* ===== verification/Lists.thy ===== *)
theory Lists
  imports Runs
begin

text \<open>
  The properties of the intrusive lists and of the pools of \<open>Utils.c\<close>: the pointer operations
  against HOL lists, and the searches against \<open>find\<close>.
\<close>

section \<open>Rings\<close>

text \<open>A ring of two cells, 1 before 0, under the head 9.\<close>

definition ring2 :: "nat links" where
  "ring2 = list_add (list_add (INIT_LIST_HEAD \<lparr>prev = (\<lambda>x. x), nxt = (\<lambda>x. x)\<rparr> 9) 0 9) 1 9"

lemma ring2_ok: "dlist ring2 9 [1, 0]"
  unfolding ring2_def by (rule dlist_add [OF dlist_add [OF dlist_INIT]]) simp_all

text \<open>
  C34: \<open>list_add\<close> puts a cell in front: a forward traversal meets it first and then the
  others as before, a backward one meets it last.
\<close>

theorem list_add_in_front:
  assumes "dlist l h xs" and "new \<notin> set (h # xs)" and "length xs < n"
  shows "list_for_each n (list_add l new h) h (nxt (list_add l new h) h) = Some (new # xs) \<and>
     list_for_prev n (list_add l new h) h (prev (list_add l new h) h) = Some (rev xs @ [new])"
  using dlist_for_each [OF dl.rep_add [OF assms(1,2)], of n] dlist_for_prev [OF dl.rep_add [OF assms(1,2)], of n] assms(3)
  by simp

lemma list_add_in_front_witness:
  "list_for_each 3 (list_add ring2 5 9) 9 (nxt (list_add ring2 5 9) 9) = Some [5, 1, 0] \<and>
   list_for_prev 3 (list_add ring2 5 9) 9 (prev (list_add ring2 5 9) 9) = Some [0, 1, 5]"
  using list_add_in_front [OF ring2_ok, of 5 3] by simp

text \<open>
  \<open>list_add_tail\<close> puts a cell at the end: a forward traversal meets it last, a backward one first.
\<close>

lemma list_add_tail_at_end:
  assumes "dlist l h xs" and "new \<notin> set (h # xs)" and "length xs < n"
  shows "list_for_each n (list_add_tail l new h) h (nxt (list_add_tail l new h) h) = Some (xs @ [new]) \<and>
     list_for_prev n (list_add_tail l new h) h (prev (list_add_tail l new h) h) = Some (new # rev xs)"
  using dlist_for_each [OF dlist_add_tail [OF assms(1,2)], of n] dlist_for_prev [OF dlist_add_tail [OF assms(1,2)], of n] assms(3)
  by simp

lemma list_add_tail_at_end_witness:
  "list_for_each 3 (list_add_tail ring2 5 9) 9 (nxt (list_add_tail ring2 5 9) 9) = Some [1, 0, 5] \<and>
   list_for_prev 3 (list_add_tail ring2 5 9) 9 (prev (list_add_tail ring2 5 9) 9) = Some [5, 0, 1]"
  using list_add_tail_at_end [OF ring2_ok, of 5 3] by simp

text \<open>
  C33: \<open>list_del\<close> takes out the cell it is given and no other, wherever it hangs; both directions agree, and
  taking out the only cell leaves a list that \<open>list_empty\<close> calls empty.
\<close>

theorem list_del_removes:
  assumes "dlist l h xs" and "x \<in> set xs" and "length xs \<le> n"
  shows "list_for_each n (list_del l x) h (nxt (list_del l x) h) = Some (remove1 x xs) \<and>
     list_for_prev n (list_del l x) h (prev (list_del l x) h) = Some (rev (remove1 x xs)) \<and>
     (list_empty (list_del l x) h \<longleftrightarrow> xs = [x])"
proof -
  have d: "dlist (list_del l x) h (remove1 x xs)" by (rule dl.del_member [OF assms(1,2)])
  have "length (remove1 x xs) \<le> n" using assms(3) by (simp add: length_remove1 le_diff_conv)
  moreover have "remove1 x xs = [] \<longleftrightarrow> xs = [x]" using assms(2) by (cases xs) auto
  ultimately show ?thesis using dlist_for_each [OF d] dlist_for_prev [OF d] dl.rep_empty [OF d] by simp
qed

lemma list_del_removes_witness:
  "list_for_each 2 (list_del ring2 1) 9 (nxt (list_del ring2 1) 9) = Some [0] \<and>
   list_for_prev 2 (list_del ring2 1) 9 (prev (list_del ring2 1) 9) = Some [0] \<and> \<not> list_empty (list_del ring2 1) 9"
  using list_del_removes [OF ring2_ok, of 1 2] by simp

text \<open>
  C35: adding a cell and deleting it again is the identity on what traversals see, in both directions.
\<close>

theorem list_add_del_roundtrip:
  assumes "dlist l h xs" and "new \<notin> set (h # xs)" and "length xs \<le> n"
  shows "list_for_each n (list_del (list_add l new h) new) h (nxt (list_del (list_add l new h) new) h) =
       list_for_each n l h (nxt l h) \<and>
     list_for_prev n (list_del (list_add l new h) new) h (prev (list_del (list_add l new h) new) h) =
       list_for_prev n l h (prev l h)"
  using dl.add_del [OF assms(1,2)] assms(1,3) by (simp add: dlist_for_each dlist_for_prev)

lemma list_add_del_roundtrip_witness:
  "list_for_each 2 (list_del (list_add ring2 5 9) 5) 9 (nxt (list_del (list_add ring2 5 9) 5) 9) =
     list_for_each 2 ring2 9 (nxt ring2 9)"
  using list_add_del_roundtrip [OF ring2_ok, of 5 2] by simp

section \<open>Pools\<close>

lemma find_split:
  "xs = ys @ x # zs \<Longrightarrow> P x \<Longrightarrow> \<forall>y \<in> set ys. \<not> P y \<Longrightarrow> List.find P xs = Some x"
  by (induction ys arbitrary: xs) auto

lemma find_none: "\<forall>x \<in> set xs. \<not> P x \<Longrightarrow> List.find P xs = None"
  by (simp add: find_None_iff)

text \<open>Two tunnels in use, 1 and 0, one parked place, 4.\<close>

definition pool_world :: world where
  "pool_world = demo_start\<lparr>next_addr := 6,
     conns := [0 \<mapsto> \<lparr>c_tunnel = Some 2\<rparr>, 1 \<mapsto> \<lparr>c_tunnel = Some 3\<rparr>, 4 \<mapsto> \<lparr>c_tunnel = Some 5\<rparr>],
     tunnels := [2 \<mapsto> zero_tunnel, 3 \<mapsto> zero_tunnel\<lparr>t_status := tunn_is_run\<rparr>, 5 \<mapsto> zero_tunnel\<lparr>t_status := tmptun_is_free\<rparr>],
     links := list_add (list_add (list_add (links demo_start) (Cell 0) HApp) (Cell 1) HApp) (Cell 4) HWait\<rparr>"

lemma pool_world_ok: "pools pool_world [1, 0] [4]"
  by (simp add: pools_def pool_world_def start_defs dlist_def list_add_def)

lemma AppListFnd_run:
  assumes "pools w as ws" and "\<forall>x \<in> set as. cbf x p w = Inr (c x, w)"
  shows "AppListFnd p cbf w = Inr (List.find (\<lambda>x. c x = 0) as, w)"
proof -
  have "wpe {} (cbf x p) (\<lambda>k w'. w' = w \<and> k = c x) w" if "x \<in> set as" for x
    using assms(2) that by (simp add: wpe_def)
  from wpe_total [OF AppListFnd_spec [where P = "\<lambda>x k. k = c x" and cbf = cbf and p = p, OF assms(1) this]] obtain r
    where run: "AppListFnd p cbf w = Inr (r, w)" and r: "case r of None \<Rightarrow> \<forall>x \<in> set as. \<exists>k. k \<noteq> 0 \<and> k = c x
       | Some x \<Rightarrow> \<exists>ys zs. as = ys @ x # zs \<and> 0 = c x \<and> (\<forall>y \<in> set ys. \<exists>k. k \<noteq> 0 \<and> k = c y)" by blast
  from r have "r = List.find (\<lambda>x. c x = 0) as"
    by (cases r) (auto simp: find_none intro: find_split [symmetric])
  with run show ?thesis by simp
qed

text \<open>
  C31: \<open>AppListFnd\<close> is \<open>find\<close>: with a comparison that only looks at the store, the search ends,
  changes nothing, and returns the first element, youngest first, that compares equal, or \<open>NULL\<close> if there is none.
\<close>

theorem AppListFnd_is_find:
  assumes "pools w as ws" and "\<forall>x \<in> set as. cbf x p w = Inr (c x, w)"
  shows "AppListFnd p cbf w = Inr (List.find (\<lambda>x. c x = 0) as, w)"
  using assms by (rule AppListFnd_run)

lemma AppListFnd_is_find_witness:
  "AppListFnd None appCompare pool_world = Inr (List.find (\<lambda>x. (if x = 0 then 0 else -1 :: int) = 0) [1, 0], pool_world)"
  by (rule AppListFnd_is_find [OF pool_world_ok])
     (simp add: appCompare_def conn_tunnel_def bnd_def load_def ret_def pool_world_def zero_tunnel_def)

text \<open>
  C32: \<open>AppListGet\<close> takes the element it returns out of its list, and only that one: the parked
  connections are as before, and without a match nothing changes.
\<close>

theorem AppListGet_removes:
  assumes "pools w as ws" and "\<forall>x \<in> set as. cbf x p w = Inr (c x, w)"
  shows "\<exists>w'. AppListGet p cbf w = Inr (List.find (\<lambda>x. c x = 0) as, w') \<and>
     (case List.find (\<lambda>x. c x = 0) as of None \<Rightarrow> w' = w
      | Some a \<Rightarrow> pools w' (remove1 a as) ws \<and> w' = w\<lparr>links := links w'\<rparr>)"
proof (cases "List.find (\<lambda>x. c x = 0) as")
  case None
  with AppListFnd_run [where c = c and cbf = cbf and p = p, OF assms] show ?thesis by (simp add: AppListGet_def bnd_def ret_def)
next
  case (Some a)
  let ?w = "w\<lparr>links := list_del (links w) (Cell a)\<rparr>"
  from Some have "a \<in> set as" by (auto simp: find_Some_iff)
  then obtain ys zs where as: "as = ys @ a # zs" "a \<notin> set ys" by (meson split_list_first)
  then have rm: "remove1 a as = ys @ zs" by (simp add: remove1_append)
  have "dlist (links ?w) HApp (map Cell (ys @ zs))"
    using dl.rep_del [of "links w" HApp "map Cell ys" "Cell a" "map Cell zs"] assms(1) as by (simp add: pools_def)
  moreover have "dlist (links ?w) HWait (map Cell ws)"
    using dlist_del_other [of "links w" HApp "map Cell ys" "Cell a" "map Cell zs" HWait "map Cell ws"] assms(1) as
    by (auto simp: pools_def)
  ultimately have "pools ?w (remove1 a as) ws" using assms(1) as(1) unfolding rm by (auto simp: pools_def)
  with AppListFnd_run [where c = c and cbf = cbf and p = p, OF assms] Some show ?thesis
    by (intro exI [of _ ?w]) (simp add: AppListGet_def bnd_def ret_def list_del_cell_def modifies_def)
qed

lemma AppListGet_removes_witness:
  "\<exists>w'. AppListGet None appCompare pool_world = Inr (Some 0, w') \<and> pools w' [1] [4]"
proof -
  have "\<forall>x \<in> set [1, 0]. appCompare x None pool_world = Inr (if x = 0 then 0 else -1, pool_world)"
    by (simp add: appCompare_def conn_tunnel_def bnd_def load_def ret_def pool_world_def zero_tunnel_def)
  from AppListGet_removes [where c = "\<lambda>x. if x = 0 then 0 else -1" and cbf = appCompare and p = None, OF pool_world_ok this] show ?thesis by auto
qed

text \<open>
  The two lists do not disturb each other: parking a connection puts it in front of the
  wait list, leaves the list of tunnels as it is, and changes nothing but list pointers.
\<close>

lemma waitListAdd_separate:
  assumes "pools w as ws" and "conns w a \<noteq> None" and "a < next_addr w" and "a \<notin> set as \<union> set ws"
  shows "\<exists>w'. waitListAdd (Some a) w = Inr (0, w') \<and> pools w' as (a # ws) \<and> w' = w\<lparr>links := links w'\<rparr>"
  using waitListAdd_spec [OF assms(1) _ assms(3,4)] assms(2) by auto

lemma waitListAdd_separate_witness:
  "\<exists>w'. waitListAdd (Some 3) (pool_world\<lparr>conns := (conns pool_world)(3 \<mapsto> \<lparr>c_tunnel = Some 5\<rparr>)\<rparr>) = Inr (0, w') \<and> pools w' [1, 0] [3, 4]"
proof -
  let ?w = "pool_world\<lparr>conns := (conns pool_world)(3 \<mapsto> \<lparr>c_tunnel = Some 5\<rparr>)\<rparr>"
  have "pools ?w [1, 0] [4]" using pool_world_ok by (simp add: pools_def)
  from waitListAdd_separate [OF this, of 3] show ?thesis by (auto simp: pool_world_def)
qed

end
