(* ===== verification/Served.thy ===== *)
theory Served
  imports Runs
begin

text \<open>
  The properties of the running server: what holds in every state the event loop can reach from
  a successful start while \<open>malloc\<close> and \<open>realloc\<close> find memory, whatever the kernel reports and
  the peers send.  They follow from the
  invariant of \<open>Invariant\<close> through the interpretations \<open>calm_server\<close> (at most one event per turn)
  and \<open>busy_server\<close> (any number of them) of \<open>Loop\<close>.
\<close>

text \<open>
  Both kinds of state are those of runs in which the allocator always has memory (\<open>plenty\<close>).  The
  hypothesis is needed: when \<open>sock_create\<close> finds none, \<open>tunnel_create\<close> frees a tunnel that its list
  still holds (\<open>freed_tunnel_run\<close> in \<open>Runs\<close>).
\<close>

abbreviation calm_state :: "(nat \<Rightarrow> bool) \<Rightarrow> world \<Rightarrow> bool" where
  "calm_state mem \<equiv> reach (started mem) calm server_round"

abbreviation busy_state :: "(nat \<Rightarrow> bool) \<Rightarrow> world \<Rightarrow> bool" where
  "busy_state mem \<equiv> reach (started mem) (\<lambda>_. True) server_round"

section \<open>States for the witnesses\<close>

lemma started_demo: "started plenty demo_start"
proof -
  have "plenty = (\<lambda>_. False)" by (simp add: fun_eq_iff plenty_def)
  then have "server_boot (\<lambda>_. 0) (\<lambda>_. 0) (net_ok 3) (net_ok 4) True (\<lambda>_. 0) (\<lambda>_. 0)
     (boot_world plenty (\<lambda>_. 0) \<lparr>prev = (\<lambda>x. x), nxt = (\<lambda>x. x)\<rparr>) = Inr (0, demo_start)"
    using demo_started by (simp only: demo_boot_def)
  then show ?thesis unfolding started_def by blast
qed

lemma calm_demo: "calm_state plenty demo_start"
  by (rule reach.reach_init) (rule started_demo)

lemma busy_demo: "busy_state plenty demo_start"
  by (rule reach.reach_init) (rule started_demo)

text \<open>After the first connection: socket 2 on descriptor 5 is the private side of tunnel 0.\<close>

definition one_client :: "world \<Rightarrow> bool" where
  "one_client w \<longleftrightarrow> (\<exists>s T. socks w 2 = Some s \<and> s_fd s = 5 \<and> ispriv s = 1 \<and> s_tunnel s = Some 0 \<and>
     tunnels w 0 = Some T \<and> priv_sock T = Some 2 \<and> remote_sock T = None \<and> t_state T = open_state \<and>
     epoll w 5 = Some \<lparr>ep_ptr = UdSock 2, ep_out = False, ep_in = True\<rparr>)"

lemma one_client_run: "\<exists>w. server_round (ev_accept 3 5) demo_start = Inr (0, w) \<and> one_client w"
proof -
  have "wpe {} (server_round (ev_accept 3 5)) (\<lambda>r w. r = 0 \<and> one_client w) demo_start"
    unfolding one_client_def by (simp add: evaluate)
  from wpe_total [OF this] show ?thesis by blast
qed

lemma busy_client: "\<exists>w. busy_state plenty w \<and> one_client w"
proof -
  from one_client_run obtain w where "server_round (ev_accept 3 5) demo_start = Inr (0, w)" "one_client w" by blast
  with reach_step [OF busy_demo _ this(1)] show ?thesis by blast
qed

section \<open>Faults\<close>

text \<open>
  C1: as long as memory lasts, and when every turn of the loop gets at most one event, the server
  never uses released memory, accesses no array or block out of its bounds, never fails an assertion,
  never loops for ever and never reallocates to size 0, whatever the peers send and the kernel
  answers.  Two faults are left: a null pointer, and a name without its zero that is printed with \<open>%s\<close>
  (\<open>rp->addr\<close>, the only string the loop prints).
\<close>

theorem calm_turn_faults:
  assumes "calm_state plenty w" and "calm r" and "server_round r w = Inl e"
  shows "e = NullDeref \<or> e = Unterminated"
  using calm_server.reach_faults [OF assms] by blast

lemma calm_turn_faults_witness:
  "\<exists>w e. calm_state plenty w \<and> server_round (ev_accept 4 6) w = Inl e \<and> (e = NullDeref \<or> e = Unterminated)"
proof -
  have ev: "calm (ev_accept 3 5)" "calm (ev_in 5 [4, 1, 0])" "calm (ev_accept 4 6)"
    by (simp_all add: calm_def ev_accept_def ev_in_def)
  have "wpe {} (server_start [ev_accept 3 5, ev_in 5 [4, 1, 0]]) (\<lambda>r w. r = 0 \<and> server_round (ev_accept 4 6) w = Inl NullDeref) demo_start"
  proof -
    have "wpe {} (server_start [ev_accept 3 5, ev_in 5 [4, 1, 0]])
       (\<lambda>r w. r = 0 \<and> wpe {NullDeref} (server_round (ev_accept 4 6)) (\<lambda>_ _. False) w) demo_start"
      by (simp add: evaluate)
    then show ?thesis by (rule wpe_conseq) (auto dest: wpe_only)
  qed
  from wpe_total [OF this] obtain w where w: "server_start [ev_accept 3 5, ev_in 5 [4, 1, 0]] demo_start = Inr (0, w)"
    "server_round (ev_accept 4 6) w = Inl NullDeref" by blast
  from w(1) obtain x1 w1 x2 where "server_round (ev_accept 3 5) demo_start = Inr (x1, w1)" "server_round (ev_in 5 [4, 1, 0]) w1 = Inr (x2, w)"
    by (auto simp: bnd_def ret_def split: sum.splits if_splits prod.splits)
  with calm_demo ev have c: "calm_state plenty w" by (blast intro: reach_step)
  from calm_turn_faults [OF c ev(3) w(2)] c w(2) show ?thesis by blast
qed

text \<open>
  What a batch does when it faults: either one of the two faults above, or it has come to an event of a
  socket that the events before it have released.
\<close>

lemma server_events_fault:
  assumes "world_ok w" and "\<forall>(ud, e) \<in> set evs. event_ok ud e" and "server_events evs w = Inl f"
  shows "f \<in> crashes \<or> f = UseAfterFree \<and> (\<exists>evs1 a e evs2 w'. evs = evs1 @ (UdSock a, e) # evs2 \<and>
     server_events evs1 w = Inr ((), w') \<and> socks w' a = None)"
  using assms
proof (induction evs arbitrary: w)
  case Nil
  then show ?case by (simp add: ret_def)
next
  case (Cons x evs)
  obtain ud e where x: "x = (ud, e)" by (cases x)
  have ev: "event_ok ud e" using Cons.prems(2) x by simp
  have freed: "crashes \<subseteq> insert UseAfterFree crashes"
    "ud = UdSock a \<Longrightarrow> socks w a \<noteq> None \<or> UseAfterFree \<in> insert UseAfterFree crashes" for a by auto
  show ?case
  proof (cases "server_event ud e w")
    case (Inl f')
    with Cons.prems(3) x have f: "f' = f" by (simp add: bnd_def)
    show ?thesis
    proof (cases "\<exists>a. ud = UdSock a \<and> socks w a = None")
      case True
      then obtain a where a: "ud = UdSock a" "socks w a = None" by blast
      from wpe_Inl [OF server_event_safe [OF Cons.prems(1) ev freed(1) freed(2)] Inl] f
      have "f \<in> insert UseAfterFree crashes" by blast
      moreover have "x # evs = [] @ (UdSock a, e) # evs" "server_events [] w = Inr ((), w)" using a x by (simp_all add: ret_def)
      ultimately show ?thesis using a(2) by blast
    next
      case False
      then have live: "ud = UdSock a \<Longrightarrow> socks w a \<noteq> None \<or> UseAfterFree \<in> crashes" for a by auto
      from wpe_Inl [OF server_event_safe [OF Cons.prems(1) ev subset_refl live] Inl] f show ?thesis by blast
    qed
  next
    case (Inr y)
    then obtain r w1 where r: "server_event ud e w = Inr (r, w1)" by (cases y) auto
    with Cons.prems(3) x have go: "\<not> r < 0" "server_events evs w1 = Inl f"
      by (auto simp: bnd_def ret_def split: if_splits)
    have "world_ok w1"
      by (rule wpe_Inr [OF server_event_safe [OF Cons.prems(1) ev freed(1) freed(2)] r])
    from Cons.IH [OF this _ go(2)] Cons.prems(2)
    consider "f \<in> crashes" | evs1 a e' evs2 w' where "f = UseAfterFree" "evs = evs1 @ (UdSock a, e') # evs2"
      "server_events evs1 w1 = Inr ((), w')" "socks w' a = None" by auto
    then show ?thesis
    proof cases
      case 2
      then have "x # evs = (x # evs1) @ (UdSock a, e') # evs2" "server_events (x # evs1) w = Inr ((), w')"
        using x r go(1) by (simp_all add: bnd_def)
      with 2 show ?thesis by blast
    qed blast
  qed
qed

text \<open>
  C2: as long as memory lasts, and with any number of events per turn, there is one more fault, and it
  is in a batch only: \<open>epoll_wait\<close> has reported an event of a socket that was alive, and the events
  before it in the same batch have released this socket.  Assertions still hold and every loop of a turn ends:
  the searches of the lists, the pairing, the growing of a buffer.
\<close>

theorem busy_turn_faults:
  assumes "busy_state plenty w" and "server_round r w = Inl f"
  shows "f = NullDeref \<or> f = Unterminated \<or> f = UseAfterFree \<and>
     (\<exists>es evs1 a e evs2 w'. r = WaitEvents es \<and> epoll_wait es w = Inr (evs1 @ (UdSock a, e) # evs2, w) \<and>
        socks w a \<noteq> None \<and> server_events evs1 w = Inr ((), w') \<and> socks w' a = None)"
proof -
  from busy_server.reach_inv [OF assms(1)] have ok: "world_ok w" .
  show ?thesis
  proof (cases r)
    case (WaitErr e)
    from wpe_Inl [OF server_round_err_safe [OF ok subset_refl, of e]] assms(2) WaitErr show ?thesis by blast
  next
    case (WaitEvents es)
    from epoll_wait_ok [OF ok, of es] obtain evs where w: "epoll_wait es w = Inr (evs, w)"
      "\<forall>(ud, e) \<in> set evs. event_ok ud e \<and> (\<forall>a. ud = UdSock a \<longrightarrow> socks w a \<noteq> None)" by blast
    have ev: "\<forall>(ud, e) \<in> set evs. event_ok ud e" using w(2) by blast
    show ?thesis
    proof (cases "server_events evs w")
      case (Inl f')
      with assms(2) WaitEvents w(1) have "f' = f" by (simp add: server_round_def bnd_def)
      with server_events_fault [OF ok ev Inl] w WaitEvents show ?thesis by fastforce
    next
      case (Inr y)
      then obtain w1 where w1: "server_events evs w = Inr ((), w1)" by (cases y) auto
      from wpe_Inr [OF server_events_safe [OF ok ev] w1] have "world_ok w1" .
      from wpe_Inl [OF pairing_after [OF this subset_refl]] assms(2) WaitEvents w(1) w1
      show ?thesis by (auto simp: server_round_def bnd_def)
    qed
  qed
qed

lemma busy_turn_faults_witness:
  "\<exists>w es. busy_state plenty w \<and> server_round (WaitEvents es) w = Inl UseAfterFree \<and>
     (\<exists>evs1 a e evs2 w'. epoll_wait es w = Inr (evs1 @ (UdSock a, e) # evs2, w) \<and>
        socks w a \<noteq> None \<and> server_events evs1 w = Inr ((), w') \<and> socks w' a = None)"
proof -
  let ?es = "[kev_in 5 (RdBytes []), kev_in 6 (RdBytes [7])]"
  have "wpe {} (server_start [ev_accept 3 5, ev_accept 4 6]) (\<lambda>r w. r = 0 \<and> wpe {UseAfterFree} (server_round (WaitEvents ?es)) (\<lambda>_ _. False) w) demo_start"
    by (simp add: evaluate shut_defs)
  from wpe_total [OF this] obtain w where w: "server_start [ev_accept 3 5, ev_accept 4 6] demo_start = Inr (0, w)"
    "server_round (WaitEvents ?es) w = Inl UseAfterFree" by (auto dest: wpe_only)
  from w(1) obtain x1 w1 x2 where "server_round (ev_accept 3 5) demo_start = Inr (x1, w1)" "server_round (ev_accept 4 6) w1 = Inr (x2, w)"
    by (auto simp: bnd_def ret_def split: sum.splits if_splits prod.splits)
  with busy_demo have b: "busy_state plenty w" by (blast intro: reach_step)
  from busy_turn_faults [OF b w(2)] have "\<exists>evs1 a e evs2 w'. epoll_wait ?es w = Inr (evs1 @ (UdSock a, e) # evs2, w) \<and>
      socks w a \<noteq> None \<and> server_events evs1 w = Inr ((), w') \<and> socks w' a = None" by blast
  with b w(2) show ?thesis by blast
qed

section \<open>Invariants\<close>

lemma busy_inv: "busy_state plenty w \<Longrightarrow> \<exists>as ws. winv as ws {} {} w"
  using busy_server.reach_inv by (auto simp: world_ok_def)

text \<open>
  C11: as long as memory lasts, the registry of \<open>epoll\<close> never dangles: between turns, a pointer that is registered is that of a
  live socket, under the descriptor of this socket, which is open.
\<close>

theorem registry_never_dangles:
  assumes "busy_state plenty w" and "epoll w fd = Some i" and "ep_ptr i = UdSock a"
  shows "\<exists>s. socks w a = Some s \<and> s_fd s = fd \<and> fd_open w fd"
proof -
  from busy_inv [OF assms(1)] obtain as ws where inv: "winv as ws {} {} w" by blast
  then have "interest_ok w fd i" using assms(2) by (simp add: winv_def registry_ok_def)
  then obtain s where s: "socks w a = Some s" "s_fd s = fd" using assms(3) by (auto simp: interest_ok_def)
  with winv_sock(5) [OF inv s(1)] show ?thesis by auto
qed

lemma registry_never_dangles_witness:
  "\<exists>w s. busy_state plenty w \<and> socks w 2 = Some s \<and> s_fd s = 5 \<and> fd_open w 5"
proof -
  from busy_client obtain w where w: "busy_state plenty w" "one_client w" by blast
  then have "epoll w 5 = Some \<lparr>ep_ptr = UdSock 2, ep_out = False, ep_in = True\<rparr>" by (auto simp: one_client_def)
  from registry_never_dangles [OF w(1) this, of 2] w show ?thesis by auto
qed

text \<open>
  C14: as long as memory lasts, descriptors are owned: every live socket has an open descriptor of its own, none of the two listeners.
\<close>

theorem descriptors_owned:
  assumes "busy_state plenty w" and "socks w a = Some s"
  shows "fd_open w (s_fd s) \<and> s_fd s \<noteq> SERVER_fd w \<and> s_fd s \<noteq> SERVER2_fd w \<and>
     (\<forall>b s'. socks w b = Some s' \<longrightarrow> b \<noteq> a \<longrightarrow> s_fd s' \<noteq> s_fd s)"
proof -
  from busy_inv [OF assms(1)] obtain as ws where inv: "winv as ws {} {} w" by blast
  with winv_sock(5-7) [OF inv assms(2)] assms(2) show ?thesis by (auto simp: winv_def socks_ok_def)
qed

lemma descriptors_owned_witness:
  "\<exists>w. busy_state plenty w \<and> socks w 2 \<noteq> None \<and> fd_open w 5"
proof -
  from busy_client obtain w s where "busy_state plenty w" "socks w 2 = Some s" "s_fd s = 5" by (auto simp: one_client_def)
  with descriptors_owned [OF this(1,2)] show ?thesis by auto
qed

text \<open>
  C12: as long as memory lasts, tunnels and sockets agree: a socket a tunnel points to is alive, points back to this tunnel, and
  is marked as the side it is on; so no two tunnels share a socket.
\<close>

theorem tunnels_and_sockets_agree:
  assumes "busy_state plenty w" and "tunnels w t = Some T"
  shows "(\<forall>a. priv_sock T = Some a \<longrightarrow> (\<exists>s. socks w a = Some s \<and> s_tunnel s = Some t \<and> ispriv s \<noteq> 0)) \<and>
     (\<forall>a. remote_sock T = Some a \<longrightarrow> (\<exists>s. socks w a = Some s \<and> s_tunnel s = Some t \<and> ispriv s = 0))"
proof -
  from busy_inv [OF assms(1)] obtain as ws where inv: "winv as ws {} {} w" by blast
  from winv_tunnel(1) [OF inv assms(2)] show ?thesis by (auto simp: peers_ok_def peer_ok_def)
qed

lemma tunnels_and_sockets_agree_witness:
  "\<exists>w s. busy_state plenty w \<and> socks w 2 = Some s \<and> s_tunnel s = Some 0 \<and> ispriv s \<noteq> 0"
proof -
  from busy_client obtain w T where "busy_state plenty w" "tunnels w 0 = Some T" "priv_sock T = Some 2" by (auto simp: one_client_def)
  with tunnels_and_sockets_agree [OF this(1,2)] show ?thesis by blast
qed

text \<open>
  C22: as long as memory lasts, a handshake is always at a position its handlers know: \<open>read_count\<close> has one of the values they
  compare it with, the lengths already accepted are at most 20, \<open>connecting_state\<close> is never
  entered, and the name and the password are closed by a zero.
\<close>

theorem handshake_positions:
  assumes "busy_state plenty w" and "tunnels w t = Some T"
  shows "t_state T \<noteq> connecting_state \<and>
     (t_state T = open_state \<longrightarrow> read_count T \<in> {0, 2}) \<and>
     (t_state T = auth_state \<longrightarrow> read_count T \<in> {0, 2} \<union> {2 + unat (ap_ulen (t_ap T)), 3 + unat (ap_ulen (t_ap T))} \<and>
        (read_count T \<noteq> 0 \<longrightarrow> unat (ap_ulen (t_ap T)) \<le> 20)) \<and>
     (t_state T = request_state \<longrightarrow> read_count T \<in> {0, 4, 5}) \<and>
     ap_uname (t_ap T) 20 = 0 \<and> ap_passwd (t_ap T) 20 = 0"
proof -
  from busy_inv [OF assms(1)] obtain as ws where inv: "winv as ws {} {} w" by blast
  from winv_tunnel(2,3) [OF inv assms(2)] show ?thesis
    by (auto simp: phase_ok_def creds_ok_def nheader_open_def nheader_auth_def nplen_def nheader_req_def ndomainlen_def
        MAX_UNAME_LEN_def MAX_PASSWD_LEN_def split: tunnel_state.splits)
qed

lemma handshake_positions_witness:
  "\<exists>w T. busy_state plenty w \<and> tunnels w 0 = Some T \<and> t_state T = open_state \<and> read_count T \<in> {0, 2}"
proof -
  from busy_client obtain w T where "busy_state plenty w" "tunnels w 0 = Some T" "t_state T = open_state" by (auto simp: one_client_def)
  with handshake_positions [OF this(1,2)] show ?thesis by blast
qed

text \<open>
  C24: as long as memory lasts, the buffers of every live socket stay inside their blocks: the read offset is at most the
  write offset, the write offset at most the capacity, and the capacity at most \<open>2 ^ 30\<close>.
\<close>

theorem buffers_bounded:
  assumes "busy_state plenty w" and "socks w a = Some s" and "b \<in> {read_buff s, write_buff s}"
  shows "read_index b \<le> write_index b \<and> write_index b \<le> cap b \<and> cap b \<le> 2 ^ 30 \<and> buff_readable b = length (contents b)"
proof -
  from busy_inv [OF assms(1)] obtain as ws where inv: "winv as ws {} {} w" by blast
  from winv_sock(3,4) [OF inv assms(2)] assms(3) have "wf_buff b" by auto
  then show ?thesis using wf_buff_bounds [of b] by (auto simp: buff_readable_wf)
qed

lemma buffers_bounded_witness:
  "\<exists>w s. busy_state plenty w \<and> socks w 2 = Some s \<and> write_index (read_buff s) \<le> cap (read_buff s)"
proof -
  from busy_client obtain w s where "busy_state plenty w" "socks w 2 = Some s" by (auto simp: one_client_def)
  with buffers_bounded [OF this, of "read_buff s"] show ?thesis by blast
qed

text \<open>
  C25: as long as memory lasts, the two lists stay rings that can be walked: a traversal of either, in either direction, meets
  each element once and ends after at most as many steps as there are objects, and the lists share no element.
\<close>

theorem pools_stay_rings:
  assumes "busy_state plenty w"
  shows "\<exists>as ws. list_for_each (next_addr w) (links w) HApp (nxt (links w) HApp) = Some (map Cell as) \<and>
     list_for_prev (next_addr w) (links w) HApp (prev (links w) HApp) = Some (rev (map Cell as)) \<and>
     list_for_each (next_addr w) (links w) HWait (nxt (links w) HWait) = Some (map Cell ws) \<and>
     list_for_prev (next_addr w) (links w) HWait (prev (links w) HWait) = Some (rev (map Cell ws)) \<and>
     distinct (as @ ws) \<and> (\<forall>a \<in> set (as @ ws). conns w a \<noteq> None)"
proof -
  from busy_inv [OF assms] obtain as ws where p: "pools w as ws" by (auto simp: winv_def)
  then have d: "dlist (links w) HApp (map Cell as)" "dlist (links w) HWait (map Cell ws)" by (simp_all add: pools_def)
  have l: "length (map Cell as) \<le> next_addr w" "length (map Cell ws) \<le> next_addr w" using pools_length [OF p] by simp_all
  show ?thesis
    by (intro exI [of _ as] exI [of _ ws])
       (use dlist_for_each [OF d(1) l(1)] dlist_for_prev [OF d(1) l(1)] dlist_for_each [OF d(2) l(2)]
          dlist_for_prev [OF d(2) l(2)] pools_distinct [OF p] p in \<open>auto simp: pools_def\<close>)
qed

lemma pools_stay_rings_witness:
  "\<exists>w as. busy_state plenty w \<and> list_for_each (next_addr w) (links w) HApp (nxt (links w) HApp) = Some (map Cell as)"
  using pools_stay_rings [OF busy_demo] busy_demo by blast

section \<open>Closing a connection\<close>

text \<open>
  C13: in every state reached while memory lasts, \<open>sock_force_shutdown\<close> of a live socket always
  succeeds and leaves nothing behind: the socket is released, its descriptor closed and not registered, no tunnel points to it, every other socket is as
  it was, and the server can go on.
\<close>

theorem force_shutdown_complete:
  assumes "busy_state plenty w" and "socks w a = Some s"
  shows "\<exists>w'. sock_force_shutdown (Some a) w = Inr ((), w') \<and> socks w' = (socks w)(a := None) \<and>
     \<not> fd_open w' (s_fd s) \<and> epoll w' (s_fd s) = None \<and>
     (\<forall>t T. tunnels w' t = Some T \<longrightarrow> priv_sock T \<noteq> Some a \<and> remote_sock T \<noteq> Some a) \<and> world_ok w'"
proof -
  from busy_inv [OF assms(1)] obtain as ws where inv: "winv as ws {} {} w" by blast
  obtain t T where T: "s_tunnel s = Some t" "tunnels w t = Some T" by (rule winv_sock_tunnel [OF inv assms(2)])
  let ?T = "shut_tunnel a (ispriv s \<noteq> 0) T"
  have "wpe {} (sock_force_shutdown (Some a)) (\<lambda>_. closed_world a s t ?T w) w"
    by (rule force_shutdown_run [OF assms(2) T winv_sock(5) [OF inv assms(2)]])
  from wpe_total [OF this] obtain w' where run: "sock_force_shutdown (Some a) w = Inr ((), w')"
    and cw: "closed_world a s t ?T w w'" by auto
  have inv': "winv as ws {} {} w'" by (rule closed_world_winv [OF inv assms(2) T _ cw]) simp
  have f: "socks w' = (socks w)(a := None)" "\<not> fd_open w' (s_fd s)" "epoll w' (s_fd s) = None"
    by (subst cw [unfolded closed_world_def], simp)+
  have "priv_sock U \<noteq> Some a \<and> remote_sock U \<noteq> Some a" if "tunnels w' u = Some U" for u U
    using winv_tunnel(1) [OF inv' that] f(1) by (auto simp: peers_ok_def peer_ok_def)
  with run f inv' show ?thesis unfolding world_ok_def by blast
qed

lemma force_shutdown_complete_witness:
  "\<exists>w w'. busy_state plenty w \<and> sock_force_shutdown (Some 2) w = Inr ((), w') \<and> socks w' 2 = None \<and> \<not> fd_open w' 5"
proof -
  from busy_client obtain w s where w: "busy_state plenty w" "socks w 2 = Some s" "s_fd s = 5" by (auto simp: one_client_def)
  from force_shutdown_complete [OF w(1,2)] w show ?thesis by auto
qed

end
