(* ===== verification/Answers.thy ===== *)
theory Answers
  imports Runs
begin

text \<open>
  What a client gets for what it sends: the answers of the three handshake handlers, for
  complete, split, refused and malformed messages, and of \<open>tunnel_read_handle\<close>, which calls one of them for
  each read.  A message is stated by an encoder that
  follows RFC 1928 and RFC 1929; the handlers are shown to decode it.
\<close>

section \<open>Messages\<close>

definition enc_greeting :: "byte list \<Rightarrow> byte list" where
  "enc_greeting methods = 0x05 # word_of_nat (length methods) # methods"

definition enc_login :: "byte \<Rightarrow> byte list \<Rightarrow> byte list \<Rightarrow> byte list" where
  "enc_login version name passwd =
     version # word_of_nat (length name) # name @ word_of_nat (length passwd) # passwd"

datatype dest = IPv4 "byte list" | IPv6 "byte list" | Domain "byte list"

fun dest_bytes :: "dest \<Rightarrow> byte list" where
  "dest_bytes (IPv4 a) = a"
| "dest_bytes (IPv6 a) = a"
| "dest_bytes (Domain a) = a"

fun dest_ok :: "dest \<Rightarrow> bool" where
  "dest_ok (IPv4 a) = (length a = 4)"
| "dest_ok (IPv6 a) = (length a = 16)"
| "dest_ok (Domain a) = (length a < 255)"

fun enc_dest :: "dest \<Rightarrow> byte list" where
  "enc_dest (IPv4 a) = 0x01 # a"
| "enc_dest (IPv6 a) = 0x04 # a"
| "enc_dest (Domain a) = 0x03 # word_of_nat (length a) # a"

definition enc_request :: "dest \<Rightarrow> byte list \<Rightarrow> byte list" where
  "enc_request d port = 0x05 # 0x01 # 0x00 # enc_dest d @ port"

lemma unat_len [simp]: "n < 256 \<Longrightarrow> unat (word_of_nat n :: byte) = n"
  by (simp add: unat_of_nat)

section \<open>C strings\<close>

text \<open>The characters of an array of \<open>n\<close> bytes up to its terminating zero.\<close>

definition c_string :: "nat \<Rightarrow> arr \<Rightarrow> byte list" where
  "c_string n a = takeWhile (\<lambda>c. c \<noteq> 0) (map a [0..<n])"

lemma c_string_zero: "a k = 0 \<Longrightarrow> k < n \<Longrightarrow> length (c_string n a) \<le> k"
proof -
  assume k: "a k = 0" "k < n"
  show ?thesis
  proof (rule ccontr)
    assume "\<not> ?thesis"
    then have "k < length (takeWhile (\<lambda>c. c \<noteq> 0) (map a [0..<n]))" by (simp add: c_string_def)
    from nth_mem [OF this] have "takeWhile (\<lambda>c. c \<noteq> 0) (map a [0..<n]) ! k \<noteq> 0" by (auto dest: set_takeWhileD)
    with \<open>k < length _\<close> k show False by (simp add: takeWhile_nth)
  qed
qed

lemma c_string_nth:
  assumes "j < length (c_string n a)"
  shows "j < n" "c_string n a ! j = a j" "a j \<noteq> 0"
proof -
  let ?m = "map a [0..<n]"
  from assms have l: "j < length (takeWhile (\<lambda>c. c \<noteq> 0) ?m)" by (simp add: c_string_def)
  with length_takeWhile_le [of "\<lambda>c. c \<noteq> 0" ?m] show n: "j < n" by simp
  with l show "c_string n a ! j = a j" by (simp add: c_string_def takeWhile_nth)
  moreover from nth_mem [OF assms] have "c_string n a ! j \<noteq> 0"
    unfolding c_string_def by (auto dest: set_takeWhileD)
  ultimately show "a j \<noteq> 0" by simp
qed

lemma c_string_end: "length (c_string n a) < n \<Longrightarrow> a (length (c_string n a)) = 0"
  using nth_length_takeWhile [of "\<lambda>c. c \<noteq> 0" "map a [0..<n]"] by (simp add: c_string_def)

lemma strcmp_at_c_string:
  assumes "a k = 0" and "k < n"
  shows "strcmp_at n a b 0 = Inr True \<longleftrightarrow> c_string n a = c_string n b"
proof
  assume "strcmp_at n a b 0 = Inr True"
  then obtain m where m: "m < n" "a m = 0" "b m = 0" "\<forall>j<m. a j = b j \<and> a j \<noteq> 0"
    by (auto simp: strcmp_at_True)
  have "c_string n c = map c [0..<m]" if "c m = 0" "\<forall>j<m. c j \<noteq> 0" for c
  proof -
    have "[0..<n] = [0..<m] @ m # [Suc m..<n]" using m(1) upt_add_eq_append [of 0 m "n - m"] by (simp add: upt_conv_Cons)
    with that show ?thesis by (simp add: c_string_def takeWhile_append takeWhile_eq_all_conv)
  qed
  note strings = this
  from m(4) have "\<forall>j<m. b j \<noteq> 0" by metis
  with strings [of a] strings [of b] m show "c_string n a = c_string n b" by simp
next
  let ?m = "length (c_string n a)"
  assume eq: "c_string n a = c_string n b"
  have m: "?m < n" using c_string_zero [of a k n] assms by simp
  have "a ?m = 0" "b ?m = 0" using c_string_end [of n a] c_string_end [of n b] m eq by simp_all
  moreover have "a j = b j \<and> a j \<noteq> 0" if "j < ?m" for j
    using c_string_nth [of j n a] c_string_nth [of j n b] that eq by simp
  ultimately show "strcmp_at n a b 0 = Inr True"
    using m by (auto simp: strcmp_at_True)
qed

lemma c_string_copy:
  assumes "length xs \<le> n"
  shows "c_string n (arr_copy (\<lambda>_. 0) 0 xs) = takeWhile (\<lambda>c. c \<noteq> 0) xs"
proof -
  have "map (arr_copy (\<lambda>_. 0) 0 xs) [0..<n] = xs @ replicate (n - length xs) 0"
    by (rule nth_equalityI) (use assms in \<open>auto simp: arr_copy_def nth_append\<close>)
  moreover have "takeWhile (\<lambda>c. c \<noteq> 0) (xs @ replicate m 0) = takeWhile (\<lambda>c. c \<noteq> 0) xs" for m
    by (induction xs) (cases m, simp_all)
  ultimately show ?thesis by (simp add: c_string_def)
qed

section \<open>A session to start with\<close>

text \<open>One client that has sent \<open>bs\<close>, on the tunnel \<open>T\<close>: the inputs of the witnesses.\<close>

definition talk_sock :: "byte list \<Rightarrow> sock" where
  "talk_sock bs = \<lparr>s_fd = 5, s_read_handle = tunnel_read_handle_p, s_write_handle = tunnel_write_handle_p,
     read_buff = \<lparr>data = arr_copy (\<lambda>_. 0) 0 bs, write_index = length bs, read_index = 0, cap = 1024\<rparr>,
     write_buff = \<lparr>data = (\<lambda>_. 0), write_index = 0, read_index = 0, cap = 1024\<rparr>,
     s_tunnel = Some 0, s_state = sock_connected, ispriv = 1, iskeepalive = 0\<rparr>"

definition talk :: "world \<Rightarrow> byte list \<Rightarrow> tunnel \<Rightarrow> world" where
  "talk w bs T = w\<lparr>socks := [2 \<mapsto> talk_sock bs], tunnels := [0 \<mapsto> T]\<rparr>"

definition client_tunnel :: tunnel where
  "client_tunnel = zero_tunnel\<lparr>priv_sock := Some 2\<rparr>"

lemma client_simps [simp]:
  "priv_sock client_tunnel = Some 2" "remote_sock client_tunnel = None" "read_count client_tunnel = 0"
  "t_state client_tunnel = open_state" "ap_uname (t_ap client_tunnel) = (\<lambda>_. 0)" "ap_passwd (t_ap client_tunnel) = (\<lambda>_. 0)"
  by (simp_all add: client_tunnel_def zero_tunnel_def)

lemma talk_session:
  assumes "length bs \<le> 1024"
  shows "session (talk w bs T) 2 0 bs [] T (talk w bs T)"
proof -
  have "map (arr_copy (\<lambda>_. 0) 0 bs) [0..<length bs] = bs"
    by (rule nth_equalityI) (simp_all add: arr_copy_def)
  then have c: "contents (read_buff (talk_sock bs)) = bs" "contents (write_buff (talk_sock bs)) = []"
    "wf_buff (read_buff (talk_sock bs))" "wf_buff (write_buff (talk_sock bs))"
    using assms cap_ok_INIT by (simp_all add: talk_sock_def contents_def wf_buff_def INIT_BUFF_CAP_def)
  then have "session_at (talk w bs T) 2 0 bs [] T (talk w bs T) (talk_sock bs) (talk_sock bs)"
    by (simp add: session_at_def talk_def)
  then show ?thesis unfolding session_def by blast
qed

text \<open>The buffer of the client has room, and there is memory.\<close>

definition roomy :: "world \<Rightarrow> byte list \<Rightarrow> bool" where
  "roomy w out \<longleftrightarrow> length out + 23 \<le> 2 ^ 30 \<and> (\<forall>k. \<not> oom w k)"

lemma roomy_talk [simp]: "roomy (talk demo_start bs T) []" "roomy (talk auth_start bs T) []"
  by (simp_all add: roomy_def talk_def start_defs)

section \<open>Greeting\<close>

lemma ses_greeting_whole:
  assumes "session w0 p t (5 # n # ms @ rest) out T w" and "unat n = length ms" and "priv_sock T = Some p"
    and "\<And>r w'. replied w0 p t rest out (open_reply w0) (opened w0 ms (counted n T)) r w' \<Longrightarrow> Q r w'"
  shows "wpe E (open_header (Some t) (Some p)) Q w"
  by (rule ses_open_header [OF assms(1,3)]) (use assms(2,4) in auto)

lemma ses_greeting_piece:
  assumes "session w0 p t (5 # n # ms) out T w" and "length ms < unat n" and "priv_sock T = Some p"
    and "\<And>w'. session w0 p t ms out (counted n T) w' \<Longrightarrow> Q 0 w'"
  shows "wpe E (open_header (Some t) (Some p)) Q w"
  by (rule ses_open_header [OF assms(1,3)]) (use assms(2,4) in auto)

lemma roomy_replied:
  assumes "replied w0 p t bs out (open_reply w0) T r w" and "roomy w0 out"
  shows "r = 0" "session w0 p t bs (out @ [0x05, if auth_required w0 then 0x02 else 0x00]) T w"
  using replied_ok [OF assms(1)] assms(2) by (simp_all add: roomy_def open_reply_def)

text \<open>
  C15: a greeting that has arrived as a whole, in the private socket of a tunnel that waits for
  one, is taken from the buffer and answered: version 5, and method 2 when a user name and
  a password are configured, method 0 else.  The tunnel goes on to the negotiation or to the
  request; what the client sent after the greeting stays in the buffer.
\<close>

theorem greeting_answered:
  assumes ses: "session w0 p t (enc_greeting ms @ rest) out T w" and ms: "length ms < 256"
    and T: "priv_sock T = Some p" "read_count T = 0" and room: "roomy w0 out"
  shows "\<exists>w' T'. tunnel_open_handle (Some t) w = Inr (0, w') \<and>
     session w0 p t rest (out @ [0x05, if auth_required w0 then 0x02 else 0x00]) T' w' \<and>
     t_state T' = (if auth_required w0 then auth_state else request_state) \<and> read_count T' = 0 \<and>
     priv_sock T' = priv_sock T \<and> t_ap T' = t_ap T" (is "\<exists>w' T'. _ \<and> ?post T' w'")
proof -
  have n: "session w0 p t (5 # word_of_nat (length ms) # ms @ rest) out T w" "unat (word_of_nat (length ms) :: byte) = length ms"
    using ses ms by (simp_all add: enc_greeting_def)
  have "wpe {} (open_header (Some t) (Some p)) (\<lambda>r w'. r = 0 \<and> (\<exists>T'. ?post T' w')) w"
    by (rule ses_greeting_whole [OF n T(1)], rule conjI, erule roomy_replied(1) [OF _ room], rule exI, rule conjI,
        erule roomy_replied(2) [OF _ room]) (simp add: opened_def counted_def)
  from wpe_total [OF ses_open_handle(1) [OF ses T this]] show ?thesis by blast
qed

lemma talk_auth [simp]: "auth_required (talk auth_start bs T)" "\<not> auth_required (talk demo_start bs T)"
  by (simp_all add: auth_required_def talk_def start_defs arr_copy_def)

lemma greeting_answered_witness:
  "\<exists>w' T'. tunnel_open_handle (Some 0) (talk auth_start [5, 1, 2, 9] client_tunnel) = Inr (0, w') \<and>
     session (talk auth_start [5, 1, 2, 9] client_tunnel) 2 0 [9] [5, 2] T' w' \<and>
     t_state T' = auth_state \<and> read_count T' = 0 \<and> priv_sock T' = Some 2 \<and> t_ap T' = t_ap client_tunnel"
  using greeting_answered [of "talk auth_start [5, 1, 2, 9] client_tunnel" 2 0 "[2]" "[9]" "[]" client_tunnel
      "talk auth_start [5, 1, 2, 9] client_tunnel"]
    talk_session [of "[5, 1, 2, 9]" auth_start client_tunnel]
  by (simp add: enc_greeting_def)

text \<open>
  Where a greeting of the methods \<open>ms\<close> stands: \<open>left\<close> has been received and not been taken from the
  buffer, \<open>todo\<close> is still to come.  Either nothing has been taken, or the two bytes of the header.
\<close>

definition greeting_at :: "byte list \<Rightarrow> byte list \<Rightarrow> byte list \<Rightarrow> tunnel \<Rightarrow> bool" where
  "greeting_at ms left todo T \<longleftrightarrow>
     read_count T = 0 \<and> left @ todo = enc_greeting ms \<or>
     read_count T = 2 \<and> left @ todo = ms \<and> unat (op_nmethods (t_op T)) = length ms"

text \<open>What one piece comes to: the next position, or the answer.\<close>

definition greeting_step :: "world \<Rightarrow> addr \<Rightarrow> addr \<Rightarrow> byte list \<Rightarrow> byte list \<Rightarrow> byte list \<Rightarrow> byte list \<Rightarrow>
    tunnel \<Rightarrow> int \<Rightarrow> world \<Rightarrow> bool" where
  "greeting_step w0 p t ms later rest out T r w \<longleftrightarrow> r = 0 \<and> (\<exists>left' T'. priv_sock T' = Some p \<and>
     (if later = [] then session w0 p t rest (out @ [0x05, if auth_required w0 then 0x02 else 0x00]) T' w \<and>
        t_state T' = (if auth_required w0 then auth_state else request_state) \<and> read_count T' = 0
      else session w0 p t left' out T' w \<and> greeting_at ms left' later T' \<and> t_state T' = t_state T))"

lemma greeting_step_wait:
  assumes "later \<noteq> []" and "session w0 p t left' out T' w" and "greeting_at ms left' later T'"
    and "priv_sock T' = Some p" and "t_state T' = t_state T"
  shows "greeting_step w0 p t ms later rest out T 0 w"
  using assms by (auto simp: greeting_step_def)

lemma greeting_step_answer:
  assumes "later = []" and "replied w0 p t rest out (open_reply w0) (opened w0 ms' U) r w"
    and "priv_sock U = Some p" and "roomy w0 out"
  shows "greeting_step w0 p t ms later rest out T r w"
  unfolding greeting_step_def using roomy_replied [OF assms(2,4)] assms(1,3)
  by (intro conjI exI [of _ "[]"] exI [of _ "opened w0 ms' U"]) (simp_all add: opened_def)

lemma greeting_piece_start:
  assumes ses: "session w0 p t (left @ c @ rest) out T w" and at: "(left @ c) @ later = 5 # n # ms" "read_count T = 0"
    and later: "later \<noteq> [] \<Longrightarrow> rest = []"
    and n: "n = word_of_nat (length ms)" "length ms < 256" and T: "priv_sock T = Some p" and room: "roomy w0 out"
  shows "wpe {} (open_header (Some t) (Some p)) (greeting_step w0 p t ms later rest out T) w"
proof (cases "later = []")
  case True
  with ses at have "session w0 p t (5 # n # ms @ rest) out T w" by (metis append_Cons append_assoc append_Nil2)
  then show ?thesis
    by (rule ses_greeting_whole) (use n T room True in \<open>auto intro: greeting_step_answer simp: counted_def\<close>)
next
  case False
  with later ses have s: "session w0 p t (left @ c) out T w" by simp
  have u: "unat n = length ms" unfolding n(1) using n(2) by (rule unat_len)
  show ?thesis
  proof (rule ses_open_header [OF s T])
    show "greeting_step w0 p t ms later rest out T 0 w"
      by (rule greeting_step_wait [OF False s _ T]) (use at n in \<open>simp_all add: greeting_at_def enc_greeting_def\<close>)
  next
    fix m ms1 w'
    assume h: "left @ c = 5 # m # ms1" and s': "session w0 p t ms1 out (counted m T) w'"
    show "greeting_step w0 p t ms later rest out T 0 w'"
      by (rule greeting_step_wait [OF False s'])
         (use at h u T in \<open>auto simp: greeting_at_def counted_def nheader_open_def\<close>)
  next
    fix m ms1 rest' r w'
    assume h: "left @ c = 5 # m # ms1 @ rest'" and l: "length ms1 = unat m"
    from at(1) h have m: "m = n" and "ms1 @ rest' @ later = ms" by simp_all
    from arg_cong [OF this(2), of length] l False have False unfolding m u by simp
    then show "greeting_step w0 p t ms later rest out T r w'" ..
  qed (use at in auto)
qed

lemma greeting_piece_methods:
  assumes ses: "session w0 p t (left @ c @ rest) out T w" and at: "left @ c @ later = ms" "read_count T = 2"
    and later: "later \<noteq> [] \<Longrightarrow> rest = []"
    and n: "unat (op_nmethods (t_op T)) = length ms" and T: "priv_sock T = Some p" and room: "roomy w0 out"
  shows "wpe {} (open_methods (Some t) (Some p)) (greeting_step w0 p t ms later rest out T) w"
proof (rule ses_open_methods [OF ses T n])
  assume "length (left @ c @ rest) < length ms"
  with at have f: "later \<noteq> []" by auto
  with later ses have s: "session w0 p t (left @ c) out T w" by simp
  show "greeting_step w0 p t ms later rest out T 0 w"
    by (rule greeting_step_wait [OF f s _ T]) (use at n in \<open>simp_all add: greeting_at_def\<close>)
next
  fix r w'
  assume le: "length ms \<le> length (left @ c @ rest)"
    and rep: "replied w0 p t (drop (length ms) (left @ c @ rest)) out (open_reply w0)
       (opened w0 (take (length ms) (left @ c @ rest)) T) r w'"
  have f: "later = []"
  proof (rule ccontr)
    assume "later \<noteq> []"
    with later at le show False by (auto dest: arg_cong [of _ _ length])
  qed
  with at have "left @ c @ rest = ms @ rest" by simp
  with rep have "replied w0 p t rest out (open_reply w0) (opened w0 ms T) r w'" by simp
  then show "greeting_step w0 p t ms later rest out T r w'" by (rule greeting_step_answer [OF f _ T room])
qed

text \<open>
  C16: a greeting may arrive in any number of pieces, cut anywhere.  At every position, with every
  piece \<open>c\<close>, the handler either only notes how far it has come, sends nothing and is at the next
  position, or, with the last piece, gives the answer to the whole greeting and leaves in the buffer
  what follows it.  The first position is \<open>greeting_at ms [] (enc_greeting ms)\<close> on a tunnel that has read
  nothing.
\<close>

theorem greeting_in_pieces:
  assumes ses: "session w0 p t (left @ c @ rest) out T w" and at: "greeting_at ms left (c @ later) T"
    and later: "later \<noteq> [] \<Longrightarrow> rest = []"
    and ms: "length ms < 256" and T: "priv_sock T = Some p" and room: "roomy w0 out"
  shows "\<exists>w' left' T'. tunnel_open_handle (Some t) w = Inr (0, w') \<and> priv_sock T' = Some p \<and>
     (if later = [] then session w0 p t rest (out @ [0x05, if auth_required w0 then 0x02 else 0x00]) T' w' \<and>
        t_state T' = (if auth_required w0 then auth_state else request_state) \<and> read_count T' = 0
      else session w0 p t left' out T' w' \<and> greeting_at ms left' later T' \<and> t_state T' = t_state T)"
proof -
  from at consider (start) "read_count T = 0" "(left @ c) @ later = 5 # word_of_nat (length ms) # ms"
    | (methods) "read_count T = 2" "left @ c @ later = ms" "unat (op_nmethods (t_op T)) = length ms"
    by (auto simp: greeting_at_def enc_greeting_def)
  then have "wpe {} (tunnel_open_handle (Some t)) (greeting_step w0 p t ms later rest out T) w"
  proof cases
    case start
    from ses_open_handle(1) [OF ses T start(1) greeting_piece_start [OF ses start(2,1) later refl ms T room]] show ?thesis .
  next
    case methods
    from ses_open_handle(2) [OF ses T methods(1) greeting_piece_methods [OF ses methods(2,1) later methods(3) T room]] show ?thesis .
  qed
  from wpe_total [OF this] show ?thesis unfolding greeting_step_def by blast
qed

text \<open>C36: a greeting with another version than 5 is refused, and nothing is sent.\<close>

theorem greeting_refused:
  assumes ses: "session w0 p t (v # m # rest) out T w" and v: "v \<noteq> 5"
    and T: "priv_sock T = Some p" "read_count T = 0"
  shows "\<exists>w' bs' T'. tunnel_open_handle (Some t) w = Inr (-1, w') \<and> session w0 p t bs' out T' w' \<and>
     t_state T' = t_state T"
proof -
  have "wpe {} (open_header (Some t) (Some p)) (\<lambda>r w'. r = -1 \<and> (\<exists>bs' T'. session w0 p t bs' out T' w' \<and>
     t_state T' = t_state T)) w"
  proof (rule ses_open_header [OF ses T(1)])
    fix v' rest' w'
    assume "session w0 p t rest' out (versioned v' T) w'"
    then show "- 1 = - (1 :: int) \<and> (\<exists>bs' T'. session w0 p t bs' out T' w' \<and> t_state T' = t_state T)"
      by (intro conjI exI [of _ rest'] exI [of _ "versioned v' T"]) (simp_all add: versioned_def)
  qed (use v in auto)
  from wpe_total [OF ses_open_handle(1) [OF ses T this]] show ?thesis by blast
qed

lemma greeting_in_pieces_witness:
  "(\<exists>w' left' T'. tunnel_open_handle (Some 0) (talk demo_start [5] client_tunnel) = Inr (0, w') \<and>
      session (talk demo_start [5] client_tunnel) 2 0 left' [] T' w' \<and> greeting_at [0, 2] left' [2, 0, 2] T') \<and>
   (\<exists>w' T'. tunnel_open_handle (Some 0) (talk demo_start [0, 2, 9] (counted 2 client_tunnel)) = Inr (0, w') \<and>
      session (talk demo_start [0, 2, 9] (counted 2 client_tunnel)) 2 0 [9] [5, 0] T' w' \<and> t_state T' = request_state)"
proof
  have s: "session (talk demo_start [5] client_tunnel) 2 0 ([] @ [5] @ []) [] client_tunnel (talk demo_start [5] client_tunnel)"
    using talk_session [of "[5]" demo_start client_tunnel] by simp
  have at: "greeting_at [0, 2] [] ([5] @ [2, 0, 2]) client_tunnel" by (simp add: greeting_at_def enc_greeting_def)
  from greeting_in_pieces [OF s at _ _ _ roomy_talk(1)]
  show "\<exists>w' left' T'. tunnel_open_handle (Some 0) (talk demo_start [5] client_tunnel) = Inr (0, w') \<and>
      session (talk demo_start [5] client_tunnel) 2 0 left' [] T' w' \<and> greeting_at [0, 2] left' [2, 0, 2] T'"
    by simp blast
next
  let ?T = "counted 2 client_tunnel"
  have s: "session (talk demo_start [0, 2, 9] ?T) 2 0 ([0] @ [2] @ [9]) [] ?T (talk demo_start [0, 2, 9] ?T)"
    using talk_session [of "[0, 2, 9]" demo_start ?T] by simp
  have at: "greeting_at [0, 2] [0] ([2] @ []) ?T" "priv_sock ?T = Some 2"
    by (simp_all add: greeting_at_def counted_def nheader_open_def)
  from greeting_in_pieces [OF s at(1) _ _ at(2) roomy_talk(1)]
  show "\<exists>w' T'. tunnel_open_handle (Some 0) (talk demo_start [0, 2, 9] ?T) = Inr (0, w') \<and>
      session (talk demo_start [0, 2, 9] ?T) 2 0 [9] [5, 0] T' w' \<and> t_state T' = request_state"
    by (simp only: talk_auth if_True if_False append_Nil append_Cons) auto
qed

lemma greeting_refused_witness:
  "\<exists>w' bs' T'. tunnel_open_handle (Some 0) (talk demo_start [4, 1, 0] client_tunnel) = Inr (-1, w') \<and>
     session (talk demo_start [4, 1, 0] client_tunnel) 2 0 bs' [] T' w' \<and> t_state T' = open_state"
  using greeting_refused [OF talk_session [of "[4, 1, 0]" demo_start client_tunnel]]
  by simp

section \<open>User name and password\<close>

text \<open>The tunnel when all of a login has been read.\<close>

definition told :: "byte \<Rightarrow> byte \<Rightarrow> byte list \<Rightarrow> byte \<Rightarrow> byte list \<Rightarrow> tunnel \<Rightarrow> tunnel" where
  "told v l us k ps T = with_passwd ps (with_plen k (with_uname us (with_ulen v l T)))"

lemma told_simps [simp]:
  "priv_sock (told v l us k ps T) = priv_sock T" "t_state (told v l us k ps T) = t_state T"
  "remote_sock (told v l us k ps T) = remote_sock T" "t_status (told v l us k ps T) = t_status T"
  "ap_ver (t_ap (told v l us k ps T)) = v"
  "ap_uname (t_ap (told v l us k ps T)) = arr_copy (ap_uname (t_ap T)) 0 us"
  "ap_passwd (t_ap (told v l us k ps T)) = arr_copy (ap_passwd (t_ap T)) 0 ps"
  by (simp_all add: told_def with_passwd_def with_plen_def with_uname_def with_ulen_def)

lemma ses_login:
  assumes ses: "session w0 p t (v # l # us @ k # ps @ rest) out T w" and p: "priv_sock T = Some p"
    and len: "unat l = length us" "unat k = length ps" "length us \<le> 20" "length ps \<le> 20"
    and cr: "creds_ok T" and room: "roomy w0 out"
    and bad: "\<And>w'. \<not> creds_match (t_ap (told v l us k ps T)) (mon_username w0) (mon_passwd w0) \<Longrightarrow>
       session w0 p t rest out (told v l us k ps T) w' \<Longrightarrow> Q (-1) w'"
    and go: "\<And>w'. creds_match (t_ap (told v l us k ps T)) (mon_username w0) (mon_passwd w0) \<Longrightarrow>
       session w0 p t rest (out @ [v, 0]) ((told v l us k ps T)\<lparr>t_state := request_state, read_count := 0\<rparr>) w' \<Longrightarrow> Q 0 w'"
  shows "wpe E (auth_header (Some t) (Some p)) Q w"
proof (rule ses_auth_header [OF ses])
  let ?T1 = "with_ulen v l T" let ?T2 = "with_uname us ?T1" let ?T3 = "with_plen k ?T2"
  show "wpe E (auth_uname (Some t) (Some p)) Q w1"
    if h: "v # l # us @ k # ps @ rest = v' # l' # bs'" and s1: "session w0 p t bs' out (with_ulen v' l' T) w1"
    for v' l' bs' w1
  proof (rule ses_auth_uname [OF s1])
    from h have h': "v' = v" "l' = l" "bs' = us @ k # ps @ rest" by simp_all
    show "unat (ap_ulen (t_ap (with_ulen v' l' T))) = length us" using h' len by (simp add: with_ulen_def)
    show "wpe E (auth_plen (Some t) (Some p)) Q w2"
      if "session w0 p t (drop (length us) bs') out (with_uname (take (length us) bs') (with_ulen v' l' T)) w2" for w2
    proof -
      from that h' have s2: "session w0 p t (k # ps @ rest) out ?T2 w2" by simp
      show ?thesis
      proof (rule ses_auth_plen [OF s2])
        fix k' bs'' w3
        assume h: "k # ps @ rest = k' # bs''" and s3: "session w0 p t bs'' out (with_plen k' ?T2) w3"
        then have s3: "session w0 p t (ps @ rest) out ?T3 w3" by simp
        have c3: "creds_ok ?T2"
          using cr len(3) by (intro creds_ok_with) (simp_all add: with_ulen_def creds_ok_def MAX_UNAME_LEN_def)
        have k: "unat (ap_plen (t_ap ?T3)) = length ps" "length ps \<le> MAX_PASSWD_LEN" "priv_sock ?T3 = Some p" "creds_ok ?T3"
          using len c3 p by (simp_all add: with_plen_def MAX_PASSWD_LEN_def with_uname_def with_ulen_def creds_ok_def)
        have v: "ap_ver (t_ap ?T3) = v" by (simp add: with_plen_def with_uname_def with_ulen_def)
        show "wpe E (auth_passwd (Some t) (Some p)) Q w3"
          by (rule ses_auth_passwd [OF s3 k(3,4,1,2)])
             (use bad go room in \<open>auto simp: told_def v roomy_def\<close>)
      qed (use len in \<open>auto simp: MAX_PASSWD_LEN_def\<close>)
    qed
  qed (use h in auto)
qed (use len in \<open>auto simp: MAX_UNAME_LEN_def\<close>)

text \<open>On a tunnel that holds no name and no password yet, what counts are the strings that were sent.\<close>

definition no_creds :: "tunnel \<Rightarrow> bool" where
  "no_creds T \<longleftrightarrow> ap_uname (t_ap T) = (\<lambda>_. 0) \<and> ap_passwd (t_ap T) = (\<lambda>_. 0)"

definition login_ok :: "world \<Rightarrow> byte list \<Rightarrow> byte list \<Rightarrow> bool" where
  "login_ok w name passwd \<longleftrightarrow> takeWhile (\<lambda>c. c \<noteq> 0) name = c_string 255 (mon_username w) \<and>
     takeWhile (\<lambda>c. c \<noteq> 0) passwd = c_string 255 (mon_passwd w)"

lemma creds_match_told:
  assumes "no_creds T" and "length us \<le> 20" and "length ps \<le> 20"
  shows "creds_match (t_ap (told v l us k ps T)) (mon_username w) (mon_passwd w) = login_ok w us ps"
proof -
  have z: "arr_copy (\<lambda>_. 0) 0 xs 20 = (0 :: byte)" if "length xs \<le> 20" for xs
    using that by (simp add: arr_copy_def)
  show ?thesis
    using assms z strcmp_at_c_string [of "arr_copy (\<lambda>_. 0) 0 us" 20 255 "mon_username w"]
      strcmp_at_c_string [of "arr_copy (\<lambda>_. 0) 0 ps" 20 255 "mon_passwd w"]
    by (simp add: creds_match_def login_ok_def no_creds_def c_string_copy)
qed

lemma no_creds_ok: "no_creds T \<Longrightarrow> creds_ok T"
  by (simp add: no_creds_def creds_ok_def)

text \<open>
  The handler accepts a name and a password of at most 20 bytes each: a longer one is refused when its
  length is read.  So a server that is configured with a longer name or password accepts no login at all.
\<close>

definition accepts :: "world \<Rightarrow> byte list \<Rightarrow> byte list \<Rightarrow> bool" where
  "accepts w name passwd \<longleftrightarrow> length name \<le> 20 \<and> length passwd \<le> 20 \<and> login_ok w name passwd"

lemma accepts_short:
  assumes "20 < length (c_string 255 (mon_username w)) \<or> 20 < length (c_string 255 (mon_passwd w))"
  shows "\<not> accepts w name passwd"
  using assms length_takeWhile_le [of "\<lambda>c. c \<noteq> 0" name] length_takeWhile_le [of "\<lambda>c. c \<noteq> 0" passwd]
  by (auto simp: accepts_def login_ok_def)

text \<open>A length above 20 ends a login, with nothing sent.\<close>

lemma ses_long_name:
  assumes ses: "session w0 p t (v # l # rest) out T w" and l: "20 < unat l"
    and bad: "\<And>w'. session w0 p t rest out (T\<lparr>t_ap := (t_ap T)\<lparr>ap_ver := v, ap_ulen := l\<rparr>\<rparr>) w' \<Longrightarrow> Q (-1) w'"
  shows "wpe E (auth_header (Some t) (Some p)) Q w"
  by (rule ses_auth_header [OF ses]; use l bad in \<open>auto simp: MAX_UNAME_LEN_def\<close>)

lemma ses_long_passwd:
  assumes ses: "session w0 p t (v # l # us @ k # rest) out T w"
    and len: "unat l = length us" "length us \<le> 20" "20 < unat k"
    and bad: "\<And>T' w'. session w0 p t rest out T' w' \<Longrightarrow> t_state T' = t_state T \<Longrightarrow> Q (-1) w'"
  shows "wpe E (auth_header (Some t) (Some p)) Q w"
proof (rule ses_auth_header [OF ses])
  fix v' l' bs' w1
  assume h: "v # l # us @ k # rest = v' # l' # bs'" and s1: "session w0 p t bs' out (with_ulen v' l' T) w1"
  then have s1: "session w0 p t (us @ k # rest) out (with_ulen v l T) w1" by simp
  show "wpe E (auth_uname (Some t) (Some p)) Q w1"
  proof (rule ses_auth_uname [OF s1])
    fix w2
    assume "session w0 p t (drop (length us) (us @ k # rest)) out (with_uname (take (length us) (us @ k # rest)) (with_ulen v l T)) w2"
    then have s2: "session w0 p t (k # rest) out (with_uname us (with_ulen v l T)) w2" by simp
    show "wpe E (auth_plen (Some t) (Some p)) Q w2"
      by (rule ses_auth_plen [OF s2])
         (use len bad in \<open>auto simp: MAX_PASSWD_LEN_def with_uname_def with_ulen_def\<close>)
  qed (use len in \<open>auto simp: with_ulen_def\<close>)
qed (use len in \<open>auto simp: MAX_UNAME_LEN_def\<close>)

text \<open>
  C4: a login that has arrived as a whole, with a name and a password of any length RFC 1929 can
  express, on a tunnel without credentials of its own, is accepted exactly if both are at most 20
  bytes long and are, as C strings, the configured ones.  Then the answer is its version and 0 and the
  tunnel waits for the request; else the handler fails and sends nothing.
\<close>

theorem login_decided:
  assumes ses: "session w0 p t (enc_login v us ps @ rest) out T w" and len: "length us < 256" "length ps < 256"
    and T: "priv_sock T = Some p" "read_count T = 0" "no_creds T" and room: "roomy w0 out"
  shows "\<exists>w' bs' T'. tunnel_auth_handle (Some t) w = Inr (if accepts w0 us ps then 0 else -1, w') \<and>
     session w0 p t bs' (if accepts w0 us ps then out @ [v, 0] else out) T' w' \<and>
     t_state T' = (if accepts w0 us ps then request_state else t_state T) \<and>
     (accepts w0 us ps \<longrightarrow> bs' = rest \<and> read_count T' = 0)" (is "\<exists>w' bs' T'. _ \<and> ?post bs' T' w'")
proof -
  let ?l = "word_of_nat (length us) :: byte" and ?k = "word_of_nat (length ps) :: byte"
  have s: "session w0 p t (v # ?l # us @ ?k # ps @ rest) out T w" using ses by (simp add: enc_login_def)
  have u: "unat ?l = length us" "unat ?k = length ps" by (rule unat_len, rule len)+
  let ?Q = "\<lambda>r w'. r = (if accepts w0 us ps then 0 else -1 :: int) \<and> (\<exists>bs' T'. ?post bs' T' w')"
  have refused: "?Q (-1) w'" if "\<not> accepts w0 us ps" "session w0 p t bs' out T' w'" "t_state T' = t_state T" for bs' T' w'
    using that by auto
  have "wpe {} (auth_header (Some t) (Some p)) ?Q w"
  proof (cases "length us \<le> 20")
    case False
    then have "\<not> accepts w0 us ps" by (simp add: accepts_def)
    note no = refused [OF this]
    from False u have "20 < unat ?l" by simp
    then show ?thesis by (rule ses_long_name [OF s]) (erule no, simp)
  next
    case us: True
    show ?thesis
    proof (cases "length ps \<le> 20")
      case False
      then have "\<not> accepts w0 us ps" by (simp add: accepts_def)
      note no = refused [OF this]
      from False u have "20 < unat ?k" by simp
      then show ?thesis by (rule ses_long_passwd [OF s u(1) us]) (rule no)
    next
      case ps: True
      then have ac: "accepts w0 us ps = login_ok w0 us ps" using us by (simp add: accepts_def)
      let ?T = "told v ?l us ?k ps T"
      show ?thesis
      proof (rule ses_login [OF s T(1) u us ps no_creds_ok [OF T(3)] room], unfold creds_match_told [OF T(3) us ps])
        fix w' assume no: "\<not> login_ok w0 us ps" and s': "session w0 p t rest out ?T w'"
        show "?Q (-1) w'" by (rule refused [OF _ s']) (simp_all add: ac no)
      next
        fix w' assume "login_ok w0 us ps" "session w0 p t rest (out @ [v, 0]) (?T\<lparr>t_state := request_state, read_count := 0\<rparr>) w'"
        then show "?Q 0 w'"
          by (intro conjI exI [of _ rest] exI [of _ "?T\<lparr>t_state := request_state, read_count := 0\<rparr>"]) (simp_all add: ac)
      qed
    qed
  qed
  from wpe_total [OF ses_auth_handle [OF ses T(1,2) this]] show ?thesis by blast
qed

lemma login_decided_witness:
  "(\<exists>w' T'. tunnel_auth_handle (Some 0) (talk auth_start [1, 1, 0x75, 1, 0x70] client_tunnel) = Inr (0, w') \<and>
      session (talk auth_start [1, 1, 0x75, 1, 0x70] client_tunnel) 2 0 [] [1, 0] T' w' \<and> t_state T' = request_state) \<and>
   (\<exists>w'. tunnel_auth_handle (Some 0) (talk auth_start (enc_login 1 [0x75] (replicate 21 0x70)) client_tunnel) = Inr (-1, w'))"
proof
  let ?w = "talk auth_start [1, 1, 0x75, 1, 0x70] client_tunnel"
  have s: "session ?w 2 0 (enc_login 1 [0x75] [0x70] @ []) [] client_tunnel ?w"
    using talk_session [of "[1, 1, 0x75, 1, 0x70]" auth_start client_tunnel] by (simp add: enc_login_def)
  have "accepts ?w [0x75] [0x70]"
    by (simp add: accepts_def login_ok_def talk_def auth_start_def text_arr_def c_string_copy)
  with login_decided [OF s _ _ _ _ _ roomy_talk(2)]
  show "\<exists>w' T'. tunnel_auth_handle (Some 0) ?w = Inr (0, w') \<and> session ?w 2 0 [] [1, 0] T' w' \<and> t_state T' = request_state"
    by (simp add: no_creds_def) blast
next
  let ?bs = "enc_login 1 [0x75] (replicate 21 0x70)"
  have "length ?bs \<le> 1024" by (simp add: enc_login_def)
  from talk_session [OF this, of auth_start client_tunnel]
  have s: "session (talk auth_start ?bs client_tunnel) 2 0 (?bs @ []) [] client_tunnel (talk auth_start ?bs client_tunnel)"
    by simp
  have "\<not> accepts (talk auth_start ?bs client_tunnel) [0x75] (replicate 21 0x70)" by (simp add: accepts_def)
  with login_decided [OF s _ _ _ _ _ roomy_talk(2)]
  show "\<exists>w'. tunnel_auth_handle (Some 0) (talk auth_start ?bs client_tunnel) = Inr (-1, w')"
    by (simp add: no_creds_def) blast
qed

text \<open>
  C38: a name longer than 20 bytes is refused as soon as its length is known, whatever follows:
  nothing is copied into the arrays of the tunnel, and nothing is sent.
\<close>

theorem long_name_refused:
  assumes ses: "session w0 p t (v # l # rest) out T w" and l: "20 < unat l"
    and T: "priv_sock T = Some p" "read_count T = 0"
  shows "\<exists>w' T'. tunnel_auth_handle (Some t) w = Inr (-1, w') \<and> session w0 p t rest out T' w' \<and>
     ap_uname (t_ap T') = ap_uname (t_ap T) \<and> ap_passwd (t_ap T') = ap_passwd (t_ap T)"
proof -
  have "wpe {} (auth_header (Some t) (Some p)) (\<lambda>r w'. r = -1 \<and> (\<exists>T'. session w0 p t rest out T' w' \<and>
     ap_uname (t_ap T') = ap_uname (t_ap T) \<and> ap_passwd (t_ap T') = ap_passwd (t_ap T))) w"
    by (rule ses_long_name [OF ses l], intro conjI refl exI, assumption, simp_all)
  from wpe_total [OF ses_auth_handle [OF ses T this]] show ?thesis by blast
qed

lemma long_name_refused_witness:
  "\<exists>w' T'. tunnel_auth_handle (Some 0) (talk auth_start [1, 21, 7] client_tunnel) = Inr (-1, w') \<and>
     session (talk auth_start [1, 21, 7] client_tunnel) 2 0 [7] [] T' w' \<and> ap_uname (t_ap T') = (\<lambda>_. 0)"
  using long_name_refused [OF talk_session [of "[1, 21, 7]" auth_start client_tunnel]]
  by simp blast

section \<open>Request\<close>

lemma strlen_at_total:
  assumes "a k = 0" and "i \<le> k" and "k < i + n"
  shows "\<exists>m. strlen_at n a i = Inr m"
  using assms
proof (induction n arbitrary: i)
  case (Suc n)
  then show ?case by (cases "i = k") auto
qed simp

text \<open>The address array of a tunnel is closed by a zero at its end, until a longer address overwrites it.\<close>

definition addr_closed :: "tunnel \<Rightarrow> bool" where
  "addr_closed T \<longleftrightarrow> rp_addr (t_rp T) 254 = 0"

lemma addr_closed_strlen:
  assumes "addr_closed T" and "length xs \<le> 254"
  shows "strlen_at 255 (arr_copy (rp_addr (t_rp T)) 0 xs) 0 \<noteq> Inl e"
proof -
  have "arr_copy (rp_addr (t_rp T)) 0 xs 254 = 0" using assms by (simp add: addr_closed_def arr_copy_def)
  with strlen_at_total [of "arr_copy (rp_addr (t_rp T)) 0 xs" 254 0 255] show ?thesis by auto
qed

text \<open>The tunnel before the address of a request is read, and when all is done.\<close>

fun asked :: "dest \<Rightarrow> tunnel \<Rightarrow> tunnel" where
  "asked (IPv4 a) T = with_req 0 1 T"
| "asked (IPv6 a) T = with_req 0 4 T"
| "asked (Domain a) T = with_dlen (word_of_nat (length a)) (with_req 0 3 T)"

definition placed_req :: "dest \<Rightarrow> byte list \<Rightarrow> tunnel \<Rightarrow> tunnel" where
  "placed_req d port T = requested (with_addr (dest_bytes d) port (asked d T))"

lemma with_req_simps [simp]:
  "priv_sock (with_req r a T) = priv_sock T" "rp_addr (t_rp (with_req r a T)) = rp_addr (t_rp T)"
  "rp_atyp (t_rp (with_req r a T)) = a"
  by (simp_all add: with_req_def)

lemma asked_simps [simp]:
  "priv_sock (asked d T) = priv_sock T" "rp_addr (t_rp (asked d T)) = rp_addr (t_rp T)"
  "addr_closed (asked d T) = addr_closed T"
  by (cases d; simp add: with_req_def with_dlen_def addr_closed_def)+

lemma placed_req_simps [simp]:
  "priv_sock (placed_req d port T) = priv_sock T" "t_state (placed_req d port T) = connected_state"
  "t_status (placed_req d port T) = tunn_is_idle" "read_count (placed_req d port T) = 0"
  "t_ap (placed_req d port T) = t_ap T"
  by (cases d; simp add: placed_req_def requested_def with_addr_def with_req_def with_dlen_def)+

lemma ses_request_whole:
  assumes ses: "session w0 p t (enc_request d port @ rest) out T w" and d: "dest_ok d" "length port = 2"
    and T: "priv_sock T = Some p" "addr_closed T" and room: "roomy w0 out"
    and go: "\<And>w'. session w0 p t rest (out @ connect_reply) (placed_req d port T) w' \<Longrightarrow> Q 0 w'"
  shows "wpe E (request_header (Some t) (Some p)) Q w"
proof (rule ses_request_header [OF ses])
  fix r a rest' w1
  assume h: "enc_request d port @ rest = 5 # 1 # r # a # rest'" and s1: "session w0 p t rest' out (with_req r a T) w1"
  have all: "take k connect_reply = connect_reply" if "k = 23 \<or> 2 ^ 30 < length out + 23 \<or> (\<exists>k. oom w0 k)" for k
    using that room by (auto simp: roomy_def length_connect_reply)
  have len: "length (dest_bytes d) \<le> 254" using d by (cases d) auto
  have safe: "strlen_at 255 (arr_copy (rp_addr (t_rp T)) 0 (dest_bytes d)) 0 \<noteq> Inl e" for e
    by (rule addr_closed_strlen [OF T(2) len])
  have parts: "take n (dest_bytes d @ port @ rest) = dest_bytes d" "take nport (drop n (dest_bytes d @ port @ rest)) = port"
    "drop (n + nport) (dest_bytes d @ port @ rest) = rest" if "n = length (dest_bytes d)" for n
    using that d(2) by (simp_all add: nport_def)
  have fin: "Q 0 w'" if "session w0 p t (drop (n + nport) (dest_bytes d @ port @ rest)) (out @ take k connect_reply)
      (requested (with_addr (take n (dest_bytes d @ port @ rest)) (take nport (drop n (dest_bytes d @ port @ rest))) (asked d T))) w'"
    and k: "k = 23 \<or> 2 ^ 30 < length out + 23 \<or> (\<exists>k. oom w0 k)" and n: "n = length (dest_bytes d)" for n k w'
    using that(1) unfolding parts [OF n] all [OF k] by (intro go) (simp add: placed_req_def)
  have fixed: "wpe E (request_addr (Some t) (Some p)) Q w1"
    if s: "session w0 p t (dest_bytes d @ port @ rest) out (asked d T) w1"
      and n: "addr_len (rp_atyp (t_rp (asked d T))) = Some (length (dest_bytes d))"
    by (rule ses_request_addr [OF s]; (rule fin)?; use T d n safe in \<open>auto simp: addr_len_def nport_def split: if_splits\<close>)
  show "wpe E (request_addr (Some t) (Some p)) Q w1"
  proof (cases d)
    case (IPv4 x)
    with h s1 d show ?thesis by (intro fixed) (auto simp: enc_request_def addr_len_def NIPV4_def)
  next
    case (IPv6 x)
    with h s1 d show ?thesis by (intro fixed) (auto simp: enc_request_def addr_len_def NIPV6_def)
  next
    case (Domain x)
    with h s1 have s: "session w0 p t (word_of_nat (length x) # dest_bytes d @ port @ rest) out (with_req 0 3 T) w1"
      by (auto simp: enc_request_def)
    show ?thesis
    proof (rule ses_request_addr [OF s])
      fix l rest2 w2
      assume "word_of_nat (length x) # dest_bytes d @ port @ rest = l # rest2"
        and "session w0 p t rest2 out (with_dlen l (with_req 0 3 T)) w2"
      then have s2: "session w0 p t (dest_bytes d @ port @ rest) out (asked d T) w2" using Domain by simp
      have l: "unat (rp_domainlen (t_rp (asked d T))) = length (dest_bytes d)"
        using Domain d by (simp add: with_dlen_def)
      show "wpe E (request_domain (Some t) (Some p)) Q w2"
        by (rule ses_request_domain [OF s2 _ l]; (rule fin)?; use T d safe in \<open>auto simp: nport_def\<close>)
    qed (use T in \<open>auto simp: addr_len_def\<close>)
  qed
qed (cases d; auto simp: enc_request_def)+

text \<open>
  C17: a CONNECT request for an IPv4 address, an IPv6 address or a name of less than 255 bytes
  that has arrived as a whole is answered with the fixed 23 bytes of \<open>tunnel_notify_connected\<close>: version 5, the reply code
  1 (in RFC 1928 a general failure), a name of 16 bytes and a port.  The tunnel is connected and idle, so that the next pairing gives it a remote connection, and what the client sent
  after the request stays in the buffer.
\<close>

theorem request_answered:
  assumes ses: "session w0 p t (enc_request d port @ rest) out T w" and d: "dest_ok d" "length port = 2"
    and T: "priv_sock T = Some p" "read_count T = 0" "addr_closed T" and room: "roomy w0 out"
  shows "\<exists>w' T'. tunnel_request_handle (Some t) w = Inr (0, w') \<and>
     session w0 p t rest (out @ connect_reply) T' w' \<and>
     t_state T' = connected_state \<and> t_status T' = tunn_is_idle \<and> read_count T' = 0 \<and> priv_sock T' = Some p"
    (is "\<exists>w' T'. _ \<and> ?post T' w'")
proof -
  have "wpe {} (request_header (Some t) (Some p)) (\<lambda>r w'. r = 0 \<and> (\<exists>T'. ?post T' w')) w"
    by (rule ses_request_whole [OF ses d T(1,3) room])
       (intro conjI exI [of _ "placed_req d port T"]; simp add: T(1))
  from wpe_total [OF ses_request_handle [OF ses T(1,2) this]] show ?thesis by blast
qed

lemma addr_closed_client [simp]: "addr_closed client_tunnel"
  by (simp add: addr_closed_def client_tunnel_def zero_tunnel_def)

lemma request_answered_witness:
  "\<exists>w' T'. tunnel_request_handle (Some 0) (talk demo_start [5, 1, 0, 3, 2, 0x61, 0x62, 0, 80, 9] client_tunnel) = Inr (0, w') \<and>
     session (talk demo_start [5, 1, 0, 3, 2, 0x61, 0x62, 0, 80, 9] client_tunnel) 2 0 [9] connect_reply T' w' \<and>
     t_state T' = connected_state \<and> t_status T' = tunn_is_idle"
proof -
  let ?w = "talk demo_start [5, 1, 0, 3, 2, 0x61, 0x62, 0, 80, 9] client_tunnel"
  have s: "session ?w 2 0 (enc_request (Domain [0x61, 0x62]) [0, 80] @ [9]) [] client_tunnel ?w"
    using talk_session [of "[5, 1, 0, 3, 2, 0x61, 0x62, 0, 80, 9]" demo_start client_tunnel] by (simp add: enc_request_def)
  from request_answered [OF s _ _ _ _ _ roomy_talk(1)] show ?thesis by simp blast
qed

text \<open>
  C18: the handler decodes what RFC 1928 encodes: after a request, \<open>rp.atyp\<close>, \<open>rp.addr\<close> and
  \<open>rp.port\<close> of the tunnel hold the type, the bytes of the address and the bytes of the port that were sent.
\<close>

theorem request_roundtrip:
  assumes ses: "session w0 p t (enc_request d port @ rest) out T w" and d: "dest_ok d" "length port = 2"
    and T: "priv_sock T = Some p" "read_count T = 0" "addr_closed T" and room: "roomy w0 out"
  shows "\<exists>w' T'. tunnel_request_handle (Some t) w = Inr (0, w') \<and> tunnels w' t = Some T' \<and>
     rp_atyp (t_rp T') = hd (enc_dest d) \<and>
     map (rp_addr (t_rp T')) [0..<length (dest_bytes d)] = dest_bytes d \<and>
     map (rp_port (t_rp T')) [0..<2] = port" (is "\<exists>w' T'. _ \<and> _ \<and> ?post T'")
proof -
  have arr: "map (arr_copy a 0 xs) [0..<n] = xs" if "length xs = n" for a xs n
    by (rule nth_equalityI) (use that in \<open>simp_all add: arr_copy_def\<close>)
  have post: "?post (placed_req d port T)"
    using d by (cases d; simp add: placed_req_def requested_def with_addr_def arr with_dlen_def with_req_def)
  have "wpe {} (request_header (Some t) (Some p)) (\<lambda>r w'. r = 0 \<and> tunnels w' t = Some (placed_req d port T)) w"
    by (rule ses_request_whole [OF ses d T(1,3) room]) (auto elim: session_live)
  from wpe_total [OF ses_request_handle [OF ses T(1,2) this]] post show ?thesis by blast
qed

lemma request_roundtrip_witness:
  "\<exists>w' T'. tunnel_request_handle (Some 0) (talk demo_start [5, 1, 0, 1, 10, 0, 0, 7, 0, 80] client_tunnel) = Inr (0, w') \<and>
     tunnels w' 0 = Some T' \<and> rp_atyp (t_rp T') = hd (enc_dest (IPv4 [10, 0, 0, 7])) \<and>
     map (rp_addr (t_rp T')) [0..<length (dest_bytes (IPv4 [10, 0, 0, 7]))] = dest_bytes (IPv4 [10, 0, 0, 7]) \<and>
     map (rp_port (t_rp T')) [0..<2] = [0, 80]"
proof -
  let ?w = "talk demo_start [5, 1, 0, 1, 10, 0, 0, 7, 0, 80] client_tunnel"
  have s: "session ?w 2 0 (enc_request (IPv4 [10, 0, 0, 7]) [0, 80] @ []) [] client_tunnel ?w"
    using talk_session [of "[5, 1, 0, 1, 10, 0, 0, 7, 0, 80]" demo_start client_tunnel] by (simp add: enc_request_def)
  show ?thesis by (rule request_roundtrip [OF s _ _ _ _ _ roomy_talk(1)]) simp_all
qed

text \<open>C37: a request with another version than 5, or another command than CONNECT, is refused, and nothing is sent.\<close>

theorem request_refused:
  assumes ses: "session w0 p t (v # c # r # a # rest) out T w" and bad: "v \<noteq> 5 \<or> c \<noteq> 1"
    and T: "priv_sock T = Some p" "read_count T = 0"
  shows "\<exists>w' bs' T'. tunnel_request_handle (Some t) w = Inr (-1, w') \<and> session w0 p t bs' out T' w' \<and>
     t_state T' = t_state T"
proof -
  have "wpe {} (request_header (Some t) (Some p)) (\<lambda>r w'. r = -1 \<and> (\<exists>bs' T'. session w0 p t bs' out T' w' \<and>
     t_state T' = t_state T)) w"
  proof (rule ses_request_header [OF ses])
    fix bs' T' w'
    assume "session w0 p t bs' out T' w'" "\<exists>rp. T' = T\<lparr>t_rp := rp\<rparr>"
    then show "- 1 = - (1 :: int) \<and> (\<exists>bs' T'. session w0 p t bs' out T' w' \<and> t_state T' = t_state T)"
      by (intro conjI exI [of _ bs'] exI [of _ T']) auto
  qed (use bad in auto)
  from wpe_total [OF ses_request_handle [OF ses T this]] show ?thesis by blast
qed

lemma request_refused_witness:
  "\<exists>w' bs' T'. tunnel_request_handle (Some 0) (talk demo_start [5, 2, 0, 1] client_tunnel) = Inr (-1, w') \<and>
     session (talk demo_start [5, 2, 0, 1] client_tunnel) 2 0 bs' [] T' w' \<and> t_state T' = open_state"
  using request_refused [OF talk_session [of "[5, 2, 0, 1]" demo_start client_tunnel]] by simp

lemma strlen_at_runs_out:
  "strlen_at n a i = Inr k \<Longrightarrow> i \<le> k \<and> k < i + n \<and> a k = 0"
  by (induction n arbitrary: i) (fastforce split: if_splits)+

lemma ses_overrun:
  assumes ses: "session w0 p t (bs @ port @ rest) out T w" and p: "priv_sock T = Some p"
    and n: "unat (rp_domainlen (t_rp T)) = length bs" "length port = 2" "length bs = 255" and bs: "0 \<notin> set bs"
  shows "wpe {Unterminated} (request_domain (Some t) (Some p)) Q w"
proof -
  have run: "strlen_at 255 (arr_copy (rp_addr (t_rp T)) 0 (take 255 (bs @ port @ rest))) 0 \<noteq> Inr k" for k
  proof
    assume "strlen_at 255 (arr_copy (rp_addr (t_rp T)) 0 (take 255 (bs @ port @ rest))) 0 = Inr k"
    from strlen_at_runs_out [OF this] n(3) have "k < 255" "bs ! k = 0" by (simp_all add: arr_copy_def split: if_splits)
    with bs n(3) show False by (metis nth_mem)
  qed
  have read: "wpe {Unterminated} (request_read_addr (Some t) (Some p) 255) R w" for R
    by (rule ses_request_read_addr [OF ses]) (use n run strlen_at_Inl in \<open>auto simp: nport_def\<close>)
  show ?thesis
    unfolding request_domain_def
    by (rule wpe_bndI ses_load [OF ses] ses_readable [OF ses])+ (use n read in \<open>simp add: nport_def wpe_bnd\<close>)
qed

text \<open>
  C39: the length byte of a domain name is not checked against what \<open>printf\<close> needs: a name of 255
  bytes without a zero fills \<open>rp.addr\<close>, and printing it reads past the end of the array.
\<close>

theorem longest_name_overruns:
  assumes ses: "session w0 p t (enc_request (Domain name) port @ rest) out T w"
    and name: "length name = 255" "0 \<notin> set name" "length port = 2"
    and T: "priv_sock T = Some p" "read_count T = 0"
  shows "tunnel_request_handle (Some t) w = Inl Unterminated"
proof -
  have s: "session w0 p t (5 # 1 # 0 # 3 # 255 # name @ port @ rest) out T w"
    using ses name(1) by (simp add: enc_request_def)
  have "wpe {Unterminated} (request_header (Some t) (Some p)) (\<lambda>_ _. False) w"
  proof (rule ses_request_header [OF s])
    fix r a bs w1
    assume "5 # 1 # 0 # 3 # 255 # name @ port @ rest = 5 # 1 # r # a # bs" and s1: "session w0 p t bs out (with_req r a T) w1"
    then have a: "a = 3" and bs: "bs = 255 # name @ port @ rest" by simp_all
    show "wpe {Unterminated} (request_addr (Some t) (Some p)) (\<lambda>_ _. False) w1"
    proof (rule ses_request_addr [OF s1])
      fix l rest2 w2
      assume "bs = l # rest2" and "session w0 p t rest2 out (with_dlen l (with_req r a T)) w2"
      with bs have "session w0 p t (name @ port @ rest) out (with_dlen 255 (with_req r a T)) w2" by simp
      then show "wpe {Unterminated} (request_domain (Some t) (Some p)) (\<lambda>_ _. False) w2"
        by (rule ses_overrun) (use name T in \<open>simp_all add: with_dlen_def\<close>)
    qed (use a bs T in \<open>auto simp: addr_len_def\<close>)
  qed auto
  from wpe_only [OF ses_request_handle [OF s T this]] show ?thesis .
qed

lemma longest_name_overruns_witness:
  "tunnel_request_handle (Some 0) (talk demo_start (enc_request (Domain (replicate 255 0x61)) [0, 80]) client_tunnel) = Inl Unterminated"
proof -
  let ?bs = "enc_request (Domain (replicate 255 0x61)) [0, 80]"
  have "length ?bs \<le> 1024" by (simp add: enc_request_def)
  from talk_session [OF this, of demo_start client_tunnel]
  have s: "session (talk demo_start ?bs client_tunnel) 2 0 (?bs @ []) [] client_tunnel (talk demo_start ?bs client_tunnel)"
    by simp
  show ?thesis by (rule longest_name_overruns [OF s]) simp_all
qed

section \<open>One message per read\<close>

text \<open>
  \<open>tunnel_read_handle\<close> calls one handler for each time it reads.  So the handshake is shown read by
  read: what the client has sent is there as the answer of the kernel to one \<open>read\<close>, behind what earlier
  reads have left in the buffer.  \<open>client_of w p t n\<close>: the socket is that of the tunnel, and its read buffer
  has room for \<open>n\<close> bytes, so that one \<open>read\<close> takes as many.
\<close>

definition client_of :: "world \<Rightarrow> addr \<Rightarrow> addr \<Rightarrow> nat \<Rightarrow> bool" where
  "client_of w p t n \<longleftrightarrow> (\<exists>s. socks w p = Some s \<and> s_tunnel s = Some t \<and> write_index (read_buff s) + n \<le> cap (read_buff s))"

lemma client_of_less: "client_of w p t n \<Longrightarrow> m \<le> n \<Longrightarrow> client_of w p t m"
  by (auto simp: client_of_def)

lemma session_client: "session w0 p t bs out T w \<Longrightarrow> client_of w p t n = client_of w0 p t n"
  by (erule session_live) (auto simp: client_of_def same_sock_def)

lemma session_frame: "session w0 p t bs out T w \<Longrightarrow> frame w0 w"
  by (erule session_live)

lemma session_rebase: "session w0 p t bs out T w \<Longrightarrow> session w p t bs out T w"
proof (erule session_live)
  fix s0 s
  assume "socks w p = Some s" "wf_buff (read_buff s)" "wf_buff (write_buff s)" "contents (read_buff s) = bs"
    "contents (write_buff s) = out" "tunnels w t = Some T"
  then have "session_at w p t bs out T w s s" by (simp add: session_at_def fun_upd_idem)
  then show ?thesis unfolding session_def by blast
qed

lemma frame_trans: "frame u v \<Longrightarrow> frame v w \<Longrightarrow> frame u w"
  by (cases u; cases v; cases w) (simp add: frame_def)

lemma frame_roomy: "frame w w' \<Longrightarrow> roomy w' out = roomy w out"
  using frame_same(1) [of w w'] by (simp add: roomy_def)

lemma buff_readfd_fits:
  assumes wf: "wf_buff b" and xs: "xs \<noteq> []" "write_index b + length xs \<le> cap b"
  shows "\<exists>b'. buff_readfd (RdBytes xs) b w = Inr ((int (length xs), b'), w) \<and> wf_buff b' \<and> contents b' = contents b @ xs \<and>
     cap b' = cap b \<and> write_index b' = write_index b + length xs"
proof -
  note bnds = wf_buff_bounds [OF wf]
  have n: "to_int (buff_writable b) = int (cap b - write_index b)" "of_int_size (int (cap b - write_index b)) = cap b - write_index b"
    "to_int (length xs) = int (length xs)" "of_int_size (int (length xs)) = length xs"
    "size_add (write_index b) (length xs) = write_index b + length xs"
    using bnds xs(2) wf by (simp_all add: buff_writable_wf to_int_small of_int_size_int size_add_small del: of_nat_diff)
  have room: "write_index b < cap b" using xs by (cases xs) simp_all
  then have "\<not> int (cap b - write_index b) \<le> 0" "take (cap b - write_index b) xs = xs" using xs(2) by simp_all
  moreover from xs(1) have "0 < length xs" by simp
  ultimately have "buff_readfd (RdBytes xs) b w = Inr ((int (length xs), b\<lparr>data := arr_copy (data b) (write_index b) xs,
      write_index := size_add (write_index b) (length xs)\<rparr>), w)"
    using n xs(2) room by (simp add: buff_readfd_def buff_read_into_def Let_def ret_def del: of_nat_diff)
  with contents_append [OF wf xs(2)] n(5) show ?thesis by simp
qed

lemma read_turn:
  assumes ses: "session w p t bs out T w" and cl: "client_of w p t (length xs + n)" and xs: "xs \<noteq> []"
    and run: "\<And>w1. session w1 p t (bs @ xs) out T w1 \<Longrightarrow> client_of w1 p t n \<Longrightarrow> frame w w1 \<Longrightarrow>
       wpe {} (tunnel_read_state (Some p) (Some t)) Q w1"
  shows "wpe {} (tunnel_read_handle (RdBytes xs) fd (Some p)) Q w"
proof -
  from cl obtain s where s: "socks w p = Some s" "s_tunnel s = Some t" "write_index (read_buff s) + length xs + n \<le> cap (read_buff s)"
    by (auto simp: client_of_def)
  from session_live [OF ses] s(1) have b: "wf_buff (read_buff s)" "wf_buff (write_buff s)" "contents (read_buff s) = bs"
    "contents (write_buff s) = out" "tunnels w t = Some T" by (metis option.inject)+
  from buff_readfd_fits [OF b(1) xs, of w] s(3) obtain b' where b': "buff_readfd (RdBytes xs) (read_buff s) w = Inr ((int (length xs), b'), w)"
    "wf_buff b'" "contents b' = bs @ xs" "cap b' = cap (read_buff s)" "write_index b' = write_index (read_buff s) + length xs"
    by (auto simp: b(3))
  let ?w1 = "w\<lparr>socks := (socks w)(p \<mapsto> s\<lparr>read_buff := b'\<rparr>)\<rparr>"
  have "session_at ?w1 p t (bs @ xs) out T ?w1 (s\<lparr>read_buff := b'\<rparr>) (s\<lparr>read_buff := b'\<rparr>)"
    using b b' by (simp add: session_at_def fun_upd_idem)
  then have s1: "session ?w1 p t (bs @ xs) out T ?w1" unfolding session_def by blast
  have cl1: "client_of ?w1 p t n" using s b' by (simp add: client_of_def)
  have "on_read_buff (Some p) (buff_readfd (RdBytes xs)) w = Inr (int (length xs), ?w1)"
    using s(1) b'(1) by (simp add: on_read_buff_def sock_upd_def load_def bnd_def ret_def modifies_def gets_def)
  with run [OF s1 cl1] s(1,2) b(5) xs show ?thesis
    by (simp add: tunnel_read_handle_def Let_def wpe_bnd wpe_load wpe_gets wpe_run [of "on_read_buff (Some p) (buff_readfd (RdBytes xs))" w])
qed

text \<open>What one read of a whole message leaves: the bytes after it, one more answer, room for \<open>n\<close> bytes.\<close>

definition read_to :: "world \<Rightarrow> addr \<Rightarrow> addr \<Rightarrow> nat \<Rightarrow> byte list \<Rightarrow> byte list \<Rightarrow> tunnel \<Rightarrow> world \<Rightarrow> bool" where
  "read_to w p t n rest out T w' \<longleftrightarrow> session w' p t rest out T w' \<and> client_of w' p t n \<and> frame w w'"

lemma read_to_session:
  "session w1 p t rest out T w' \<Longrightarrow> client_of w1 p t n \<Longrightarrow> frame w w1 \<Longrightarrow> read_to w p t n rest out T w'"
  unfolding read_to_def by (metis session_rebase session_client session_frame frame_trans)

lemma read_to_roomy: "read_to w p t n rest out T w' \<Longrightarrow> roomy w' bs = roomy w bs"
  unfolding read_to_def by (metis frame_roomy)

text \<open>A message that makes its handler succeed does not close the connection.\<close>

lemma read_message:
  assumes start: "session w p t left out T w" "client_of w p t (length xs + n)" "xs \<noteq> []"
    and h: "(t_state T, f) \<in> {(open_state, tunnel_open_handle), (auth_state, tunnel_auth_handle), (request_state, tunnel_request_handle)}"
    and run: "\<And>w1. session w1 p t (left @ xs) out T w1 \<Longrightarrow> frame w w1 \<Longrightarrow>
       wpe {} (f (Some t)) (\<lambda>r w'. r = 0 \<and> session w1 p t rest out' T' w') w1"
  shows "\<exists>w'. tunnel_read_handle (RdBytes xs) fd (Some p) w = Inr ((), w') \<and> read_to w p t n rest out' T' w'"
proof -
  have "wpe {} (tunnel_read_handle (RdBytes xs) fd (Some p)) (\<lambda>_. read_to w p t n rest out' T') w"
  proof (rule read_turn [OF start])
    fix w1
    assume s: "session w1 p t (left @ xs) out T w1" and c: "client_of w1 p t n" and fr: "frame w w1"
    have "wpe {} (bnd (f (Some t)) (\<lambda>r. if r < 0 then sock_force_shutdown (Some p) else ret ())) (\<lambda>_. read_to w p t n rest out' T') w1"
      unfolding wpe_bnd
      by (rule wpe_conseq [OF run [OF s fr]]) (use read_to_session [OF _ c fr] in \<open>auto simp: wpe_ret\<close>)
    then show "wpe {} (tunnel_read_state (Some p) (Some t)) (\<lambda>_. read_to w p t n rest out' T') w1"
      unfolding tunnel_read_state_def by (intro wpe_bndI ses_load [OF s]) (use h in auto)
  qed
  from wpe_total [OF this] show ?thesis by auto
qed

text \<open>The tunnel after a greeting, and after a login.\<close>

definition greeted :: "world \<Rightarrow> byte list \<Rightarrow> tunnel \<Rightarrow> tunnel" where
  "greeted w ms T = opened w ms (counted (word_of_nat (length ms)) T)"

lemma greeted_simps [simp]:
  "t_state (greeted w ms T) = (if auth_required w then auth_state else request_state)" "read_count (greeted w ms T) = 0"
  "priv_sock (greeted w ms T) = priv_sock T" "t_ap (greeted w ms T) = t_ap T" "addr_closed (greeted w ms T) = addr_closed T"
  by (simp_all add: greeted_def opened_def counted_def addr_closed_def)

lemma read_greeting:
  assumes start: "session w p t [] out T w" "client_of w p t (length (enc_greeting ms @ rest) + n)"
    and ms: "length ms < 256" and T: "priv_sock T = Some p" "t_state T = open_state" "read_count T = 0" and room: "roomy w out"
  shows "\<exists>w'. tunnel_read_handle (RdBytes (enc_greeting ms @ rest)) fd (Some p) w = Inr ((), w') \<and>
     read_to w p t n rest (out @ [0x05, if auth_required w then 0x02 else 0x00]) (greeted w ms T) w'"
proof (rule read_message [OF start])
  fix w1
  assume s: "session w1 p t ([] @ enc_greeting ms @ rest) out T w1" and fr: "frame w w1"
  let ?n = "word_of_nat (length ms) :: byte"
  have s: "session w1 p t (5 # ?n # ms @ rest) out T w1" using s by (simp add: enc_greeting_def)
  have fr: "opened w1 = opened w" "auth_required w1 = auth_required w" "roomy w1 out"
    using frame_same(8) [OF fr] frame_roomy [OF fr] room by (simp_all add: opened_def fun_eq_iff)
  have "wpe {} (open_header (Some t) (Some p)) (\<lambda>r w'. r = 0 \<and>
     session w1 p t rest (out @ [0x05, if auth_required w then 0x02 else 0x00]) (greeted w ms T) w') w1"
    by (rule ses_greeting_whole [OF s unat_len [OF ms] T(1)])
       (use roomy_replied [OF _ fr(3)] in \<open>simp add: fr greeted_def\<close>)
  from ses_open_handle(1) [OF s T(1,3) this]
  show "wpe {} (tunnel_open_handle (Some t)) (\<lambda>r w'. r = 0 \<and>
     session w1 p t rest (out @ [0x05, if auth_required w then 0x02 else 0x00]) (greeted w ms T) w') w1" .
qed (use T in \<open>simp_all add: enc_greeting_def\<close>)

lemma read_request:
  assumes start: "session w p t left out T w" "client_of w p t (length xs + n)" "xs \<noteq> []" "left @ xs = enc_request d port @ rest"
    and d: "dest_ok d" "length port = 2"
    and T: "priv_sock T = Some p" "t_state T = request_state" "read_count T = 0" "addr_closed T" and room: "roomy w out"
  shows "\<exists>w'. tunnel_read_handle (RdBytes xs) fd (Some p) w = Inr ((), w') \<and>
     read_to w p t n rest (out @ connect_reply) (placed_req d port T) w'"
proof (rule read_message [OF start(1-3)])
  fix w1
  assume s: "session w1 p t (left @ xs) out T w1" and fr: "frame w w1"
  have s: "session w1 p t (enc_request d port @ rest) out T w1" using s start(4) by simp
  have "wpe {} (request_header (Some t) (Some p)) (\<lambda>r w'. r = 0 \<and> session w1 p t rest (out @ connect_reply) (placed_req d port T) w') w1"
    by (rule ses_request_whole [OF s d T(1,4)]) (use room frame_roomy [OF fr] in simp_all)
  from ses_request_handle [OF s T(1,3) this]
  show "wpe {} (tunnel_request_handle (Some t)) (\<lambda>r w'. r = 0 \<and> session w1 p t rest (out @ connect_reply) (placed_req d port T) w') w1" .
qed (use T in simp)

definition logged_in :: "byte \<Rightarrow> byte list \<Rightarrow> byte list \<Rightarrow> tunnel \<Rightarrow> tunnel" where
  "logged_in v us ps T =
     (told v (word_of_nat (length us)) us (word_of_nat (length ps)) ps T)\<lparr>t_state := request_state, read_count := 0\<rparr>"

lemma logged_in_simps [simp]:
  "t_state (logged_in v us ps T) = request_state" "read_count (logged_in v us ps T) = 0"
  "priv_sock (logged_in v us ps T) = priv_sock T" "addr_closed (logged_in v us ps T) = addr_closed T"
  by (simp_all add: logged_in_def told_def with_passwd_def with_plen_def with_uname_def with_ulen_def addr_closed_def)

lemma frame_accepts: "frame w w' \<Longrightarrow> accepts w' us ps = accepts w us ps"
  using frame_same(2,3) [of w w'] by (simp add: accepts_def login_ok_def)

lemma read_login:
  assumes start: "session w p t [] out T w" "client_of w p t (length (enc_login v us ps) + n)"
    and ok: "accepts w us ps"
    and T: "priv_sock T = Some p" "t_state T = auth_state" "read_count T = 0" "no_creds T" and room: "roomy w out"
  shows "\<exists>w'. tunnel_read_handle (RdBytes (enc_login v us ps)) fd (Some p) w = Inr ((), w') \<and>
     read_to w p t n [] (out @ [v, 0]) (logged_in v us ps T) w'"
proof (rule read_message [OF start])
  fix w1
  assume s: "session w1 p t ([] @ enc_login v us ps) out T w1" and fr: "frame w w1"
  let ?l = "word_of_nat (length us) :: byte" and ?k = "word_of_nat (length ps) :: byte"
  have s: "session w1 p t (v # ?l # us @ ?k # ps @ []) out T w1" using s by (simp add: enc_login_def)
  from ok have len: "length us \<le> 20" "length ps \<le> 20" by (simp_all add: accepts_def)
  have lo: "login_ok w1 us ps" using ok frame_accepts [OF fr, of us ps] by (simp add: accepts_def)
  have u: "unat ?l = length us" "unat ?k = length ps" using len by simp_all
  have "wpe {} (auth_header (Some t) (Some p)) (\<lambda>r w'. r = 0 \<and> session w1 p t [] (out @ [v, 0]) (logged_in v us ps T) w') w1"
    by (rule ses_login [OF s T(1) u len no_creds_ok [OF T(4)]], unfold creds_match_told [OF T(4) len])
       (use room frame_roomy [OF fr] lo in \<open>simp_all add: logged_in_def\<close>)
  from ses_auth_handle [OF s T(1,3) this]
  show "wpe {} (tunnel_auth_handle (Some t)) (\<lambda>r w'. r = 0 \<and> session w1 p t [] (out @ [v, 0]) (logged_in v us ps T) w') w1" .
qed (use T in \<open>simp_all add: enc_login_def\<close>)

text \<open>
  C3: without credentials configured, a client that sends a greeting and a request is served in two
  reads, when at least the last byte of the request is read after the greeting: the first read answers
  the greeting and keeps what has come of the request; the second answers the request, and the tunnel is
  connected and idle.  There is memory, both buffers have room, and the tunnel is one that has read
  nothing, with an address array that still ends in a zero.
\<close>

theorem handshake_in_two_reads:
  assumes ses: "session w p t [] out T w" "client_of w p t (length (enc_greeting ms) + length (enc_request d port))"
    and msg: "length ms < 256" "dest_ok d" "length port = 2" and cut: "enc_request d port = r1 @ r2" "r2 \<noteq> []"
    and T: "priv_sock T = Some p" "t_state T = open_state" "read_count T = 0" "addr_closed T"
    and auth: "\<not> auth_required w" and room: "roomy w (out @ [5, 0])"
  shows "\<exists>w1 T1 w2 T2. tunnel_read_handle (RdBytes (enc_greeting ms @ r1)) fd (Some p) w = Inr ((), w1) \<and>
     session w1 p t r1 (out @ [5, 0]) T1 w1 \<and> t_state T1 = request_state \<and>
     tunnel_read_handle (RdBytes r2) fd (Some p) w1 = Inr ((), w2) \<and>
     session w2 p t [] (out @ [5, 0] @ connect_reply) T2 w2 \<and> t_state T2 = connected_state \<and> t_status T2 = tunn_is_idle"
proof -
  have "client_of w p t (length (enc_greeting ms @ r1) + length r2)" and room1: "roomy w out"
    using ses(2) room by (simp_all add: cut(1) roomy_def add.assoc)
  from read_greeting [OF ses(1) this(1) msg(1) T(1-3) room1, of fd] auth obtain w1
    where w1: "tunnel_read_handle (RdBytes (enc_greeting ms @ r1)) fd (Some p) w = Inr ((), w1)"
      "read_to w p t (length r2) r1 (out @ [5, 0]) (greeted w ms T) w1" by auto
  then have s1: "session w1 p t r1 (out @ [5, 0]) (greeted w ms T) w1" "client_of w1 p t (length r2 + 0)"
    by (simp_all add: read_to_def)
  have "\<exists>w2. tunnel_read_handle (RdBytes r2) fd (Some p) w1 = Inr ((), w2) \<and>
     read_to w1 p t 0 [] ((out @ [5, 0]) @ connect_reply) (placed_req d port (greeted w ms T)) w2"
    by (rule read_request [OF s1 cut(2) _ msg(2,3)]) (use cut(1) T auth room read_to_roomy [OF w1(2)] in simp_all)
  then obtain w2 where "tunnel_read_handle (RdBytes r2) fd (Some p) w1 = Inr ((), w2)"
     "session w2 p t [] (out @ [5, 0] @ connect_reply) (placed_req d port (greeted w ms T)) w2" by (auto simp: read_to_def)
  with w1(1) s1(1) auth show ?thesis by (intro exI conjI) auto
qed

text \<open>
  C6: with credentials configured it takes three reads: greeting, login, request.  With the right name and
  password each is answered, in this order, and the tunnel is connected and idle.  The conditions are those of
  \<open>handshake_in_two_reads\<close>, and the tunnel holds no name and password of an earlier client.
\<close>

theorem handshake_with_login:
  assumes ses: "session w p t [] out T w"
      "client_of w p t (length (enc_greeting ms) + length (enc_login v us ps) + length (enc_request d port))"
    and msg: "length ms < 256" "dest_ok d" "length port = 2"
    and T: "priv_sock T = Some p" "t_state T = open_state" "read_count T = 0" "addr_closed T" "no_creds T"
    and auth: "auth_required w" "accepts w us ps" and room: "roomy w (out @ [5, 2, v, 0])"
  shows "\<exists>w1 w2 w3 T3. tunnel_read_handle (RdBytes (enc_greeting ms)) fd (Some p) w = Inr ((), w1) \<and>
     tunnel_read_handle (RdBytes (enc_login v us ps)) fd (Some p) w1 = Inr ((), w2) \<and>
     tunnel_read_handle (RdBytes (enc_request d port)) fd (Some p) w2 = Inr ((), w3) \<and>
     session w3 p t [] (out @ [5, 2, v, 0] @ connect_reply) T3 w3 \<and> t_state T3 = connected_state \<and> t_status T3 = tunn_is_idle"
proof -
  let ?T1 = "greeted w ms T" let ?T2 = "logged_in v us ps ?T1"
  have "client_of w p t (length (enc_greeting ms @ []) + (length (enc_login v us ps) + length (enc_request d port)))"
    and room1: "roomy w out" "roomy w (out @ [5, 2])"
    using ses(2) room by (simp_all add: roomy_def add.assoc)
  from read_greeting [OF ses(1) this(1) msg(1) T(1-3) room1(1), of fd] auth(1) obtain w1
    where w1: "tunnel_read_handle (RdBytes (enc_greeting ms)) fd (Some p) w = Inr ((), w1)"
      "read_to w p t (length (enc_login v us ps) + length (enc_request d port)) [] (out @ [5, 2]) ?T1 w1" by auto
  have s1: "session w1 p t [] (out @ [5, 2]) ?T1 w1" "client_of w1 p t (length (enc_login v us ps) + length (enc_request d port))"
    and ok: "accepts w1 us ps" and room2: "roomy w1 (out @ [5, 2])" "roomy w1 (out @ [5, 2, v, 0])"
    using w1(2) frame_accepts [of w w1 us ps] auth(2) frame_roomy [of w w1] room room1 by (simp_all add: read_to_def)
  have T1: "priv_sock ?T1 = Some p" "t_state ?T1 = auth_state" "read_count ?T1 = 0" "no_creds ?T1"
    using T auth(1) by (simp_all add: no_creds_def)
  from read_login [OF s1 ok T1 room2(1), of fd] obtain w2
    where w2: "tunnel_read_handle (RdBytes (enc_login v us ps)) fd (Some p) w1 = Inr ((), w2)"
      "read_to w1 p t (length (enc_request d port)) [] (out @ [5, 2, v, 0]) ?T2 w2" by auto
  have s2: "session w2 p t [] (out @ [5, 2, v, 0]) ?T2 w2" "client_of w2 p t (length (enc_request d port) + 0)"
    using w2(2) by (simp_all add: read_to_def)
  have "\<exists>w3. tunnel_read_handle (RdBytes (enc_request d port)) fd (Some p) w2 = Inr ((), w3) \<and>
     read_to w2 p t 0 [] ((out @ [5, 2, v, 0]) @ connect_reply) (placed_req d port ?T2) w3"
    by (rule read_request [OF s2 _ _ msg(2,3)]) (use T room2(2) read_to_roomy [OF w2(2)] in \<open>simp_all add: enc_request_def\<close>)
  then obtain w3 where "tunnel_read_handle (RdBytes (enc_request d port)) fd (Some p) w2 = Inr ((), w3)"
     "session w3 p t [] (out @ [5, 2, v, 0] @ connect_reply) (placed_req d port ?T2) w3" by (auto simp: read_to_def)
  with w1(1) w2(1) show ?thesis by (intro exI conjI) auto
qed

text \<open>
  C27: a read that delivers a greeting answers the greeting only, even when the rest of the same read is a
  whole login or request: all of that stays in the buffer, with nothing more queued.  No handler looks at it
  before the descriptor is readable again, that is, before the client sends more or closes
  (\<open>coalesced_stuck_run\<close>).
\<close>

theorem coalesced_message_waits:
  assumes ses: "session w p t [] out T w" "client_of w p t (length (enc_greeting ms @ rest))" and ms: "length ms < 256"
    and T: "priv_sock T = Some p" "t_state T = open_state" "read_count T = 0" and room: "roomy w out"
  shows "\<exists>w' T'. tunnel_read_handle (RdBytes (enc_greeting ms @ rest)) fd (Some p) w = Inr ((), w') \<and>
     session w' p t rest (out @ [0x05, if auth_required w then 0x02 else 0x00]) T' w' \<and>
     t_state T' = (if auth_required w then auth_state else request_state) \<and> read_count T' = 0"
proof -
  have "client_of w p t (length (enc_greeting ms @ rest) + 0)" using ses(2) by simp
  from read_greeting [OF ses(1) this ms T room, of fd] obtain w'
    where "tunnel_read_handle (RdBytes (enc_greeting ms @ rest)) fd (Some p) w = Inr ((), w')"
      "session w' p t rest (out @ [0x05, if auth_required w then 0x02 else 0x00]) (greeted w ms T) w'" by (auto simp: read_to_def)
  then show ?thesis by (intro exI [of _ w'] exI [of _ "greeted w ms T"]) simp
qed

lemma talk_client: "n \<le> 1024 \<Longrightarrow> client_of (talk w [] T) 2 0 n"
  by (simp add: client_of_def talk_def talk_sock_def)

lemma handshake_in_two_reads_witness:
  "\<exists>w1 w2 T2. tunnel_read_handle (RdBytes [5, 1, 0, 5, 1]) 5 (Some 2) (talk demo_start [] client_tunnel) = Inr ((), w1) \<and>
     tunnel_read_handle (RdBytes [0, 1, 10, 0, 0, 7, 0, 80]) 5 (Some 2) w1 = Inr ((), w2) \<and>
     session w2 2 0 [] ([5, 0] @ connect_reply) T2 w2 \<and> t_state T2 = connected_state"
proof -
  let ?w = "talk demo_start [] client_tunnel"
  have cut: "enc_request (IPv4 [10, 0, 0, 7]) [0, 80] = [5, 1] @ [0, 1, 10, 0, 0, 7, 0, 80]" by (simp add: enc_request_def)
  have s: "session ?w 2 0 [] [] client_tunnel ?w" by (rule talk_session) simp
  have c: "client_of ?w 2 0 (length (enc_greeting [0]) + length (enc_request (IPv4 [10, 0, 0, 7]) [0, 80]))"
    by (rule talk_client) (simp add: enc_greeting_def enc_request_def)
  have room: "roomy ?w ([] @ [5, 0])" by (simp add: roomy_def talk_def start_defs)
  from handshake_in_two_reads [OF s c _ _ _ cut _ _ _ _ _ _ room, of 5]
  show ?thesis by (simp add: enc_greeting_def) blast
qed

lemma handshake_with_login_witness:
  "\<exists>w1 w2 w3 T3. tunnel_read_handle (RdBytes [5, 1, 2]) 5 (Some 2) (talk auth_start [] client_tunnel) = Inr ((), w1) \<and>
     tunnel_read_handle (RdBytes [1, 1, 0x75, 1, 0x70]) 5 (Some 2) w1 = Inr ((), w2) \<and>
     tunnel_read_handle (RdBytes [5, 1, 0, 1, 10, 0, 0, 7, 0, 80]) 5 (Some 2) w2 = Inr ((), w3) \<and>
     session w3 2 0 [] ([5, 2, 1, 0] @ connect_reply) T3 w3 \<and> t_state T3 = connected_state"
proof -
  let ?w = "talk auth_start [] client_tunnel"
  have s: "session ?w 2 0 [] [] client_tunnel ?w" by (rule talk_session) simp
  have c: "client_of ?w 2 0 (length (enc_greeting [2]) + length (enc_login 1 [0x75] [0x70]) +
      length (enc_request (IPv4 [10, 0, 0, 7]) [0, 80]))"
    by (rule talk_client) (simp add: enc_greeting_def enc_request_def enc_login_def)
  have ok: "accepts ?w [0x75] [0x70]" by (simp add: accepts_def login_ok_def talk_def auth_start_def text_arr_def c_string_copy)
  have room: "roomy ?w ([] @ [5, 2, 1, 0])" by (simp add: roomy_def talk_def start_defs)
  from handshake_with_login [OF s c _ _ _ _ _ _ _ _ _ ok room, of 5]
  show ?thesis by (simp add: enc_greeting_def enc_login_def enc_request_def no_creds_def) blast
qed

lemma coalesced_message_waits_witness:
  "\<exists>w' T'. tunnel_read_handle (RdBytes ([5, 1, 0] @ enc_request (IPv4 [10, 0, 0, 7]) [0, 80])) 5 (Some 2)
       (talk demo_start [] client_tunnel) = Inr ((), w') \<and>
     session w' 2 0 (enc_request (IPv4 [10, 0, 0, 7]) [0, 80]) [5, 0] T' w' \<and> t_state T' = request_state"
proof -
  let ?w = "talk demo_start [] client_tunnel" and ?r = "enc_request (IPv4 [10, 0, 0, 7]) [0, 80]"
  have s: "session ?w 2 0 [] [] client_tunnel ?w" by (rule talk_session) simp
  have c: "client_of ?w 2 0 (length (enc_greeting [0] @ ?r))"
    by (rule talk_client) (simp add: enc_greeting_def enc_request_def)
  from coalesced_message_waits [OF s c _ _ _ _ roomy_talk(1), of 5]
  show ?thesis by (simp add: enc_greeting_def) blast
qed

end
