(* ===== verification/ClientSock.thy ===== *)
theory ClientSock
  imports Tunnel
begin

text \<open>
  The socket layer of \<open>clientdemo.c\<close>, the mediator that connects to the port of the server where clients
  are expected.
  The client has its own copies of most functions of the server, some of them changed; a
  definition \<open>clt_f\<close> models the function \<open>f\<close> of \<open>clientdemo.c\<close>, over the same store.  Copies that
  are the same computation are shown equal, so that what is known of the server's function
  holds for them.
\<close>

section \<open>The registry\<close>

definition clt_epoll_add :: "ptr \<Rightarrow> int prog" where
  "clt_epoll_add sock = bnd (load socks sock) (\<lambda>s.
     epoll_ctl_add (s_fd s) \<lparr>ep_ptr = UdSock (the sock), ep_out = False, ep_in = True\<rparr>)"

definition clt_epoll_del :: "ptr \<Rightarrow> int prog" where
  "clt_epoll_del sock = bnd (load socks sock) (\<lambda>s. epoll_ctl_del (s_fd s))"

definition clt_epoll_modify :: "ptr \<Rightarrow> bool \<Rightarrow> bool \<Rightarrow> int prog" where
  "clt_epoll_modify sock writable readable = bnd (load socks sock) (\<lambda>s.
     epoll_ctl_mod (s_fd s) \<lparr>ep_ptr = UdSock (the sock), ep_out = writable, ep_in = readable\<rparr>)"

section \<open>Sockets\<close>

definition clt_sock_create :: "int \<Rightarrow> sock_state \<Rightarrow> int \<Rightarrow> ptr \<Rightarrow> ptr prog" where
  "clt_sock_create fd state priv tunnel =
     bnd malloc (\<lambda>ok.
     if \<not> ok then ret None
     else bnd (buff_create INIT_BUFF_CAP) (\<lambda>rb. case rb of None \<Rightarrow> ret None
       | Some rb \<Rightarrow>
     bnd (buff_create INIT_BUFF_CAP) (\<lambda>wb. case wb of
         None \<Rightarrow> bnd (buff_release rb) (\<lambda>_. bnd free (\<lambda>_. ret None))
       | Some wb \<Rightarrow>
     new_sock \<lparr>s_fd = fd, s_read_handle = tunnel_read_handle_p, s_write_handle = tunnel_write_handle_p,
               read_buff = rb, write_buff = wb, s_tunnel = tunnel, s_state = state,
               ispriv = priv, iskeepalive = 0\<rparr>)))"

definition clt_sock_release :: "ptr \<Rightarrow> unit prog" where
  "clt_sock_release sock =
     bnd (load socks sock) (\<lambda>s.
     let tunnel = s_tunnel s in
     bnd (load tunnels tunnel) (\<lambda>_. \<comment> \<open>\<open>printf\<close> of \<open>tunnel->state\<close> and \<open>tunnel->status\<close>\<close>
     bnd (buff_release (write_buff s)) (\<lambda>_.
     bnd (buff_release (read_buff s)) (\<lambda>_.
     bnd (if ispriv s \<noteq> 0 then tunnel_upd tunnel (\<lambda>t. t\<lparr>priv_sock := None\<rparr>)
          else tunnel_upd tunnel (\<lambda>t. t\<lparr>remote_sock := None\<rparr>)) (\<lambda>_.
     bnd (clt_epoll_del sock) (\<lambda>_.
     bnd (sys_close (s_fd s)) (\<lambda>_.
     free_sock sock)))))))"

definition clt_sock_force_shutdown :: "ptr \<Rightarrow> unit prog" where
  "clt_sock_force_shutdown sock = clt_sock_release sock"

text \<open>
  Lines 144 to 150: what the socket has received goes to the other side; without a remote
  side the second branch is taken for the private socket as well.
\<close>

definition clt_forward_left :: "ptr \<Rightarrow> ptr \<Rightarrow> unit prog" where
  "clt_forward_left sock tunnel =
     bnd (load tunnels tunnel) (\<lambda>t.
     if t_state t = connected_state then
       bnd (load socks sock) (\<lambda>s.
       if ispriv s \<noteq> 0 \<and> remote_sock t \<noteq> None then
         bnd (on_write_buff (remote_sock t) (\<lambda>b. buff_concat b (read_buff s))) (\<lambda>_. ret ())
       else if priv_sock t \<noteq> None then
         bnd (on_write_buff (priv_sock t) (\<lambda>b. buff_concat b (read_buff s))) (\<lambda>_. ret ())
       else ret ())
     else ret ())"

text \<open>Lines 162 to 183: the status of the tunnel after the socket is gone; \<open>n\<close> says which side it was.\<close>

definition clt_after_close :: "ptr \<Rightarrow> int \<Rightarrow> unit prog" where
  "clt_after_close tunnel n =
     bnd (load tunnels tunnel) (\<lambda>t.
     if t_state t = tunnel_waitting then
       bnd (tunnel_upd tunnel (\<lambda>t. t\<lparr>t_status := tmptun_is_free\<rparr>)) (\<lambda>_.
       tunnel_upd tunnel (\<lambda>t. t\<lparr>remote_sock := None\<rparr>))
     else if t_state t = connected_state then
       if n = 1 then
         bnd (tunnel_upd tunnel (\<lambda>t. t\<lparr>t_status := tunn_is_idle\<rparr>)) (\<lambda>_.
         tunnel_upd tunnel (\<lambda>t. t\<lparr>remote_sock := None\<rparr>))
       else if n = 2 then
         bnd (tunnel_upd tunnel (\<lambda>t. t\<lparr>t_status := tunn_is_free\<rparr>)) (\<lambda>_.
         tunnel_upd tunnel (\<lambda>t. t\<lparr>priv_sock := None\<rparr>))
       else ret ()
     else ret ())"

definition clt_sock_shutdown :: "ptr \<Rightarrow> unit prog" where
  "clt_sock_shutdown sock =
     bnd (sock_upd sock (\<lambda>s. s\<lparr>s_state := sock_halfclosed\<rparr>)) (\<lambda>_.
     bnd (load socks sock) (\<lambda>s.
     let tunnel = s_tunnel s in
     bnd (clt_forward_left sock tunnel) (\<lambda>_.
     bnd (load socks sock) (\<lambda>s.
     let writable = 0 < buff_readable (write_buff s) in
     if writable then bnd (clt_epoll_modify sock writable False) (\<lambda>_. ret ())
     else
       bnd (load tunnels tunnel) (\<lambda>t.
       let n = if sock = remote_sock t then 1 else if sock = priv_sock t then 2 else 0 in
       bnd (clt_sock_force_shutdown sock) (\<lambda>_.
       clt_after_close tunnel n))))))"

definition clt_sock_nonblocking :: "int \<Rightarrow> int prog" where
  "clt_sock_nonblocking fd =
     bnd (gets (\<lambda>w. fd_open w fd)) (\<lambda>got.
     if \<not> got then ret (-1)
     else bnd (sys_set_nonblock fd) (\<lambda>flag. if flag < 0 then ret (-1) else ret flag))"

definition clt_sock_keepalive :: "int \<Rightarrow> int prog" where
  "clt_sock_keepalive fd = sys_set_keepalive fd"

definition clt_tunnel_write_client :: "ptr \<Rightarrow> byte list \<Rightarrow> int prog" where
  "clt_tunnel_write_client tunnel src =
     bnd (load tunnels tunnel) (\<lambda>t.
     if priv_sock t = None then ret (-1)
     else bnd (on_write_buff (priv_sock t) (\<lambda>b. buff_write b src)) (\<lambda>r.
     if r < 0 then ret (-1)
     else bnd (clt_epoll_modify (priv_sock t) True True) (\<lambda>_. ret 0)))"

section \<open>Connecting\<close>

text \<open>
  \<open>getaddrinfo\<close> gives a list of addresses or fails; for each address tried, \<open>ct_socket\<close> is what
  \<open>socket\<close> gives and \<open>ct_connect\<close> the error of \<open>connect\<close>, if it has one.
\<close>

record conn_try =
  ct_socket :: "int + errno"
  ct_connect :: "errno option"

type_synonym gai = "conn_try list option"

definition sys_connect :: "errno option \<Rightarrow> int prog" where
  "sys_connect k = (case k of None \<Rightarrow> ret 0
     | Some e \<Rightarrow> bnd (modifies (errno_v_update (\<lambda>_. e))) (\<lambda>_. ret (-1)))"

text \<open>The loop over \<open>ai_list\<close>; it is in \<open>openConnSock\<close> and, the same, in \<open>tunnel_connect_to_remote\<close>.\<close>

fun clt_connect_loop :: "conn_try list \<Rightarrow> int prog" where
  "clt_connect_loop [] = ret (-1)"
| "clt_connect_loop (a # as) =
     bnd (sys_accept (ct_socket a)) (\<lambda>newfd.
     if newfd < 0 then clt_connect_loop as
     else bnd (clt_sock_nonblocking newfd) (\<lambda>_.
     bnd (clt_sock_keepalive newfd) (\<lambda>_.
     bnd (sys_connect (ct_connect a)) (\<lambda>status.
     bnd (gets errno_v) (\<lambda>e.
     if status \<noteq> 0 \<and> e \<noteq> EINPROGRESS then bnd (sys_close newfd) (\<lambda>_. clt_connect_loop as)
     else ret newfd)))))"

text \<open>
  The array \<open>addr\<close> has 128 bytes, as has \<open>g_locAddr\<close>, which \<open>main\<close> passes: \<open>sprintf\<close> reads the
  host up to its zero, \<open>getaddrinfo\<close> the port, an array of 16 bytes.  The result is the return
  value and the descriptor, unset on failure.
\<close>

definition openConnSock :: "arr \<Rightarrow> arr \<Rightarrow> gai \<Rightarrow> (int \<times> int option) prog" where
  "openConnSock host port gai =
     bnd (lift_res (strlen_at 128 host 0)) (\<lambda>_.
     bnd (lift_res (strlen_at 16 port 0)) (\<lambda>_.
     case gai of None \<Rightarrow> ret (-1, None)
     | Some ai_list \<Rightarrow>
         bnd (clt_connect_loop ai_list) (\<lambda>newfd.
         if newfd < 0 then ret (-1, None) else ret (0, Some newfd))))"

text \<open>The port is copied from \<open>g_locPort\<close>, 16 bytes, with \<open>snprintf\<close>.\<close>

definition clt_tunnel_connect_to_remote :: "ptr \<Rightarrow> arr \<Rightarrow> arr \<Rightarrow> gai \<Rightarrow> int prog" where
  "clt_tunnel_connect_to_remote tunnel addr pPort gai =
     bnd (lift_res (strlen_at 16 pPort 0)) (\<lambda>_.
     bnd (lift_res (strlen_at 128 addr 0)) (\<lambda>_. \<comment> \<open>\<open>printf\<close> of \<open>addr\<close>\<close>
     case gai of None \<Rightarrow> ret (-1)
     | Some ai_list \<Rightarrow>
         bnd (clt_connect_loop ai_list) (\<lambda>newfd.
         if newfd < 0 then ret (-1)
         else bnd (clt_sock_create newfd sock_connecting 0 tunnel) (\<lambda>sock.
         if sock = None then bnd (sys_close newfd) (\<lambda>_. ret (-1))
         else bnd (tunnel_upd tunnel (\<lambda>t. t\<lparr>remote_sock := sock\<rparr>)) (\<lambda>_.
         bnd (tunnel_upd tunnel (\<lambda>t. t\<lparr>t_status := tunn_is_run\<rparr>)) (\<lambda>_.
         bnd (clt_epoll_add sock) (\<lambda>_. ret 0)))))))"

end
