(* ===== verification/ClientPool.thy ===== *)
theory ClientPool
  imports ClientSock
begin

text \<open>
  Choosing tunnels in the mediator: the comparisons, the search for a free place in the wait list,
  the search for a tunnel, and the search for a connection that waits to be used again.
\<close>

definition clt_appCompare :: cb_compare where
  "clt_appCompare p1 p2 = bnd (conn_tunnel (Some p1)) (\<lambda>t. ret (if t_status t = tunn_is_idle then 0 else -1))"

definition clt_waitCompare :: cb_compare where
  "clt_waitCompare p1 p2 = bnd (conn_tunnel (Some p1)) (\<lambda>t. ret (if t_status t = tmptun_is_free then 0 else -1))"

definition clt_waitCompare2 :: cb_compare where
  "clt_waitCompare2 p1 p2 =
     bnd (conn_tunnel (Some p1)) (\<lambda>t.
     if t_status t = tmptun_is_wait then ret 0
     else if t_status t = tmptun_is_alive then
       bnd (load socks (remote_sock t)) (\<lambda>s.
       ret (if 0 < size_sub (write_index (read_buff s)) (read_index (read_buff s)) then 0 else -1))
     else ret (-1))"

text \<open>From the label \<open>new_obj\<close> on.\<close>

definition clt_getWaitobj_new :: "int \<Rightarrow> ptr prog" where
  "clt_getWaitobj_new rmtfd =
     bnd malloc (\<lambda>ok.
     if \<not> ok then ret None
     else bnd malloc (\<lambda>ok.
     if \<not> ok then bnd free (\<lambda>_. ret None)
     else bnd (new_tunnel (zero_tunnel\<lparr>t_state := tunnel_waitting, t_status := tmptun_is_wait\<rparr>)) (\<lambda>tun.
     bnd (new_conn \<lparr>c_tunnel = tun\<rparr>) (\<lambda>p.
     bnd (waitListAdd p) (\<lambda>_. ret p)))))"

definition clt_getWaitobjFrList :: "int \<Rightarrow> ptr prog" where
  "clt_getWaitobjFrList rmtfd =
     bnd waitListEmpty (\<lambda>e.
     if e then clt_getWaitobj_new rmtfd
     else bnd (waitListFnd None clt_waitCompare) (\<lambda>p.
     if p \<noteq> None then
       bnd (conn_upd p (\<lambda>t. t\<lparr>t_state := tunnel_waitting\<rparr>)) (\<lambda>_.
       bnd (conn_upd p (\<lambda>t. t\<lparr>t_status := tmptun_is_wait\<rparr>)) (\<lambda>_.
       ret p))
     else clt_getWaitobj_new rmtfd))"

text \<open>From the label \<open>new_tun\<close> on.\<close>

definition clt_getTarget_new :: "int \<Rightarrow> ptr prog" where
  "clt_getTarget_new rmtfd =
     bnd malloc (\<lambda>ok.
     if \<not> ok then ret None
     else bnd malloc (\<lambda>ok.
     if \<not> ok then bnd free (\<lambda>_. ret None)
     else bnd (new_tunnel (zero_tunnel\<lparr>t_status := tunn_is_idle\<rparr>)) (\<lambda>tun.
     bnd (new_conn \<lparr>c_tunnel = tun\<rparr>) (\<lambda>p.
     bnd (AppListAdd p) (\<lambda>_. ret p)))))"

definition clt_getTargetFrList :: "int \<Rightarrow> int \<Rightarrow> ptr prog" where
  "clt_getTargetFrList rmtfd privflg =
     bnd AppListEmpty (\<lambda>e.
     if e then clt_getTarget_new rmtfd
     else bnd (AppListFnd None clt_appCompare) (\<lambda>p.
     if p \<noteq> None then
       bnd (conn_upd p (\<lambda>t. t\<lparr>t_status := tunn_is_idle\<rparr>)) (\<lambda>_.
       bnd (conn_tunnel p) (\<lambda>t.
       bnd (load socks (priv_sock t)) (\<lambda>_. \<comment> \<open>\<open>printf\<close> of \<open>p->tunnel->priv_sock->fd\<close>\<close>
       ret p)))
     else clt_getTarget_new rmtfd))"

text \<open>\<open>*arg\<close> is the second component of the result; the walk stops at the first parked connection.\<close>

definition clt_fndIdleConnElemt :: "addr \<Rightarrow> ptr \<Rightarrow> (int \<times> ptr) prog" where
  "clt_fndIdleConnElemt p arg =
     bnd (conn_tunnel (Some p)) (\<lambda>t.
     if t_status t = tmptun_is_alive then ret (1, Some p) else ret (0, arg))"

definition clt_waitLinePairing :: "ptr prog" where
  "clt_waitLinePairing =
     bnd waitListEmpty (\<lambda>e. if e then ret None else waitListDo clt_fndIdleConnElemt None)"

section \<open>Creating a tunnel\<close>

definition clt_tunnel_create :: "int \<Rightarrow> int \<Rightarrow> ptr prog" where
  "clt_tunnel_create fd privflg =
     bnd (clt_getTargetFrList fd privflg) (\<lambda>pconn1.
     if pconn1 = None then bnd (sys_close fd) (\<lambda>_. ret None)
     else bnd (load conns pconn1) (\<lambda>c.
     let tunnel = c_tunnel c in
     bnd (clt_sock_create fd sock_connected privflg tunnel) (\<lambda>new.
     if new = None then
       bnd (free_tunnel tunnel) (\<lambda>_. bnd (sys_close fd) (\<lambda>_. ret None))
     else if privflg \<noteq> 0 then
       bnd (tunnel_upd tunnel (\<lambda>t. t\<lparr>t_state := open_state\<rparr>)) (\<lambda>_.
       bnd (tunnel_upd tunnel (\<lambda>t. t\<lparr>priv_sock := new\<rparr>)) (\<lambda>_.
       bnd (tunnel_upd tunnel (\<lambda>t. t\<lparr>read_count := 0\<rparr>)) (\<lambda>_.
       bnd (tunnel_upd tunnel (\<lambda>t. t\<lparr>t_closed := 0\<rparr>)) (\<lambda>_.
       bnd (clt_epoll_add new) (\<lambda>_.
       bnd (clt_epoll_modify new True True) (\<lambda>_. ret tunnel))))))
     else bnd (load socks new) (\<lambda>_. ret tunnel))))"

definition clt_tunnel_shutdown :: "ptr \<Rightarrow> unit prog" where
  "clt_tunnel_shutdown tunnel =
     bnd (load tunnels tunnel) (\<lambda>t.
     bnd (if priv_sock t \<noteq> None then clt_sock_shutdown (priv_sock t) else ret ()) (\<lambda>_.
     bnd (load tunnels tunnel) (\<lambda>t.
     if remote_sock t \<noteq> None then clt_sock_shutdown (remote_sock t) else ret ())))"

end
