(* ===== verification/ClientProto.thy ===== *)
theory ClientProto
  imports ClientPool
begin

text \<open>
  The protocol side of the mediator.  Its private socket is a connection it has opened to the server:
  \<open>tunnel_open_handle\<close> reads the server's answer to the greeting and sends a request,
  \<open>tunnel_request_handle\<close> reads the answer to the request, which the server writes in the form
  of a request, and from then on data is forwarded to and from a local service, to which a
  connection is made on demand.
\<close>

section \<open>Handshake\<close>

text \<open>
  The first \<open>len = 5 + rp.domainlen\<close> bytes of the \<open>request_protocol_t\<close> on the stack, then the port.
\<close>

definition clt_tunnel_write_request :: "ptr \<Rightarrow> int prog" where
  "clt_tunnel_write_request tunnel =
     (let name = bytes_of ''www.hellofz.org'';
          domainlen = word_of_nat (length name) :: byte;
          rp = [0x05, 0x01, 0x00, 0x03, domainlen] @ name in
      bnd (clt_tunnel_write_client tunnel (take (5 + unat domainlen) rp)) (\<lambda>r.
      if r < 0 then ret (-1)
      else bnd (clt_tunnel_write_client tunnel [0x1F, 0x9A]) (\<lambda>r. \<comment> \<open>\<open>htons(8090)\<close>\<close>
      if r < 0 then ret (-1)
      else bnd (load tunnels tunnel) (\<lambda>t.
      bnd (load socks (priv_sock t)) (\<lambda>_. ret 0)))))" \<comment> \<open>\<open>printf\<close> of \<open>tunnel->priv_sock->fd\<close>\<close>

definition clt_tunnel_open_handle :: "ptr \<Rightarrow> int prog" where
  "clt_tunnel_open_handle tunnel =
     bnd (load tunnels tunnel) (\<lambda>t.
     let p = priv_sock t in
     bnd (load socks p) (\<lambda>_.
     if read_count t \<noteq> 0 then halt AssertFail
     else bnd (rb_readable p) (\<lambda>n.
     if nheader_open \<le> n then
       bnd (rb_read1 p) (\<lambda>v.
       bnd (tunnel_upd tunnel (\<lambda>t. t\<lparr>t_op := (t_op t)\<lparr>op_ver := v\<rparr>\<rparr>)) (\<lambda>_.
       if v \<noteq> 0x05 then ret (-1)
       else bnd (rb_read1 p) (\<lambda>m.
       bnd (tunnel_upd tunnel (\<lambda>t. t\<lparr>t_op := (t_op t)\<lparr>op_nmethods := m\<rparr>\<rparr>)) (\<lambda>_.
       bnd (tunnel_upd tunnel (\<lambda>t. t\<lparr>read_count := read_count t + nheader_open\<rparr>)) (\<lambda>_.
       bnd (clt_tunnel_write_request tunnel) (\<lambda>_.
       bnd (tunnel_upd tunnel (\<lambda>t. t\<lparr>t_state := request_state\<rparr>)) (\<lambda>_.
       bnd (load tunnels tunnel) (\<lambda>t.
       bnd (clt_epoll_modify (priv_sock t) True True) (\<lambda>_.
       bnd (tunnel_upd tunnel (\<lambda>t. t\<lparr>read_count := 0\<rparr>)) (\<lambda>_. ret 0))))))))))
     else ret 0)))"

text \<open>The copy of the server's \<open>tunnel_auth_handle\<close>, split at the labels; no state of the client leads to it.\<close>

definition clt_auth_passwd :: "ptr \<Rightarrow> ptr \<Rightarrow> int prog" where
  "clt_auth_passwd tunnel p =
     bnd (load tunnels tunnel) (\<lambda>t.
     bnd (rb_readable p) (\<lambda>n.
     if unat (ap_plen (t_ap t)) \<le> n then
       bnd (rb_read p (unat (ap_plen (t_ap t)))) (\<lambda>bs.
       bnd (tunnel_upd tunnel (\<lambda>t. t\<lparr>t_ap := (t_ap t)\<lparr>ap_passwd := arr_copy (ap_passwd (t_ap t)) 0 bs\<rparr>\<rparr>)) (\<lambda>_.
       bnd (load tunnels tunnel) (\<lambda>t.
       bnd (gets (\<lambda>w. (mon_username w, mon_passwd w))) (\<lambda>(u, pw).
       bnd (credentials_differ (t_ap t) u pw) (\<lambda>differ.
       if differ then ret (-1)
       else bnd (clt_tunnel_write_client tunnel [ap_ver (t_ap t), 0x00]) (\<lambda>r.
       if r < 0 then ret (-1)
       else bnd (tunnel_upd tunnel (\<lambda>t. t\<lparr>t_state := request_state\<rparr>)) (\<lambda>_.
       bnd (tunnel_upd tunnel (\<lambda>t. t\<lparr>read_count := 0\<rparr>)) (\<lambda>_. ret 0))))))))
     else ret 0))"

definition clt_auth_plen :: "ptr \<Rightarrow> ptr \<Rightarrow> int prog" where
  "clt_auth_plen tunnel p =
     bnd (rb_readable p) (\<lambda>n.
     if nplen \<le> n then
       bnd (rb_read1 p) (\<lambda>l.
       bnd (tunnel_upd tunnel (\<lambda>t. t\<lparr>t_ap := (t_ap t)\<lparr>ap_plen := l\<rparr>\<rparr>)) (\<lambda>_.
       if MAX_PASSWD_LEN < unat l then ret (-1)
       else bnd (tunnel_upd tunnel (\<lambda>t. t\<lparr>read_count := read_count t + nplen\<rparr>)) (\<lambda>_.
       clt_auth_passwd tunnel p)))
     else ret 0)"

definition clt_auth_uname :: "ptr \<Rightarrow> ptr \<Rightarrow> int prog" where
  "clt_auth_uname tunnel p =
     bnd (load tunnels tunnel) (\<lambda>t.
     bnd (rb_readable p) (\<lambda>n.
     if unat (ap_ulen (t_ap t)) \<le> n then
       bnd (rb_read p (unat (ap_ulen (t_ap t)))) (\<lambda>bs.
       bnd (tunnel_upd tunnel (\<lambda>t. t\<lparr>t_ap := (t_ap t)\<lparr>ap_uname := arr_copy (ap_uname (t_ap t)) 0 bs\<rparr>\<rparr>)) (\<lambda>_.
       bnd (tunnel_upd tunnel (\<lambda>t. t\<lparr>read_count := read_count t + unat (ap_ulen (t_ap t))\<rparr>)) (\<lambda>_.
       clt_auth_plen tunnel p)))
     else ret 0))"

definition clt_auth_header :: "ptr \<Rightarrow> ptr \<Rightarrow> int prog" where
  "clt_auth_header tunnel p =
     bnd (rb_readable p) (\<lambda>n.
     if nheader_auth \<le> n then
       bnd (rb_read1 p) (\<lambda>v.
       bnd (tunnel_upd tunnel (\<lambda>t. t\<lparr>t_ap := (t_ap t)\<lparr>ap_ver := v\<rparr>\<rparr>)) (\<lambda>_.
       bnd (rb_read1 p) (\<lambda>l.
       bnd (tunnel_upd tunnel (\<lambda>t. t\<lparr>t_ap := (t_ap t)\<lparr>ap_ulen := l\<rparr>\<rparr>)) (\<lambda>_.
       if MAX_UNAME_LEN < unat l then ret (-1)
       else bnd (tunnel_upd tunnel (\<lambda>t. t\<lparr>read_count := read_count t + nheader_auth\<rparr>)) (\<lambda>_.
       clt_auth_uname tunnel p)))))
     else ret 0)"

definition clt_tunnel_auth_handle :: "ptr \<Rightarrow> int prog" where
  "clt_tunnel_auth_handle tunnel =
     bnd (load tunnels tunnel) (\<lambda>t.
     let p = priv_sock t; nreaded = read_count t; ulen = unat (ap_ulen (t_ap t)) in
     bnd (load socks p) (\<lambda>_.
     if nreaded = 0 then clt_auth_header tunnel p
     else if nreaded = nheader_auth then clt_auth_uname tunnel p
     else if nreaded = nheader_auth + ulen then clt_auth_plen tunnel p
     else if nreaded = nheader_auth + ulen + nplen then clt_auth_passwd tunnel p
     else halt AssertFail))"

definition clt_tunnel_notify_connected :: "ptr \<Rightarrow> int prog" where
  "clt_tunnel_notify_connected tunnel =
     bnd (clt_tunnel_write_client tunnel [0x05, 0x00, 0x00, 0x00]) (\<lambda>r.
     if r < 0 then ret (-1) else ret 0)"

section \<open>The answer to the request\<close>

text \<open>
  Reading an address of \<open>n\<close> bytes and the port, printing the address with \<open>%s\<close>, the new state, and
  after the \<open>switch\<close> the end of the function.
\<close>

definition clt_request_read_addr :: "ptr \<Rightarrow> ptr \<Rightarrow> nat \<Rightarrow> int prog" where
  "clt_request_read_addr tunnel p n =
     bnd (rb_read p n) (\<lambda>bs.
     bnd (tunnel_upd tunnel (\<lambda>t. t\<lparr>t_rp := (t_rp t)\<lparr>rp_addr := arr_copy (rp_addr (t_rp t)) 0 bs\<rparr>\<rparr>)) (\<lambda>_.
     bnd (rb_read p nport) (\<lambda>bs.
     bnd (tunnel_upd tunnel (\<lambda>t. t\<lparr>t_rp := (t_rp t)\<lparr>rp_port := arr_copy (rp_port (t_rp t)) 0 bs\<rparr>\<rparr>)) (\<lambda>_.
     bnd (load tunnels tunnel) (\<lambda>t.
     bnd (lift_res (strlen_at 255 (rp_addr (t_rp t)) 0)) (\<lambda>_.
     bnd (tunnel_upd tunnel (\<lambda>t. t\<lparr>t_state := connected_state\<rparr>)) (\<lambda>_.
     bnd (tunnel_upd tunnel (\<lambda>t. t\<lparr>read_count := 0\<rparr>)) (\<lambda>_. ret 0))))))))"

definition clt_request_domain :: "ptr \<Rightarrow> ptr \<Rightarrow> int prog" where
  "clt_request_domain tunnel p =
     bnd (load socks p) (\<lambda>_. \<comment> \<open>\<open>printf\<close> of \<open>tunnel->priv_sock->fd\<close>\<close>
     bnd (load tunnels tunnel) (\<lambda>t.
     bnd (rb_readable p) (\<lambda>n.
     if unat (rp_domainlen (t_rp t)) + nport \<le> n then
       clt_request_read_addr tunnel p (unat (rp_domainlen (t_rp t)))
     else ret 0)))"

definition clt_request_addr :: "ptr \<Rightarrow> ptr \<Rightarrow> int prog" where
  "clt_request_addr tunnel p =
     bnd (load socks p) (\<lambda>_. \<comment> \<open>\<open>printf\<close> of \<open>tunnel->priv_sock->fd\<close>\<close>
     bnd (load tunnels tunnel) (\<lambda>t.
     let atyp = rp_atyp (t_rp t) in
     if atyp = 0x01 then
       bnd (rb_readable p) (\<lambda>n.
       if NIPV4 + nport \<le> n then clt_request_read_addr tunnel p NIPV4 else ret 0)
     else if atyp = 0x04 then
       bnd (rb_readable p) (\<lambda>n.
       if NIPV6 + nport \<le> n then clt_request_read_addr tunnel p NIPV6 else ret 0)
     else if atyp = 0x03 then
       bnd (rb_readable p) (\<lambda>n.
       if ndomainlen \<le> n then
         bnd (rb_read1 p) (\<lambda>l.
         bnd (tunnel_upd tunnel (\<lambda>t. t\<lparr>t_rp := (t_rp t)\<lparr>rp_domainlen := l\<rparr>\<rparr>)) (\<lambda>_.
         bnd (tunnel_upd tunnel (\<lambda>t. t\<lparr>read_count := read_count t + ndomainlen\<rparr>)) (\<lambda>_.
         clt_request_domain tunnel p)))
       else ret 0)
     else ret (-1)))"

definition clt_request_header :: "ptr \<Rightarrow> ptr \<Rightarrow> int prog" where
  "clt_request_header tunnel p =
     bnd (rb_readable p) (\<lambda>n.
     if nheader_req \<le> n then
       bnd (rb_read1 p) (\<lambda>v.
       bnd (tunnel_upd tunnel (\<lambda>t. t\<lparr>t_rp := (t_rp t)\<lparr>rp_ver := v\<rparr>\<rparr>)) (\<lambda>_.
       if v \<noteq> 0x05 then ret (-1)
       else bnd (rb_read1 p) (\<lambda>c.
       bnd (tunnel_upd tunnel (\<lambda>t. t\<lparr>t_rp := (t_rp t)\<lparr>rp_cmd := c\<rparr>\<rparr>)) (\<lambda>_.
       if c \<noteq> 0x01 then ret (-1)
       else bnd (load socks p) (\<lambda>_. \<comment> \<open>\<open>printf\<close> of \<open>tunnel->priv_sock->fd\<close>\<close>
       bnd (rb_read1 p) (\<lambda>r.
       bnd (tunnel_upd tunnel (\<lambda>t. t\<lparr>t_rp := (t_rp t)\<lparr>rp_rsv := r\<rparr>\<rparr>)) (\<lambda>_.
       bnd (rb_read1 p) (\<lambda>a.
       bnd (tunnel_upd tunnel (\<lambda>t. t\<lparr>t_rp := (t_rp t)\<lparr>rp_atyp := a\<rparr>\<rparr>)) (\<lambda>_.
       bnd (tunnel_upd tunnel (\<lambda>t. t\<lparr>read_count := read_count t + nheader_req\<rparr>)) (\<lambda>_.
       clt_request_addr tunnel p))))))))))
     else ret 0)"

definition clt_tunnel_request_handle :: "ptr \<Rightarrow> int prog" where
  "clt_tunnel_request_handle tunnel =
     bnd (load tunnels tunnel) (\<lambda>t.
     let p = priv_sock t in
     bnd (load socks p) (\<lambda>_.
     if read_count t = 0 then clt_request_header tunnel p
     else if read_count t = nheader_req then clt_request_addr tunnel p
     else if read_count t = nheader_req + ndomainlen then clt_request_domain tunnel p
     else halt AssertFail))"

section \<open>Forwarding\<close>

definition clt_tunnel_connecting_handle :: "ptr \<Rightarrow> int prog" where
  "clt_tunnel_connecting_handle tunnel =
     bnd (load tunnels tunnel) (\<lambda>t.
     bnd (load socks (remote_sock t)) (\<lambda>s.
     bnd (gets (\<lambda>w. (fd_open w (s_fd s), so_error w (s_fd s)))) (\<lambda>(ok, err).
     if \<not> ok then bnd (modifies (errno_v_update (\<lambda>_. EBADF))) (\<lambda>_. ret (-1))
     else (case err of
       Some e \<Rightarrow> bnd (modifies (errno_v_update (\<lambda>_. e))) (\<lambda>_. ret (-1))
     | None \<Rightarrow>
         bnd (tunnel_upd tunnel (\<lambda>t. t\<lparr>t_state := connected_state\<rparr>)) (\<lambda>_.
         bnd (sock_upd (remote_sock t) (\<lambda>s. s\<lparr>s_state := sock_connected\<rparr>)) (\<lambda>_.
         clt_tunnel_notify_connected tunnel))))))"

definition clt_forward :: "ptr \<Rightarrow> ptr \<Rightarrow> int prog" where
  "clt_forward src dst =
     bnd (load socks src) (\<lambda>s.
     bnd (on_write_buff dst (\<lambda>b. buff_concat b (read_buff s))) (\<lambda>r.
     if r < 0 then ret (-1)
     else bnd (sock_upd src (\<lambda>s. s\<lparr>read_buff := buff_clear (read_buff s)\<rparr>)) (\<lambda>_.
     bnd (clt_epoll_modify dst True True) (\<lambda>_. ret 0))))"

text \<open>
  Lines 829 to 847: a tunnel without a remote connection takes a parked one, or opens one to the
  local service, whose address and port are \<open>g_locAddr\<close> and \<open>g_locPort\<close>.
\<close>

definition clt_get_remote :: "ptr \<Rightarrow> arr \<Rightarrow> arr \<Rightarrow> gai \<Rightarrow> int prog" where
  "clt_get_remote tunnel g_locAddr g_locPort gai =
     bnd clt_waitLinePairing (\<lambda>conn1.
     if conn1 \<noteq> None then
       bnd (conn_tunnel conn1) (\<lambda>t1.
       bnd (load socks (remote_sock t1)) (\<lambda>_. \<comment> \<open>\<open>printf\<close> of \<open>conn1->tunnel->remote_sock->fd\<close>\<close>
       bnd (conn_upd conn1 (\<lambda>t. t\<lparr>t_status := tmptun_is_free\<rparr>)) (\<lambda>_.
       bnd (tunnel_upd tunnel (\<lambda>t. t\<lparr>remote_sock := remote_sock t1\<rparr>)) (\<lambda>_.
       bnd (tunnel_upd tunnel (\<lambda>t. t\<lparr>t_status := tunn_is_run\<rparr>)) (\<lambda>_.
       bnd (conn_upd conn1 (\<lambda>t. t\<lparr>remote_sock := None\<rparr>)) (\<lambda>_. ret 0))))))
     else clt_tunnel_connect_to_remote tunnel g_locAddr g_locPort gai)"

definition clt_tunnel_connected_handle :: "ptr \<Rightarrow> int \<Rightarrow> arr \<Rightarrow> arr \<Rightarrow> gai \<Rightarrow> int prog" where
  "clt_tunnel_connected_handle tunnel isprivate g_locAddr g_locPort gai =
     bnd (load tunnels tunnel) (\<lambda>t.
     if isprivate \<noteq> 0 then
       bnd (if remote_sock t = None then clt_get_remote tunnel g_locAddr g_locPort gai else ret 0) (\<lambda>i.
       if i < 0 then ret (-1)
       else bnd (load tunnels tunnel) (\<lambda>t.
       bnd (load socks (priv_sock t)) (\<lambda>s.
       if 0 < buff_readable (read_buff s) then
         bnd (load socks (remote_sock t)) (\<lambda>_. \<comment> \<open>\<open>printf\<close> of \<open>tunnel->remote_sock->fd\<close>\<close>
         clt_forward (priv_sock t) (remote_sock t))
       else ret 0)))
     else
       if priv_sock t = None then ret (-1)
       else bnd (load socks (remote_sock t)) (\<lambda>s.
       if 0 < buff_readable (read_buff s) then
         bnd (load socks (priv_sock t)) (\<lambda>_. \<comment> \<open>\<open>printf\<close> of \<open>tunnel->priv_sock->fd\<close>\<close>
         clt_forward (remote_sock t) (priv_sock t))
       else ret 0))"

text \<open>The body of \<open>parsingHeader\<close> is a comment here, too.\<close>

definition clt_parsingHeader :: "ptr \<Rightarrow> unit prog" where
  "clt_parsingHeader sock = ret ()"

text \<open>\<open>int writable\<close> takes the number of readable bytes of the remote socket.\<close>

definition clt_tunnel_switch_handle :: "ptr \<Rightarrow> ptr \<Rightarrow> arr \<Rightarrow> arr \<Rightarrow> gai \<Rightarrow> unit prog" where
  "clt_tunnel_switch_handle sock tunnel g_locAddr g_locPort gai =
     bnd (load tunnels tunnel) (\<lambda>t.
     if sock \<noteq> priv_sock t then ret ()
     else if remote_sock t = None then ret ()
     else bnd (load socks (remote_sock t)) (\<lambda>rs.
     let writable = to_int (buff_readable (read_buff rs)) in
     if writable \<noteq> 0 then
       bnd (clt_tunnel_connected_handle tunnel 0 g_locAddr g_locPort gai) (\<lambda>_. ret ())
     else if t_status t = tunn_is_run then
       bnd (load socks sock) (\<lambda>s.
       bnd (clt_getWaitobjFrList (s_fd s)) (\<lambda>conn1.
       bnd (load tunnels tunnel) (\<lambda>t.
       bnd (conn_upd conn1 (\<lambda>t1. t1\<lparr>remote_sock := remote_sock t\<rparr>)) (\<lambda>_.
       bnd (load conns conn1) (\<lambda>c.
       bnd (conn_tunnel conn1) (\<lambda>t1.
       bnd (sock_upd (remote_sock t1) (\<lambda>s. s\<lparr>s_tunnel := c_tunnel c\<rparr>)) (\<lambda>_.
       bnd (conn_upd conn1 (\<lambda>t. t\<lparr>t_state := tunnel_waitting\<rparr>)) (\<lambda>_.
       bnd (conn_upd conn1 (\<lambda>t. t\<lparr>t_status := tmptun_is_alive\<rparr>)) (\<lambda>_.
       bnd (tunnel_upd tunnel (\<lambda>t. t\<lparr>t_status := tunn_is_idle\<rparr>)) (\<lambda>_.
       bnd (tunnel_upd tunnel (\<lambda>t. t\<lparr>remote_sock := None\<rparr>)) (\<lambda>_.
       bnd (clt_epoll_modify sock False True) (\<lambda>_.
       bnd (load tunnels tunnel) (\<lambda>t.
       bnd (load socks (priv_sock t)) (\<lambda>_. ret ())))))))))))))) \<comment> \<open>\<open>printf\<close> of \<open>tunnel->priv_sock->fd\<close>\<close>
     else ret ()))"

end
