(* ===== verification/ClientLoop.thy ===== *)
theory ClientLoop
  imports ClientProto Server
begin

text \<open>
  The \<open>epoll\<close> handlers of the mediator, its loop and its start.  The kernel's answers are
  arguments, as for the server; \<open>gai fd\<close> is what \<open>getaddrinfo\<close>, \<open>socket\<close> and \<open>connect\<close> answer when
  the handler of the event of \<open>fd\<close> opens a connection.
\<close>

section \<open>The \<open>epoll\<close> handlers\<close>

text \<open>The \<open>switch (tunnel->state)\<close>; the last branch prints the contents of the read buffer.\<close>

definition clt_tunnel_read_state :: "ptr \<Rightarrow> ptr \<Rightarrow> arr \<Rightarrow> arr \<Rightarrow> gai \<Rightarrow> unit prog" where
  "clt_tunnel_read_state sock tunnel g_locAddr g_locPort gai =
     bnd (load tunnels tunnel) (\<lambda>t.
     case t_state t of
       open_state \<Rightarrow> bnd (clt_tunnel_open_handle tunnel) (\<lambda>r. if r < 0 then clt_sock_force_shutdown sock else ret ())
     | auth_state \<Rightarrow> bnd (clt_tunnel_auth_handle tunnel) (\<lambda>r. if r < 0 then clt_sock_force_shutdown sock else ret ())
     | request_state \<Rightarrow> bnd (clt_tunnel_request_handle tunnel) (\<lambda>r. if r < 0 then clt_sock_force_shutdown sock else ret ())
     | connecting_state \<Rightarrow>
         bnd (load socks sock) (\<lambda>s.
         bnd (c_assert (ispriv s = 0)) (\<lambda>_.
         bnd (clt_tunnel_connecting_handle tunnel) (\<lambda>r. if r < 0 then clt_tunnel_shutdown tunnel else ret ())))
     | connected_state \<Rightarrow>
         bnd (load socks sock) (\<lambda>s.
         bnd (clt_tunnel_connected_handle tunnel (ispriv s) g_locAddr g_locPort gai) (\<lambda>_. ret ()))
     | tunnel_waitting \<Rightarrow>
         bnd (load socks sock) (\<lambda>_. ret ()))" \<comment> \<open>\<open>printf\<close>\<close>

definition clt_tunnel_read_handle :: "rd_result \<Rightarrow> int \<Rightarrow> ptr \<Rightarrow> arr \<Rightarrow> arr \<Rightarrow> gai \<Rightarrow> unit prog" where
  "clt_tunnel_read_handle kr fd sock g_locAddr g_locPort gai =
     bnd (load socks sock) (\<lambda>s.
     let tunnel = s_tunnel s in
     bnd (on_read_buff sock (buff_readfd kr)) (\<lambda>n.
     bnd (gets errno_v) (\<lambda>e.
     if n < 0 \<and> \<not> retry_errno e then clt_sock_shutdown sock
     else if n = 0 then clt_sock_shutdown sock
     else clt_tunnel_read_state sock tunnel g_locAddr g_locPort gai)))"

text \<open>The first statement of \<open>tunnel_write_handle\<close>; the result tells whether it jumps to \<open>force_shutdown\<close>.\<close>

definition clt_tunnel_write_out :: "wr_result \<Rightarrow> int \<Rightarrow> ptr \<Rightarrow> bool prog" where
  "clt_tunnel_write_out kw fd sock =
     bnd (load socks sock) (\<lambda>s.
     if 0 < buff_readable (write_buff s) then
       bnd (on_write_buff sock (\<lambda>b. bnd (buff_writefd kw b) (\<lambda>(n, out, b). ret ((n, out), b)))) (\<lambda>(n, out).
       bnd (modifies (\<lambda>w. w\<lparr>wire := (wire w)(fd := wire w fd @ out)\<rparr>)) (\<lambda>_.
       bnd (gets errno_v) (\<lambda>e.
       ret (n \<le> 0 \<and> \<not> retry_errno e))))
     else ret (s_state s = sock_halfclosed))"

definition clt_tunnel_write_handle :: "wr_result \<Rightarrow> int \<Rightarrow> ptr \<Rightarrow> arr \<Rightarrow> arr \<Rightarrow> gai \<Rightarrow> unit prog" where
  "clt_tunnel_write_handle kw fd sock g_locAddr g_locPort gai =
     bnd (load socks sock) (\<lambda>s.
     let tunnel = s_tunnel s in
     bnd (clt_tunnel_write_out kw fd sock) (\<lambda>force.
     if force then clt_sock_force_shutdown sock
     else bnd (load tunnels tunnel) (\<lambda>t.
     bnd (if t_state t = connecting_state then
            bnd (c_assert (ispriv s = 0)) (\<lambda>_. clt_tunnel_connecting_handle tunnel)
          else ret 0) (\<lambda>r.
     if r < 0 then clt_tunnel_shutdown tunnel
     else bnd (load socks sock) (\<lambda>s.
     bnd (clt_epoll_modify sock (0 < buff_readable (write_buff s)) True) (\<lambda>_.
     bnd (load tunnels tunnel) (\<lambda>t.
     if t_status t = tunn_is_run then clt_tunnel_switch_handle sock tunnel g_locAddr g_locPort gai
     else ret ())))))))"

section \<open>The loop\<close>

definition clt_event :: "arr \<Rightarrow> arr \<Rightarrow> (int \<Rightarrow> gai) \<Rightarrow> udata \<Rightarrow> kevent \<Rightarrow> unit prog" where
  "clt_event g_locAddr g_locPort gai ud e =
     bnd (cur_fd_of ud) (\<lambda>cur_fd.
     if ke_in e then
       bnd (as_sock ud) (\<lambda>sock. clt_tunnel_read_handle (ke_rd e) cur_fd sock g_locAddr g_locPort (gai (ke_fd e)))
     else if ke_out e then
       bnd (as_sock ud) (\<lambda>sock. clt_tunnel_write_handle (ke_wr e) cur_fd sock g_locAddr g_locPort (gai (ke_fd e)))
     else ret ())"

fun clt_events :: "arr \<Rightarrow> arr \<Rightarrow> (int \<Rightarrow> gai) \<Rightarrow> (udata \<times> kevent) list \<Rightarrow> unit prog" where
  "clt_events g_locAddr g_locPort gai [] = ret ()"
| "clt_events g_locAddr g_locPort gai ((ud, e) # es) =
     bnd (clt_event g_locAddr g_locPort gai ud e) (\<lambda>_. clt_events g_locAddr g_locPort gai es)"

text \<open>One turn of \<open>for (;;)\<close>; the result is \<open>-1\<close> where \<open>media_start\<close> returns.\<close>

definition clt_round :: "arr \<Rightarrow> arr \<Rightarrow> wait_result \<times> (int \<Rightarrow> gai) \<Rightarrow> int prog" where
  "clt_round g_locAddr g_locPort i = (case i of
       (WaitErr e, gai) \<Rightarrow>
         bnd (modifies (errno_v_update (\<lambda>_. e))) (\<lambda>_. if e \<noteq> EINTR then ret (-1) else ret 0)
     | (WaitEvents es, gai) \<Rightarrow>
         bnd (epoll_wait es) (\<lambda>evs.
         bnd (clt_events g_locAddr g_locPort gai evs) (\<lambda>_. ret 0)))"

fun media_start :: "arr \<Rightarrow> arr \<Rightarrow> (wait_result \<times> (int \<Rightarrow> gai)) list \<Rightarrow> int prog" where
  "media_start g_locAddr g_locPort [] = ret 0"
| "media_start g_locAddr g_locPort (i # is) =
     bnd (clt_round g_locAddr g_locPort i) (\<lambda>c. if c < 0 then ret (-1) else media_start g_locAddr g_locPort is)"

section \<open>The start\<close>

text \<open>
  The members \<open>mediafd\<close>, \<open>username\<close> and \<open>passwd\<close> of \<open>MEDIA\<close> are the fields \<open>SERVER_fd\<close>,
  \<open>mon_username\<close> and \<open>mon_passwd\<close> of the store.  \<open>tunnel->priv_sock\<close> is read whatever
  \<open>tunnel_create\<close> has returned.
\<close>

definition medSvr_init :: "arr \<Rightarrow> arr \<Rightarrow> gai \<Rightarrow> bool \<Rightarrow> arr \<Rightarrow> arr \<Rightarrow> int prog" where
  "medSvr_init host port gai epoll_ok username passwd =
     bnd (openConnSock host port gai) (\<lambda>(r, mediafd).
     if r < 0 then ret (-1)
     else if \<not> epoll_ok then ret (-1)
     else bnd (modifies (\<lambda>w. w\<lparr>SERVER_fd := the mediafd\<rparr>)) (\<lambda>_.
     bnd (clt_tunnel_create (the mediafd) 1) (\<lambda>tunnel.
     bnd (load tunnels tunnel) (\<lambda>t.
     bnd (if priv_sock t \<noteq> None then
            bnd (load socks (priv_sock t)) (\<lambda>_. \<comment> \<open>\<open>printf\<close> of \<open>tunnel->priv_sock->fd\<close>\<close>
            clt_tunnel_write_client tunnel [0x05, 0x01, 0x00])
          else ret 0) (\<lambda>r.
     if r < 0 then ret (-1)
     else bnd (gets (\<lambda>w. (mon_username w, mon_passwd w))) (\<lambda>(u, pw).
     bnd (lift_res (snprintf_s u username)) (\<lambda>u.
     bnd (modifies (\<lambda>w. w\<lparr>mon_username := u\<rparr>)) (\<lambda>_.
     bnd (lift_res (snprintf_s pw passwd)) (\<lambda>pw.
     bnd (modifies (\<lambda>w. w\<lparr>mon_passwd := pw\<rparr>)) (\<lambda>_. ret 0))))))))))"

end
