(* ===== verification/Mediator.thy ===== *)
theory Mediator
  imports Answers ClientLoop
begin

text \<open>
  What the mediator does: the functions it shares with the server are the same computations, its
  handshake asks for the one connection and takes the server's answer, and connecting tries the
  addresses in order and keeps no descriptor it does not use.
\<close>

section \<open>The copies\<close>

text \<open>
  \<open>clientdemo.c\<close> repeats functions of \<open>socks5.c\<close>.  Where the text is the same up to the names of the
  globals, so is the computation, and what holds of the server's function holds of the copy.
\<close>

lemma clt_registry:
  "clt_epoll_add = epoll_add" "clt_epoll_del = epoll_del" "clt_epoll_modify = epoll_modify"
  by (simp_all add: fun_eq_iff clt_epoll_add_def epoll_add_def clt_epoll_del_def epoll_del_def
      clt_epoll_modify_def epoll_modify_def)

lemma clt_socket:
  "clt_sock_create = sock_create" "clt_sock_nonblocking = sock_nonblocking" "clt_sock_keepalive = sock_keepalive"
  by (simp_all add: fun_eq_iff clt_sock_create_def sock_create_def clt_sock_nonblocking_def sock_nonblocking_def
      clt_sock_keepalive_def sock_keepalive_def cong: option.case_cong)

lemma clt_write:
  "clt_tunnel_write_client = tunnel_write_client" "clt_tunnel_write_out = tunnel_write_out" "clt_forward = forward"
  by (simp_all add: fun_eq_iff clt_tunnel_write_client_def tunnel_write_client_def clt_registry
      clt_tunnel_write_out_def tunnel_write_out_def clt_forward_def forward_def cong: if_cong)

lemma clt_auth: "clt_tunnel_auth_handle = tunnel_auth_handle"
  by (simp add: fun_eq_iff clt_tunnel_auth_handle_def tunnel_auth_handle_def clt_auth_header_def auth_header_def
      clt_auth_uname_def auth_uname_def clt_auth_plen_def auth_plen_def clt_auth_passwd_def auth_passwd_def
      clt_write cong: if_cong)

lemma clt_pools:
  "clt_waitCompare = waitCompare" "clt_appCompare = appCompare" "clt_waitCompare2 = waitCompare2"
  "clt_getWaitobj_new = getWaitobjFrList_new" "clt_getTarget_new = getTargetFrList_new"
  by (simp_all add: fun_eq_iff clt_waitCompare_def waitCompare_def clt_appCompare_def appCompare_def
      clt_waitCompare2_def waitCompare2_def clt_getWaitobj_new_def getWaitobjFrList_new_def
      clt_getTarget_new_def getTargetFrList_new_def)

lemma clt_getWaitobj: "clt_getWaitobjFrList = getWaitobjFrList"
  by (simp add: fun_eq_iff clt_getWaitobjFrList_def getWaitobjFrList_def clt_pools cong: if_cong)

section \<open>Handshake\<close>

text \<open>The request of the mediator, and the server's answer seen as a request.\<close>

definition mediator_request :: "byte list" where
  "mediator_request = enc_request (Domain (bytes_of ''www.hellofz.org'')) [0x1F, 0x9A]"
lemma connect_reply_request:
  "connect_reply = enc_request (Domain (bytes_of ''www.hellorsp.org'')) [0x1F, 0x90]"
  by (simp add: connect_reply_def enc_request_def bytes_of_def)

lemma ses_clt_request:
  assumes ses: "session w0 p t bs out T w" and p: "priv_sock T = Some p" and room: "roomy w0 out"
    and go: "\<And>w'. session w0 p t bs (out @ mediator_request) T w' \<Longrightarrow> Q 0 w'"
  shows "wpe E (clt_tunnel_write_request (Some t)) Q w"
proof -
  let ?a = "[0x05, 0x01, 0x00, 0x03, 0x0F] @ bytes_of ''www.hellofz.org''" and ?b = "[0x1F, 0x9A] :: byte list"
  have msg: "clt_tunnel_write_request (Some t) =
     bnd (tunnel_write_client (Some t) ?a) (\<lambda>r. if r < 0 then ret (-1)
     else bnd (tunnel_write_client (Some t) ?b) (\<lambda>r. if r < 0 then ret (-1)
     else bnd (load tunnels (Some t)) (\<lambda>t. bnd (load socks (priv_sock t)) (\<lambda>_. ret 0))))"
    by (simp add: clt_tunnel_write_request_def Let_def bytes_of_def clt_write cong: if_cong)
  have a: "mediator_request = ?a @ ?b"
    by (simp add: mediator_request_def enc_request_def bytes_of_def)
  show ?thesis unfolding msg
    apply (rule wpe_bndI)
    apply (rule ses_write [OF ses p])
     apply (rule wp_steps)+
      apply simp
     apply (rule wp_steps)+
     apply (rule ses_write, assumption, rule p)
      apply (rule wp_steps, simp)
      apply (rule wp_steps | (rule ses_load, assumption))+
      apply (simp only: p)
      apply (rule ses_load_sock, assumption)
      apply (rule wp_steps, rule go)
      apply (simp add: a)
    using room by (auto simp: roomy_def bytes_of_def)
qed

lemma ses_epoll:
  assumes ses: "session w0 p t bs out T w" and go: "\<And>r w'. session w0 p t bs out T w' \<Longrightarrow> Q r w'"
  shows "wpe E (clt_epoll_modify (Some p) True True) Q w"
proof -
  from session_live [OF ses] obtain s where s: "socks w p = Some s" by metis
  with go [OF session_set_epoll [OF ses s]] go [OF session_errno [OF ses]] show ?thesis
    by (simp add: clt_epoll_modify_def wp)
qed

text \<open>The end of \<open>tunnel_open_handle\<close>, from the request on.\<close>

lemma ses_clt_open_rest:
  assumes ses: "session w0 p t bs out T w" and p: "priv_sock T = Some p" and room: "roomy w0 out"
    and go: "\<And>w'. session w0 p t bs (out @ mediator_request) (T\<lparr>t_state := request_state, read_count := 0\<rparr>) w' \<Longrightarrow> Q 0 w'"
  shows "wpe E (clt_tunnel_write_request (Some t)) (\<lambda>_. wpe E
      (bnd (tunnel_upd (Some t) (\<lambda>t. t\<lparr>t_state := request_state\<rparr>)) (\<lambda>_.
       bnd (load tunnels (Some t)) (\<lambda>t'.
       bnd (clt_epoll_modify (priv_sock t') True True) (\<lambda>_.
       bnd (tunnel_upd (Some t) (\<lambda>t. t\<lparr>read_count := 0\<rparr>)) (\<lambda>_. ret 0))))) Q) w"
  apply (rule ses_clt_request [OF ses p room])
  apply (rule wp_steps | (rule ses_steps, assumption))+
  apply (simp add: p)
  apply (rule ses_epoll, assumption)
  apply (rule wp_steps | (rule ses_steps, assumption))+
  apply (rule go)
  apply simp
  done

text \<open>
  C19: on the server's answer to the greeting the mediator sends its one request, and waits for
  the answer.  Of the two bytes only the version counts: whatever method \<open>m\<close> the server has
  chosen, user name and password are not sent.
\<close>

theorem mediator_asks:
  assumes ses: "session w0 p t (0x05 # m # rest) out T w"
    and T: "priv_sock T = Some p" "read_count T = 0" and room: "roomy w0 out"
  shows "\<exists>w' T'. clt_tunnel_open_handle (Some t) w = Inr (0, w') \<and>
     session w0 p t rest (out @ mediator_request) T' w' \<and>
     t_state T' = request_state \<and> read_count T' = 0 \<and> priv_sock T' = Some p \<and> t_ap T' = t_ap T"
    (is "\<exists>w' T'. _ \<and> ?post T' w'")
proof -
  have "wpe {} (clt_tunnel_open_handle (Some t)) (\<lambda>r w'. r = 0 \<and> (\<exists>T'. ?post T' w')) w"
    unfolding clt_tunnel_open_handle_def Let_def
    apply (rule wpe_bndI ses_load [OF ses])+
    apply (simp only: T(1), rule ses_load_sock [OF ses])
    apply (rule wpe_ifI, simp add: T(2))
    apply (rule wpe_bndI ses_readable [OF ses] wpe_ifI)+
     apply (rule ses_read1 [OF ses], simp)
     apply (rule wp_steps | (rule ses_steps, assumption))+
      apply simp
     apply (rule wp_steps | (rule ses_steps, assumption) | (rule ses_read1, assumption, simp))+
     apply (rule ses_clt_open_rest, assumption, simp add: T(1), rule room)
     apply (intro conjI refl exI, simp)
         apply (simp_all add: T nheader_open_def)
    done
  from wpe_total [OF this] show ?thesis by blast
qed

lemma mediator_asks_witness:
  "\<exists>w' T'. clt_tunnel_open_handle (Some 0) (talk demo_start [5, 2, 9] client_tunnel) = Inr (0, w') \<and>
     session (talk demo_start [5, 2, 9] client_tunnel) 2 0 [9] mediator_request T' w' \<and>
     t_state T' = request_state \<and> t_ap T' = t_ap client_tunnel"
  using mediator_asks [OF talk_session [of "[5, 2, 9]" demo_start client_tunnel]] by simp blast

text \<open>The tunnel when the answer has been read.\<close>

definition accepted :: "dest \<Rightarrow> byte list \<Rightarrow> tunnel \<Rightarrow> tunnel" where
  "accepted d port T = (with_addr (dest_bytes d) port (asked d T))\<lparr>t_state := connected_state, read_count := 0\<rparr>"

lemma accepted_simps [simp]:
  "priv_sock (accepted d port T) = priv_sock T" "remote_sock (accepted d port T) = remote_sock T"
  "t_state (accepted d port T) = connected_state" "t_status (accepted d port T) = t_status T"
  "read_count (accepted d port T) = 0"
  by (cases d; simp add: accepted_def with_addr_def with_req_def with_dlen_def)+

lemma ses_clt_read_addr:
  assumes ses: "session w0 p t (dest_bytes d @ port @ rest) out (asked d T) w" and d: "dest_ok d" "length port = 2"
    and T: "addr_closed T" and n: "n = length (dest_bytes d)"
    and go: "\<And>w'. session w0 p t rest out (accepted d port T) w' \<Longrightarrow> Q 0 w'"
  shows "wpe E (clt_request_read_addr (Some t) (Some p) n) Q w"
proof -
  have len: "length (dest_bytes d) \<le> 254" using d by (cases d) auto
  obtain k where k: "strlen_at 255 (arr_copy (rp_addr (t_rp T)) 0 (dest_bytes d)) 0 = Inr k"
    using addr_closed_strlen [OF T len] by (cases "strlen_at 255 (arr_copy (rp_addr (t_rp T)) 0 (dest_bytes d)) 0") blast+
  show ?thesis
    unfolding clt_request_read_addr_def
    apply (rule wpe_bndI)
    apply (rule ses_read [OF ses], simp add: n)
    apply (rule wpe_bndI ses_upd | assumption)+
    apply (rule ses_read, assumption, simp add: n d nport_def)
    apply (rule wpe_bndI | (rule ses_steps, assumption))+
    apply (simp add: wpe_lift_res n k)
    apply (rule wp_steps | (rule ses_steps, assumption))+
    apply (rule go)
    apply (simp add: accepted_def with_addr_def d nport_def)
    done
qed

lemma ses_clt_request_domain:
  assumes ses: "session w0 p t (dest_bytes d @ port @ rest) out (asked d T) w" and d: "dest_ok d" "length port = 2"
    and T: "addr_closed T" and dom: "d = Domain x"
    and go: "\<And>w'. session w0 p t rest out (accepted d port T) w' \<Longrightarrow> Q 0 w'"
  shows "wpe E (clt_request_domain (Some t) (Some p)) Q w"
proof -
  have l: "unat (rp_domainlen (t_rp (asked d T))) = length (dest_bytes d)" using dom d by (simp add: with_dlen_def)
  show ?thesis
    unfolding clt_request_domain_def
    apply (rule wpe_bndI ses_load [OF ses] ses_load_sock [OF ses] ses_readable [OF ses] wpe_ifI)+
     apply (rule ses_clt_read_addr [OF ses d T l], erule go)
    using d by (simp add: l nport_def)
qed

lemma ses_clt_request_addr:
  assumes ses: "session w0 p t (tl (enc_dest d) @ port @ rest) out (with_req 0 (hd (enc_dest d)) T) w"
    and d: "dest_ok d" "length port = 2" and T: "addr_closed T"
    and go: "\<And>w'. session w0 p t rest out (accepted d port T) w' \<Longrightarrow> Q 0 w'"
  shows "wpe E (clt_request_addr (Some t) (Some p)) Q w"
proof -
  have fixed: "wpe E (bnd (rb_readable (Some p)) (\<lambda>m. if n + nport \<le> m
       then clt_request_read_addr (Some t) (Some p) n else ret 0)) Q w"
    if s: "session w0 p t (dest_bytes d @ port @ rest) out (asked d T) w" and n: "n = length (dest_bytes d)" for n
    apply (rule wpe_bndI ses_readable [OF s] wpe_ifI)+
     apply (rule ses_clt_read_addr [OF s d T n], erule go)
    using d by (simp add: n nport_def)
  have dom: "wpe E (bnd (rb_readable (Some p)) (\<lambda>n. if ndomainlen \<le> n then
       bnd (rb_read1 (Some p)) (\<lambda>l.
       bnd (tunnel_upd (Some t) (\<lambda>t. t\<lparr>t_rp := (t_rp t)\<lparr>rp_domainlen := l\<rparr>\<rparr>)) (\<lambda>_.
       bnd (tunnel_upd (Some t) (\<lambda>t. t\<lparr>read_count := read_count t + ndomainlen\<rparr>)) (\<lambda>_.
       clt_request_domain (Some t) (Some p)))) else ret 0)) Q w" if x: "d = Domain x" for x
    apply (rule wpe_bndI ses_readable [OF ses] wpe_ifI)+
     apply (rule ses_read1 [OF ses])
      apply (simp add: x)
     apply (rule wp_steps | (rule ses_steps, assumption))+
     apply (rule ses_clt_request_domain [of w0 p t d port rest out T, OF _ d T x])
      apply (simp add: x with_dlen_def)
     apply (erule go)
    by (simp add: x ndomainlen_def)
  show ?thesis
    unfolding clt_request_addr_def Let_def
    apply (rule wpe_bndI ses_load [OF ses] ses_load_sock [OF ses])+
    using fixed [of NIPV4] fixed [of NIPV6] dom d ses by (cases d; simp add: NIPV4_def NIPV6_def)
qed

lemma ses_clt_request_header:
  assumes ses: "session w0 p t (enc_request d port @ rest) out T w"
    and d: "dest_ok d" "length port = 2" and T: "addr_closed T"
    and go: "\<And>w'. session w0 p t rest out (accepted d port T) w' \<Longrightarrow> Q 0 w'"
  shows "wpe E (clt_request_header (Some t) (Some p)) Q w"
proof -
  obtain a as where a: "enc_dest d = a # as" by (cases d) auto
  have s: "session w0 p t (5 # 1 # 0 # a # as @ port @ rest) out T w" using ses a by (simp add: enc_request_def)
  show ?thesis
    unfolding clt_request_header_def
    apply (rule wpe_bndI ses_readable [OF s] wpe_ifI)+
     apply (rule ses_read1 [OF s], simp)
     apply (rule wp_steps | (rule ses_steps, assumption) | (rule ses_read1, assumption, simp))+
       apply simp
      apply (rule wp_steps | (rule ses_steps, assumption) | (rule ses_read1, assumption, simp))+
       apply simp
      apply (rule wp_steps | (rule ses_steps, assumption) | (rule ses_read1, assumption, simp))+
     apply (rule ses_clt_request_addr [of w0 p t d port rest out T, OF _ d T])
      apply (simp add: a with_req_def)
     apply (erule go)
    by (simp add: nheader_req_def)
qed
text \<open>
  C20: the server answers a request in the form of a request, and the mediator reads it as one: the
  whole of it is taken from the buffer, nothing is sent, the address and the port are kept, and the
  tunnel is connected.  What follows the answer is the first data of the connection.
\<close>

theorem mediator_accepts:
  assumes ses: "session w0 p t (enc_request d port @ rest) out T w" and d: "dest_ok d" "length port = 2"
    and T: "priv_sock T = Some p" "read_count T = 0" "addr_closed T"
  shows "\<exists>w' T'. clt_tunnel_request_handle (Some t) w = Inr (0, w') \<and> session w0 p t rest out T' w' \<and>
     t_state T' = connected_state \<and> t_status T' = t_status T \<and> read_count T' = 0 \<and>
     priv_sock T' = Some p \<and> remote_sock T' = remote_sock T \<and>
     map (rp_addr (t_rp T')) [0..<length (dest_bytes d)] = dest_bytes d \<and>
     map (rp_port (t_rp T')) [0..<2] = port" (is "\<exists>w' T'. _ \<and> ?post T' w'")
proof -
  have arr: "map (arr_copy a 0 xs) [0..<n] = xs" if "length xs = n" for a xs n
    by (rule nth_equalityI) (use that in \<open>simp_all add: arr_copy_def\<close>)
  have "?post (accepted d port T) w'" if "session w0 p t rest out (accepted d port T) w'" for w'
    using that T d by (simp add: arr accepted_def with_addr_def)
      (cases d; simp add: with_req_def with_dlen_def)
  then have "wpe {} (clt_request_header (Some t) (Some p)) (\<lambda>r w'. r = 0 \<and> (\<exists>T'. ?post T' w')) w"
    by (intro ses_clt_request_header [OF ses d T(3)]) blast
  then have "wpe {} (clt_tunnel_request_handle (Some t)) (\<lambda>r w'. r = 0 \<and> (\<exists>T'. ?post T' w')) w"
    using T(1,2) unfolding clt_tunnel_request_handle_def Let_def
    by (intro wpe_bndI ses_load [OF ses]) (auto intro!: wpe_bndI ses_load_sock [OF ses])
  from wpe_total [OF this] show ?thesis by blast
qed

lemma mediator_accepts_witness:
  "\<exists>w' T'. clt_tunnel_request_handle (Some 0) (talk demo_start (connect_reply @ [9]) client_tunnel) = Inr (0, w') \<and>
     session (talk demo_start (connect_reply @ [9]) client_tunnel) 2 0 [9] [] T' w' \<and> t_state T' = connected_state"
proof -
  have s: "session (talk demo_start (connect_reply @ [9]) client_tunnel) 2 0
      (enc_request (Domain (bytes_of ''www.hellorsp.org'')) [0x1F, 0x90] @ [9]) [] client_tunnel
      (talk demo_start (connect_reply @ [9]) client_tunnel)"
    using talk_session [of "connect_reply @ [9]" demo_start client_tunnel]
    by (simp add: connect_reply_request [symmetric] length_connect_reply)
  from mediator_accepts [OF s] show ?thesis by (simp add: bytes_of_def) blast
qed

section \<open>Connecting\<close>

text \<open>
  An address at which a connection can be had: \<open>socket\<close> gives a descriptor, and \<open>connect\<close> succeeds or is
  under way.  The descriptors given to the attempts differ from the open ones.
\<close>

definition reachable :: "world \<Rightarrow> conn_try \<Rightarrow> bool" where
  "reachable w a \<longleftrightarrow> (\<exists>fd. ct_socket a = Inl fd \<and> 0 \<le> fd \<and> \<not> fd_open w fd) \<and>
     (ct_connect a = None \<or> ct_connect a = Some EINPROGRESS)"

text \<open>Two stores that differ in what the attempts leave: \<open>errno\<close>, and the options of closed descriptors.\<close>

definition tried :: "world \<Rightarrow> world \<Rightarrow> bool" where
  "tried w w' \<longleftrightarrow> fd_open w' = fd_open w \<and> (\<forall>fd. fd_open w fd \<longrightarrow> epoll w' fd = epoll w fd \<and>
     fd_nonblock w' fd = fd_nonblock w fd \<and> fd_keepalive w' fd = fd_keepalive w fd \<and> wire w' fd = wire w fd) \<and>
     w' = w\<lparr>errno_v := errno_v w', epoll := epoll w', fd_nonblock := fd_nonblock w',
            fd_keepalive := fd_keepalive w', wire := wire w'\<rparr>"

lemma tried_refl [simp]: "tried w w" "tried w (w\<lparr>errno_v := e\<rparr>)"
  by (simp_all add: tried_def)

lemma tried_trans: "tried w w1 \<Longrightarrow> tried w1 w2 \<Longrightarrow> tried w w2"
  by (cases w; cases w1; cases w2) (simp add: tried_def)

lemma reachable_simps:
  "ct_socket a = Inr e \<Longrightarrow> \<not> reachable w a"
  "ct_socket a = Inl fd \<Longrightarrow> reachable w a \<longleftrightarrow>
     0 \<le> fd \<and> \<not> fd_open w fd \<and> (ct_connect a = None \<or> ct_connect a = Some EINPROGRESS)"
  by (simp_all add: reachable_def)

lemma tried_open: "tried w w1 \<Longrightarrow> fd_open w1 = fd_open w"
  by (simp add: tried_def)

lemma tried_reachable: "tried w w1 \<Longrightarrow> reachable w1 = reachable w"
  by (simp add: fun_eq_iff reachable_def tried_def)

definition connected_to :: "world \<Rightarrow> conn_try option \<Rightarrow> int \<Rightarrow> world \<Rightarrow> bool" where
  "connected_to w a r w' = (case a of None \<Rightarrow> r = -1 \<and> tried w w'
     | Some a \<Rightarrow> ct_socket a = Inl r \<and> \<not> fd_open w r \<and> fd_open w' = (fd_open w)(r := True) \<and>
         fd_nonblock w' r \<and> fd_keepalive w' r \<and> epoll w' r = None \<and> wire w' r = [] \<and>
         tried w (w'\<lparr>fd_open := fd_open w\<rparr>))"

lemma connected_to_tried: "tried w w1 \<Longrightarrow> connected_to w1 a r w' \<Longrightarrow> connected_to w a r w'"
  using tried_trans [of w w1] tried_open [of w w1]
  by (cases a) (auto simp: connected_to_def)

lemma connect_loop_run: "wpe {} (clt_connect_loop as) (connected_to w (find (reachable w) as)) w"
proof (induction as arbitrary: w)
  case Nil
  then show ?case by (simp add: wpe_ret connected_to_def)
next
  case (Cons a as)
  have go: "wpe {} (clt_connect_loop as) (connected_to w (find (reachable w) (a # as))) w1"
    if "tried w w1" "\<not> reachable w a" for w1
    using wpe_conseq [OF Cons.IH [of w1] connected_to_tried [OF that(1)]] that tried_reachable [OF that(1)] by simp
  show ?case
  proof (cases "ct_socket a")
    case (Inr e)
    then show ?thesis using go by (simp add: wp reachable_simps)
  next
    case (Inl fd)
    show ?thesis
    proof (cases "fd < 0 \<or> fd_open w fd")
      case True
      then show ?thesis using go Inl by (auto simp: wp reachable_simps)
    next
      case False
      let ?w = "w\<lparr>fd_open := (fd_open w)(fd := True), epoll := (epoll w)(fd := None),
        wire := (wire w)(fd := []), fd_nonblock := (fd_nonblock w)(fd := True), fd_keepalive := (fd_keepalive w)(fd := True)\<rparr>"
      let ?rest = "bnd (sys_connect (ct_connect a)) (\<lambda>status. bnd (gets errno_v) (\<lambda>e.
         if status \<noteq> 0 \<and> e \<noteq> EINPROGRESS then bnd (sys_close fd) (\<lambda>_. clt_connect_loop as) else ret fd))"
      have up: "wpe {} (clt_connect_loop (a # as)) Q w = wpe {} ?rest Q ?w" for Q
        using False Inl by (simp add: wp clt_sock_nonblocking_def clt_sock_keepalive_def)
      have closed: "wpe {} (bnd (sys_close fd) (\<lambda>_. clt_connect_loop as)) (connected_to w (find (reachable w) (a # as))) (?w\<lparr>errno_v := e\<rparr>)"
        if "\<not> reachable w a" for e
      proof -
        have "tried w (?w\<lparr>errno_v := e, fd_open := (fd_open ?w)(fd := False), epoll := (epoll ?w)(fd := None)\<rparr>)"
          using False by (auto simp: tried_def fun_eq_iff)
        from go [OF this that] show ?thesis by (simp add: wp)
      qed
      have connected: "connected_to w (find (reachable w) (a # as)) fd (?w\<lparr>errno_v := e\<rparr>)" if "reachable w a" for e
        using that Inl False by (auto simp: connected_to_def tried_def fun_eq_iff)
      show ?thesis unfolding up
        using closed connected connected [of "errno_v w"] False Inl
        by (cases "ct_connect a") (auto simp: sys_connect_def wp reachable_simps)
    qed
  qed
qed
text \<open>
  C7: connecting ends for every list of addresses, without a fault; it takes the first address that can be
  reached, and its descriptor is open, non-blocking and watched with keep-alive; if there is none the result is \<open>-1\<close>.
  In both cases no other descriptor stays open, and none that was open before is touched.
\<close>

theorem mediator_connects:
  "\<exists>r w'. clt_connect_loop as w = Inr (r, w') \<and> connected_to w (find (reachable w) as) r w'"
  using wpe_total [OF connect_loop_run] .

end
