(* ===== verification/Relay.thy ===== *)
theory Relay
  imports Runs
begin

text \<open>
  What happens to the bytes of a connected tunnel: they move from the read buffer of one socket
  to the write buffer of the other, and from there to the wire, in order and without loss.
\<close>

section \<open>The two ends of a tunnel\<close>

definition in_of :: "world \<Rightarrow> addr \<Rightarrow> byte list" where
  "in_of w a = contents (read_buff (the (socks w a)))"

definition out_of :: "world \<Rightarrow> addr \<Rightarrow> byte list" where
  "out_of w a = contents (write_buff (the (socks w a)))"

definition live_sock :: "world \<Rightarrow> addr \<Rightarrow> bool" where
  "live_sock w a \<longleftrightarrow> (\<exists>s. socks w a = Some s \<and> wf_buff (read_buff s) \<and> wf_buff (write_buff s))"

text \<open>\<open>a\<close> is an end of the tunnel \<open>t\<close>, on the side it says it is, and \<open>b\<close> is the other end.\<close>

definition joined :: "world \<Rightarrow> addr \<Rightarrow> addr \<Rightarrow> addr \<Rightarrow> bool" where
  "joined w t a b \<longleftrightarrow> a \<noteq> b \<and> live_sock w a \<and> live_sock w b \<and> (\<exists>T. tunnels w t = Some T \<and>
     (if ispriv (the (socks w a)) \<noteq> 0 then priv_sock T = Some a \<and> remote_sock T = Some b
      else remote_sock T = Some a \<and> priv_sock T = Some b))"

lemma live_sockE:
  assumes "live_sock w a"
  obtains s where "socks w a = Some s" "wf_buff (read_buff s)" "wf_buff (write_buff s)"
    "in_of w a = contents (read_buff s)" "out_of w a = contents (write_buff s)"
  using assms by (auto simp: live_sock_def in_of_def out_of_def)

text \<open>What a step may do: change the buffers of \<open>a\<close> and \<open>b\<close>, and what the loop is asked to watch.\<close>

definition touches :: "addr set \<Rightarrow> world \<Rightarrow> world \<Rightarrow> bool" where
  "touches A w w' \<longleftrightarrow> tunnels w' = tunnels w \<and> (\<forall>c. c \<notin> A \<longrightarrow> socks w' c = socks w c) \<and>
     (\<forall>c \<in> A. live_sock w c \<longrightarrow> live_sock w' c \<and> ispriv (the (socks w' c)) = ispriv (the (socks w c)) \<and>
        s_fd (the (socks w' c)) = s_fd (the (socks w c)))"

lemma touches_joined: "touches {a, b} w w' \<Longrightarrow> joined w t a b \<Longrightarrow> joined w' t a b"
  by (simp add: touches_def joined_def)

lemma buffs_env_step:
  assumes "env_step w w'"
  shows "socks w' = socks w" "tunnels w' = tunnels w" "epoll w' = epoll w" "wire w' = wire w" "oom w' = oom w"
  by (subst assms [unfolded env_step_def], simp)+

lemma wpe_buff_write:
  "buff_write b xs w = Inr (x, w') \<Longrightarrow> wpe E (buff_write b xs) Q w = Q x w'"
  by (simp add: wpe_def)

lemma buff_writefd_run:
  assumes "wf_buff b"
  shows "\<exists>n out b' t. buff_writefd kw b s = Inr ((n, out, b'), t) \<and> env_step s t \<and> wf_buff b' \<and>
     contents b = out @ contents b' \<and> (\<forall>k. kw = WrOk k \<longrightarrow> length out = min k (length (contents b)))"
  using wpe_total [OF buff_writefd_spec [OF assms, of kw s]] by (cases kw) auto

section \<open>Moving\<close>

definition moved :: "addr \<Rightarrow> addr \<Rightarrow> world \<Rightarrow> int \<Rightarrow> world \<Rightarrow> bool" where
  "moved a b w r w' \<longleftrightarrow> touches {a, b} w w' \<and> wire w' = wire w \<and> in_of w' b = in_of w b \<and> out_of w' a = out_of w a \<and>
     (r = 0 \<and> in_of w' a = [] \<and> out_of w' b = out_of w b @ in_of w a \<or>
      r = -1 \<and> in_of w' a = in_of w a \<and> out_of w' b = out_of w b \<and>
        (2 ^ 30 < length (out_of w b) + length (in_of w a) \<or> (\<exists>k. oom w k)))"

lemma moved_update:
  assumes w: "socks w a = Some s" "socks w b = Some d" "a \<noteq> b"
    and wf: "wf_buff (read_buff s)" "wf_buff (write_buff s)" "wf_buff (read_buff d)" "wf_buff (write_buff d)"
    and w': "tunnels w' = tunnels w" "wire w' = wire w"
      "socks w' = (socks w)(b \<mapsto> d\<lparr>write_buff := y\<rparr>, a \<mapsto> s\<lparr>read_buff := x\<rparr>)" "wf_buff x" "wf_buff y"
    and r: "r = 0 \<and> contents x = [] \<and> contents y = contents (write_buff d) @ contents (read_buff s) \<or>
      r = -1 \<and> contents x = contents (read_buff s) \<and> contents y = contents (write_buff d) \<and>
        (2 ^ 30 < length (contents (write_buff d)) + length (contents (read_buff s)) \<or> (\<exists>k. oom w k))"
  shows "moved a b w r w'"
  using assms by (auto simp: moved_def touches_def live_sock_def in_of_def out_of_def)

lemma forward_run:
  assumes a: "live_sock w a" and b: "live_sock w b" and ne: "a \<noteq> b"
  shows "wpe {} (forward (Some a) (Some b)) (moved a b w) w"
proof -
  from a obtain s where s: "socks w a = Some s" "wf_buff (read_buff s)" "wf_buff (write_buff s)" by (rule live_sockE)
  from b obtain d where d: "socks w b = Some d" "wf_buff (read_buff d)" "wf_buff (write_buff d)" by (rule live_sockE)
  show ?thesis
  proof (cases rule: buff_write_run [OF d(3), of "contents (read_buff s)" w, case_names ok full])
    case (ok y w1)
    note e = buffs_env_step [OF ok(4)]
    let ?w2 = "w1\<lparr>socks := (socks w)(b \<mapsto> d\<lparr>write_buff := y\<rparr>, a \<mapsto> s\<lparr>read_buff := buff_clear (read_buff s)\<rparr>)\<rparr>"
    have "moved a b w 0 (?w2\<lparr>epoll := ep\<rparr>)" "moved a b w 0 (?w2\<lparr>errno_v := er\<rparr>)" for ep er
      by (rule moved_update [OF s(1) d(1) ne s(2,3) d(2,3), where x = "buff_clear (read_buff s)" and y = y];
          use e ok s in simp)+
    then show ?thesis
      using s d ne e ok(1)
      by (simp add: forward_def on_write_buff_def buff_concat_eq wp wpe_buff_write [OF ok(1)] epoll_modify_def)
  next
    case (full y w1)
    note e = buffs_env_step [OF full(4)]
    have "moved a b w (-1) (w1\<lparr>socks := (socks w)(b \<mapsto> d\<lparr>write_buff := y\<rparr>)\<rparr>)"
      by (rule moved_update [OF s(1) d(1) ne s(2,3) d(2,3), where x = "read_buff s" and y = y])
         (use e full s ne in \<open>auto simp: fun_eq_iff\<close>)
    then show ?thesis
      using s d ne e full(1)
      by (simp add: forward_def on_write_buff_def buff_concat_eq wp wpe_buff_write [OF full(1)])
  qed
qed

lemma connected_run:
  assumes j: "joined w t a b" and bs: "in_of w a \<noteq> []"
  shows "wpe {} (tunnel_connected_handle (Some t) (Some a)) (moved a b w) w"
proof -
  from j obtain T where ab: "a \<noteq> b" "live_sock w a" "live_sock w b" and T: "tunnels w t = Some T"
    "if ispriv (the (socks w a)) \<noteq> 0 then priv_sock T = Some a \<and> remote_sock T = Some b
     else remote_sock T = Some a \<and> priv_sock T = Some b" unfolding joined_def by blast
  from ab(2) obtain s where s: "socks w a = Some s" "wf_buff (read_buff s)" "in_of w a = contents (read_buff s)"
    by (rule live_sockE)
  from ab(3) obtain d where d: "socks w b = Some d" by (rule live_sockE)
  have "0 < buff_readable (read_buff s)" using bs s by (simp add: buff_readable_wf)
  with forward_run [OF ab(2,3,1)] T s d show ?thesis
    by (auto simp: tunnel_connected_handle_def parsingHeader_def wp split: if_splits)
qed

text \<open>One write of the kernel: what it takes leaves the buffer and is on the wire, nothing else.\<close>

lemma write_out_run:
  assumes "live_sock w b"
  shows "wpe {} (tunnel_write_out kw fd (Some b)) (\<lambda>force w'. touches {b} w w' \<and> in_of w' b = in_of w b \<and>
     wire w' fd @ out_of w' b = wire w fd @ out_of w b \<and> (\<forall>g. g \<noteq> fd \<longrightarrow> wire w' g = wire w g) \<and>
     (\<forall>k. kw = WrOk k \<longrightarrow> length (out_of w' b) = length (out_of w b) - k)) w"
proof -
  from assms obtain s where s: "socks w b = Some s" "wf_buff (read_buff s)" "wf_buff (write_buff s)"
    "in_of w b = contents (read_buff s)" "out_of w b = contents (write_buff s)" by (rule live_sockE)
  show ?thesis
  proof (cases "contents (write_buff s) = []")
    case True
    with s show ?thesis
      by (auto simp: tunnel_write_out_def wp buff_readable_wf touches_def live_sock_def)
  next
    case False
    from buff_writefd_run [OF s(3), of kw w] obtain n out y w1
      where run: "buff_writefd kw (write_buff s) w = Inr ((n, out, y), w1)" and e: "env_step w w1" and y: "wf_buff y"
        "contents (write_buff s) = out @ contents y"
        "\<forall>k. kw = WrOk k \<longrightarrow> length out = min k (length (contents (write_buff s)))"
      by blast
    note e = buffs_env_step [OF e]
    let ?w = "w1\<lparr>socks := (socks w)(b \<mapsto> s\<lparr>write_buff := y\<rparr>), wire := (wire w)(fd := wire w fd @ out)\<rparr>"
    have "touches {b} w ?w \<and> in_of ?w b = in_of w b \<and> wire ?w fd @ out_of ?w b = wire w fd @ out_of w b \<and>
       (\<forall>g. g \<noteq> fd \<longrightarrow> wire ?w g = wire w g) \<and> (\<forall>k. kw = WrOk k \<longrightarrow> length (out_of ?w b) = length (out_of w b) - k)"
      using e y s by (auto simp: touches_def live_sock_def in_of_def out_of_def)
    moreover have "tunnel_write_out kw fd (Some b) w = Inr (n \<le> 0 \<and> \<not> retry_errno (errno_v w1), ?w)"
      using s e False
      by (simp add: tunnel_write_out_def on_write_buff_def buff_readable_wf sock_upd_def load_def bnd_def ret_def
          modifies_def gets_def run)
    ultimately show ?thesis by (simp add: wpe_def)
  qed
qed

section \<open>Properties\<close>

text \<open>
  C10: data on a connected tunnel goes to the other side: when one end has received bytes, the
  handler moves all of them behind what waits in the write buffer of the other end, and nothing else
  changes.  If they do not fit, or there is no memory, it fails and no byte is lost or moved.
\<close>

theorem relay_forwards:
  assumes "joined w t a b" and "in_of w a \<noteq> []"
  shows "\<exists>r w'. tunnel_connected_handle (Some t) (Some a) w = Inr (r, w') \<and> joined w' t a b \<and>
     in_of w' b = in_of w b \<and> out_of w' a = out_of w a \<and> wire w' = wire w \<and>
     (\<forall>c. c \<notin> {a, b} \<longrightarrow> socks w' c = socks w c) \<and>
     (if r = 0 then in_of w' a = [] \<and> out_of w' b = out_of w b @ in_of w a
      else r = -1 \<and> in_of w' a = in_of w a \<and> out_of w' b = out_of w b) \<and>
     (length (out_of w b) + length (in_of w a) \<le> 2 ^ 30 \<and> (\<forall>k. \<not> oom w k) \<longrightarrow> r = 0)"
proof -
  from wpe_total [OF connected_run [OF assms]] obtain r w'
    where "tunnel_connected_handle (Some t) (Some a) w = Inr (r, w')" and m: "moved a b w r w'" by blast
  moreover have "joined w' t a b" using touches_joined assms(1) m by (auto simp: moved_def)
  ultimately show ?thesis by (intro exI [of _ r] exI [of _ w']) (auto simp: moved_def touches_def)
qed

text \<open>A tunnel with the client at 2 and the remote side at 3.\<close>

definition pair_world :: "byte list \<Rightarrow> world" where
  "pair_world bs = demo_start\<lparr>
     socks := [2 \<mapsto> \<lparr>s_fd = 5, s_read_handle = tunnel_read_handle_p, s_write_handle = tunnel_write_handle_p,
       read_buff = \<lparr>data = arr_copy (\<lambda>_. 0) 0 bs, write_index = length bs, read_index = 0, cap = 1024\<rparr>,
       write_buff = \<lparr>data = (\<lambda>_. 0), write_index = 0, read_index = 0, cap = 1024\<rparr>,
       s_tunnel = Some 0, s_state = sock_connected, ispriv = 1, iskeepalive = 0\<rparr>,
     3 \<mapsto> \<lparr>s_fd = 6, s_read_handle = tunnel_read_handle_p, s_write_handle = tunnel_write_handle_p,
       read_buff = \<lparr>data = (\<lambda>_. 0), write_index = 0, read_index = 0, cap = 1024\<rparr>,
       write_buff = \<lparr>data = (\<lambda>_. 9), write_index = 1, read_index = 0, cap = 1024\<rparr>,
       s_tunnel = Some 0, s_state = sock_connected, ispriv = 0, iskeepalive = 0\<rparr>],
     tunnels := [0 \<mapsto> zero_tunnel\<lparr>priv_sock := Some 2, remote_sock := Some 3, t_state := connected_state, t_status := tunn_is_run\<rparr>]\<rparr>"

lemma pair_world_ok:
  "joined (pair_world [7, 8]) 0 2 3" "in_of (pair_world [7, 8]) 2 = [7, 8]" "out_of (pair_world [7, 8]) 3 = [9]"
  "wire (pair_world [7, 8]) 6 = []" "\<not> oom (pair_world [7, 8]) k"
  using cap_ok_INIT
  by (simp_all add: pair_world_def joined_def live_sock_def wf_buff_def in_of_def out_of_def contents_def
      arr_copy_def start_defs INIT_BUFF_CAP_def)

lemma relay_forwards_witness:
  "\<exists>w'. tunnel_connected_handle (Some 0) (Some 2) (pair_world [7, 8]) = Inr (0, w') \<and>
     in_of w' 2 = [] \<and> out_of w' 3 = [9, 7, 8]"
proof -
  have "in_of (pair_world [7, 8]) 2 \<noteq> []" by (simp add: pair_world_ok)
  from relay_forwards [OF pair_world_ok(1) this] show ?thesis by (auto simp: pair_world_ok)
qed

text \<open>
  C23: the statement of \<open>tunnel_write_handle\<close> that writes to the descriptor neither loses nor
  repeats a byte: what is on the wire, followed by what still waits, does not change, only the bytes
  the kernel does not take stay, and no other socket or descriptor is involved.
\<close>

theorem write_out_conserves:
  assumes "live_sock w b"
  shows "\<exists>force w'. tunnel_write_out kw fd (Some b) w = Inr (force, w') \<and>
     wire w' fd @ out_of w' b = wire w fd @ out_of w b \<and> in_of w' b = in_of w b \<and>
     (\<forall>g. g \<noteq> fd \<longrightarrow> wire w' g = wire w g) \<and> (\<forall>c. c \<noteq> b \<longrightarrow> socks w' c = socks w c) \<and>
     (\<forall>k. kw = WrOk k \<longrightarrow> length (out_of w' b) = length (out_of w b) - k)"
  using wpe_total [OF write_out_run [OF assms, of kw fd]] by (auto simp: touches_def)

lemma write_out_conserves_witness:
  "\<exists>force w'. tunnel_write_out (WrOk 100) 6 (Some 3) (pair_world [7, 8]) = Inr (force, w') \<and>
     wire w' 6 @ out_of w' 3 = [9] \<and> length (out_of w' 3) = 0"
proof -
  have "live_sock (pair_world [7, 8]) 3" using pair_world_ok(1) by (simp add: joined_def)
  from write_out_conserves [OF this, of "WrOk 100" 6] show ?thesis by (simp add: pair_world_ok) blast
qed

text \<open>
  C5: bytes arrive: after the handler has moved what one end received, a write on the other end that
  the kernel takes completely puts exactly the older waiting bytes and then the received ones on the
  wire, in this order.
\<close>

theorem relay_delivers:
  assumes j: "joined w t a b" and bs: "in_of w a \<noteq> []"
    and room: "length (out_of w b) + length (in_of w a) \<le> 2 ^ 30" and mem: "\<forall>k. \<not> oom w k"
    and k: "length (out_of w b) + length (in_of w a) \<le> k"
  shows "\<exists>w1 force w2. tunnel_connected_handle (Some t) (Some a) w = Inr (0, w1) \<and>
     tunnel_write_out (WrOk k) fd (Some b) w1 = Inr (force, w2) \<and>
     wire w2 fd = wire w fd @ out_of w b @ in_of w a \<and> out_of w2 b = []"
proof -
  from wpe_total [OF connected_run [OF j bs]] obtain r w1
    where w1: "tunnel_connected_handle (Some t) (Some a) w = Inr (r, w1)" and m: "moved a b w r w1" by blast
  with room mem have r: "r = 0" and out: "out_of w1 b = out_of w b @ in_of w a" "wire w1 = wire w"
    by (auto simp: moved_def)
  from m j have "live_sock w1 b" by (auto simp: moved_def touches_def joined_def)
  from wpe_total [OF write_out_run [OF this, of "WrOk k" fd]] obtain force w2
    where "tunnel_write_out (WrOk k) fd (Some b) w1 = Inr (force, w2)"
      "wire w2 fd @ out_of w2 b = wire w1 fd @ out_of w1 b" "length (out_of w2 b) = length (out_of w1 b) - k" by auto
  with w1 r out k show ?thesis by auto
qed

lemma relay_delivers_witness:
  "\<exists>w1 force w2. tunnel_connected_handle (Some 0) (Some 2) (pair_world [7, 8]) = Inr (0, w1) \<and>
     tunnel_write_out (WrOk 64) 6 (Some 3) w1 = Inr (force, w2) \<and> wire w2 6 = [9, 7, 8] \<and> out_of w2 3 = []"
proof -
  have "in_of (pair_world [7, 8]) 2 \<noteq> []" "length (out_of (pair_world [7, 8]) 3) + length (in_of (pair_world [7, 8]) 2) \<le> 64"
    by (simp_all add: pair_world_ok)
  from relay_delivers [OF pair_world_ok(1) this(1) _ _ this(2), of 6] show ?thesis by (simp add: pair_world_ok)
qed

end
