(* ===== verification/Opening.thy ===== *)
theory Opening
  imports Mediator Relay
begin

text \<open>
  How the mediator gets a connection to the local service when data arrives from the server and the
  tunnel has none: the parked ones are looked at first, then one is opened, and the data goes there.
\<close>

lemma tried_same:
  assumes "tried w (w1\<lparr>fd_open := fd_open w\<rparr>)"
  shows "socks w1 = socks w" "tunnels w1 = tunnels w" "next_addr w1 = next_addr w" "oom w1 = oom w" "links w1 = links w"
    "allocs w1 = allocs w" "procs_head2 w1 = procs_head2 w"
proof -
  have e: "w1\<lparr>fd_open := fd_open w\<rparr> = w\<lparr>errno_v := errno_v w1, epoll := epoll w1, fd_nonblock := fd_nonblock w1,
      fd_keepalive := fd_keepalive w1, wire := wire w1\<rparr>"
    using assms by (simp add: tried_def)
  show "socks w1 = socks w" using arg_cong [OF e, of socks] by simp
  show "tunnels w1 = tunnels w" using arg_cong [OF e, of tunnels] by simp
  show "next_addr w1 = next_addr w" using arg_cong [OF e, of next_addr] by simp
  show "oom w1 = oom w" using arg_cong [OF e, of oom] by simp
  show "links w1 = links w" using arg_cong [OF e, of links] by simp
  show "allocs w1 = allocs w" using arg_cong [OF e, of allocs] by simp
  show "procs_head2 w1 = procs_head2 w" using arg_cong [OF e, of procs_head2] by simp
qed

text \<open>A new connection on \<open>fd\<close>: the socket \<open>r\<close>, with empty buffers, is the remote one of the tunnel \<open>t\<close>.\<close>

definition new_remote :: "world \<Rightarrow> addr \<Rightarrow> tunnel \<Rightarrow> int \<Rightarrow> world \<Rightarrow> bool" where
  "new_remote w t T fd w' \<longleftrightarrow> (let r = next_addr w in
     tunnels w' = (tunnels w)(t \<mapsto> T\<lparr>remote_sock := Some r, t_status := tunn_is_run\<rparr>) \<and>
     (\<forall>a. a \<noteq> r \<longrightarrow> socks w' a = socks w a) \<and> live_sock w' r \<and> in_of w' r = [] \<and> out_of w' r = [] \<and>
     s_fd (the (socks w' r)) = fd \<and> s_tunnel (the (socks w' r)) = Some t \<and> ispriv (the (socks w' r)) = 0 \<and>
     \<not> fd_open w fd \<and> fd_open w' = (fd_open w)(fd := True) \<and> fd_nonblock w' fd \<and> fd_keepalive w' fd \<and>
     wire w' fd = [] \<and> oom w' = oom w \<and> epoll w' fd = Some \<lparr>ep_ptr = UdSock r, ep_out = False, ep_in = True\<rparr>)"

lemma connect_to_remote_run:
  assumes T: "tunnels w t = Some T" and mem: "\<forall>k. \<not> oom w k" and names: "\<exists>k < 128. host k = 0" "\<exists>k < 16. port k = 0"
    and a: "find (reachable w) as = Some a" "ct_socket a = Inl fd"
  shows "wpe {} (clt_tunnel_connect_to_remote (Some t) host port (Some as)) (\<lambda>r w'. r = 0 \<and> new_remote w t T fd w') w"
proof -
  have "\<exists>j. strlen_at 128 host 0 = Inr j" "\<exists>k. strlen_at 16 port 0 = Inr k"
    using names by (auto intro: strlen_at_total)
  then obtain j k where "strlen_at 128 host 0 = Inr j" "strlen_at 16 port 0 = Inr k" by blast
  moreover have "wpe {} (clt_connect_loop as) (\<lambda>newfd. wpe {} (if newfd < 0 then ret (-1)
      else bnd (clt_sock_create newfd sock_connecting 0 (Some t)) (\<lambda>sock.
         if sock = None then bnd (sys_close newfd) (\<lambda>_. ret (-1))
         else bnd (tunnel_upd (Some t) (\<lambda>t. t\<lparr>remote_sock := sock\<rparr>)) (\<lambda>_.
         bnd (tunnel_upd (Some t) (\<lambda>t. t\<lparr>t_status := tunn_is_run\<rparr>)) (\<lambda>_.
         bnd (clt_epoll_add sock) (\<lambda>_. ret 0))))) (\<lambda>r w'. r = 0 \<and> new_remote w t T fd w')) w"
  proof (rule wpe_conseq [OF connect_loop_run])
    fix newfd w1
    assume "connected_to w (find (reachable w) as) newfd w1"
    with a have c: "newfd = fd" "\<not> fd_open w fd" "fd_open w1 = (fd_open w)(fd := True)" "fd_nonblock w1 fd" "fd_keepalive w1 fd"
      "epoll w1 fd = None" "wire w1 fd = []" "tried w (w1\<lparr>fd_open := fd_open w\<rparr>)" by (simp_all add: connected_to_def)
    have fd: "\<not> fd < 0" using a find_Some_iff [of "reachable w" as a] by (auto simp: reachable_simps)
    note same = tried_same [OF c(8)]
    show "wpe {} (if newfd < 0 then ret (-1)
      else bnd (clt_sock_create newfd sock_connecting 0 (Some t)) (\<lambda>sock.
         if sock = None then bnd (sys_close newfd) (\<lambda>_. ret (-1))
         else bnd (tunnel_upd (Some t) (\<lambda>t. t\<lparr>remote_sock := sock\<rparr>)) (\<lambda>_.
         bnd (tunnel_upd (Some t) (\<lambda>t. t\<lparr>t_status := tunn_is_run\<rparr>)) (\<lambda>_.
         bnd (clt_epoll_add sock) (\<lambda>_. ret 0))))) (\<lambda>r w'. r = 0 \<and> new_remote w t T fd w') w1"
      using c same fd T mem cap_ok_INIT
      by (simp add: clt_sock_create_def clt_epoll_add_def buff_create_def wp wp_fun new_remote_def Let_def live_sock_def
          in_of_def out_of_def contents_def wf_buff_def INIT_BUFF_CAP_def fun_eq_iff)
  qed
  ultimately show ?thesis
    by (simp add: clt_tunnel_connect_to_remote_def wpe_bnd wpe_lift_res)
qed

text \<open>What \<open>forward\<close> asks the loop to watch.\<close>

lemma forward_watches:
  assumes a: "live_sock w a" and b: "live_sock w b" and ne: "a \<noteq> b" and ep: "epoll w (s_fd (the (socks w b))) \<noteq> None"
  shows "wpe {} (forward (Some a) (Some b)) (\<lambda>r w'. fd_open w' = fd_open w \<and> fd_nonblock w' = fd_nonblock w \<and>
     (r = 0 \<longrightarrow> epoll w' (s_fd (the (socks w b))) = Some \<lparr>ep_ptr = UdSock b, ep_out = True, ep_in = True\<rparr>)) w"
proof -
  from a obtain s where s: "socks w a = Some s" "wf_buff (read_buff s)" "wf_buff (write_buff s)" by (rule live_sockE)
  from b obtain d where d: "socks w b = Some d" "wf_buff (read_buff d)" "wf_buff (write_buff d)" by (rule live_sockE)
  have same: "fd_open w1 = fd_open w" "fd_nonblock w1 = fd_nonblock w" if "env_step w w1" for w1
    by (subst that [unfolded env_step_def], simp)+
  show ?thesis
  proof (cases rule: buff_write_run [OF d(3), of "contents (read_buff s)" w, case_names ok full])
    case (ok y w1)
    then show ?thesis
      using s d ne ep buffs_env_step [OF ok(4)] same [OF ok(4)]
      by (auto simp: forward_def on_write_buff_def buff_concat_eq wp wpe_buff_write [OF ok(1)] epoll_modify_def)
  next
    case (full y w1)
    then show ?thesis
      using s d ne buffs_env_step [OF full(4)] same [OF full(4)]
      by (simp add: forward_def on_write_buff_def buff_concat_eq wp wpe_buff_write [OF full(1)])
  qed
qed

text \<open>
  C8: the first data that arrives from the server for a tunnel without a connection to the local
  service opens one, when none is parked: to the first address that can be reached, as a
  non-blocking descriptor that the loop watches for reading and writing, with a socket that belongs to the
  tunnel; and all the data is in its write buffer.
\<close>

theorem mediator_opens:
  assumes T: "tunnels w t = Some T" "priv_sock T = Some p" "remote_sock T = None"
    and p: "live_sock w p" "in_of w p \<noteq> []" and fresh: "socks w (next_addr w) = None"
    and parked: "waitListEmpty w = Inr (True, w)" and mem: "\<forall>k. \<not> oom w k"
    and names: "\<exists>k < 128. host k = 0" "\<exists>k < 16. port k = 0"
    and a: "find (reachable w) as = Some a" "ct_socket a = Inl fd"
  shows "\<exists>w' r. clt_tunnel_connected_handle (Some t) 1 host port (Some as) w = Inr (0, w') \<and> r = next_addr w \<and>
     tunnels w' t = Some (T\<lparr>remote_sock := Some r, t_status := tunn_is_run\<rparr>) \<and>
     live_sock w' r \<and> s_fd (the (socks w' r)) = fd \<and> ispriv (the (socks w' r)) = 0 \<and>
     in_of w' p = [] \<and> out_of w' r = in_of w p \<and> \<not> fd_open w fd \<and> fd_open w' fd \<and> fd_nonblock w' fd \<and>
     epoll w' fd = Some \<lparr>ep_ptr = UdSock r, ep_out = True, ep_in = True\<rparr>" (is "\<exists>w' r. _ \<and> r = _ \<and> ?post w' r")
proof -
  let ?r = "next_addr w"
  from p(1) fresh have ne: "p \<noteq> ?r" by (auto simp: live_sock_def)
  have fwd: "wpe {} (forward (Some p) (Some ?r)) (\<lambda>c w'. c = 0 \<and> ?post w' ?r) w1"
    and heap: "tunnels w1 t = Some (T\<lparr>remote_sock := Some ?r, t_status := tunn_is_run\<rparr>)"
      "socks w1 p = Some (the (socks w p))" "\<exists>d. socks w1 ?r = Some d"
    if w1: "new_remote w t T fd w1" for w1
  proof -
    from w1 ne have s: "socks w1 p = socks w p" and r: "live_sock w1 ?r" "out_of w1 ?r = []" "in_of w1 ?r = []"
      "tunnels w1 t = Some (T\<lparr>remote_sock := Some ?r, t_status := tunn_is_run\<rparr>)" "s_fd (the (socks w1 ?r)) = fd"
      "ispriv (the (socks w1 ?r)) = 0" "\<not> fd_open w fd" "fd_open w1 fd" "fd_nonblock w1 fd" "oom w1 = oom w"
      "epoll w1 (s_fd (the (socks w1 ?r))) \<noteq> None"
      by (simp_all add: new_remote_def Let_def)
    from s p(1) have l: "live_sock w1 p" "in_of w1 p = in_of w p" by (simp_all add: live_sock_def in_of_def)
    have len: "length (in_of w p) \<le> 2 ^ 30" using live_sockE [OF p(1)] length_contents_bound by metis
    from wpe_conj [OF forward_run [OF l(1) r(1) ne] forward_watches [OF l(1) r(1) ne r(11)]]
    show "wpe {} (forward (Some p) (Some ?r)) (\<lambda>c w'. c = 0 \<and> ?post w' ?r) w1"
      by (rule wpe_conseq) (use r l len mem in \<open>auto simp: moved_def touches_def\<close>)
    from r(4) s p(1) r(1) show "tunnels w1 t = Some (T\<lparr>remote_sock := Some ?r, t_status := tunn_is_run\<rparr>)"
      "socks w1 p = Some (the (socks w p))" "\<exists>d. socks w1 ?r = Some d"
      by (auto simp: live_sock_def)
  qed
  have readable: "0 < buff_readable (read_buff (the (socks w p)))"
    using live_sockE [OF p(1)] p(2) by (metis buff_readable_wf length_greater_0_conv option.sel)
  have get: "wpe {} (clt_get_remote (Some t) host port (Some as)) (\<lambda>i w'. i = 0 \<and> new_remote w t T fd w') w"
    using connect_to_remote_run [OF T(1) mem names a]
    by (simp add: clt_get_remote_def clt_waitLinePairing_def wpe_bnd wpe_def [of _ waitListEmpty] parked wpe_ret)
  let ?tail = "bnd (load tunnels (Some t)) (\<lambda>t. bnd (load socks (priv_sock t)) (\<lambda>s.
     if 0 < buff_readable (read_buff s) then bnd (load socks (remote_sock t)) (\<lambda>_. forward (priv_sock t) (remote_sock t)) else ret 0))"
  have tail: "wpe {} ?tail (\<lambda>c w'. c = 0 \<and> ?post w' ?r) w1" if w1: "new_remote w t T fd w1" for w1
    using heap [OF w1] fwd [OF w1] T readable by (auto simp: wpe_bnd wpe_load)
  have "wpe {} (bnd (clt_get_remote (Some t) host port (Some as)) (\<lambda>i. if i < 0 then ret (-1) else ?tail)) (\<lambda>c w'. c = 0 \<and> ?post w' ?r) w"
    unfolding wpe_bnd_fun [of _ "clt_get_remote (Some t) host port (Some as)"]
    by (rule wpe_conseq [OF get]) (use tail in \<open>simp add: wpe_if\<close>)
  then have "wpe {} (clt_tunnel_connected_handle (Some t) 1 host port (Some as)) (\<lambda>c w'. c = 0 \<and> ?post w' ?r) w"
    using T by (simp add: clt_tunnel_connected_handle_def wpe_bnd [of _ "load tunnels (Some t)"] wpe_load clt_write cong: if_cong)
  from wpe_total [OF this] show ?thesis by blast
qed

lemma mediator_opens_witness:
  "\<exists>w'. clt_tunnel_connected_handle (Some 0) 1 (\<lambda>_. 0) (\<lambda>_. 0) (Some [\<lparr>ct_socket = Inl 7, ct_connect = None\<rparr>])
       (talk demo_start [9] client_tunnel) = Inr (0, w') \<and> out_of w' 0 = [9] \<and> fd_open w' 7"
proof -
  let ?w = "talk demo_start [9] client_tunnel" and ?a = "\<lparr>ct_socket = Inl 7, ct_connect = None\<rparr>"
  have w: "tunnels ?w 0 = Some client_tunnel" "live_sock ?w 2" "in_of ?w 2 = [9]" "next_addr ?w = 0" "socks ?w 0 = None"
    "waitListEmpty ?w = Inr (True, ?w)" "\<forall>k. \<not> oom ?w k" "find (reachable ?w) [?a] = Some ?a"
    using cap_ok_INIT
    by (simp_all add: talk_def talk_sock_def live_sock_def in_of_def contents_def wf_buff_def arr_copy_def start_defs
        INIT_BUFF_CAP_def waitListEmpty_def the_head_def bnd_def gets_def ret_def list_empty_def reachable_def)
  have zero: "\<exists>k < 128. (\<lambda>_. 0 :: byte) (k :: nat) = 0" "\<exists>k < 16. (\<lambda>_. 0 :: byte) (k :: nat) = 0" by (auto intro: exI [of _ 0])
  from mediator_opens [OF w(1) client_simps(1,2) w(2) _ _ w(6,7) zero w(8), of 7] w
  show ?thesis by auto
qed

text \<open>
  C9: a tunnel with both sockets is used in both directions: data from the server goes to the write buffer
  of the socket of the local service, and the answer back, all of it or, without memory or room, none of it.
\<close>

theorem mediator_relays:
  assumes T: "tunnels w t = Some T" "priv_sock T = Some p" "remote_sock T = Some r" and ne: "p \<noteq> r"
    and live: "live_sock w p" "live_sock w r" and ends: "(a, b) = (if isprivate \<noteq> 0 then (p, r) else (r, p))"
    and bs: "in_of w a \<noteq> []"
  shows "\<exists>c w'. clt_tunnel_connected_handle (Some t) isprivate host port gai w = Inr (c, w') \<and> moved a b w c w'"
proof -
  from live obtain s d where s: "socks w p = Some s" "socks w r = Some d" by (auto simp: live_sock_def)
  have fwd: "wpe {} (forward (Some a) (Some b)) (moved a b w) w"
    using ends live ne by (intro forward_run) (auto split: if_splits)
  have "0 < buff_readable (read_buff (the (socks w a)))"
    using ends live bs live_sockE [of w a] by (metis buff_readable_wf length_greater_0_conv option.sel prod.inject)
  then have "wpe {} (clt_tunnel_connected_handle (Some t) isprivate host port gai) (moved a b w) w"
    using T s ends fwd
    by (cases "isprivate = 0") (simp_all add: clt_tunnel_connected_handle_def wpe_bnd wpe_load wpe_ret clt_write cong: if_cong)
  from wpe_total [OF this] show ?thesis by blast
qed

lemma mediator_relays_witness:
  "\<exists>w'. clt_tunnel_connected_handle (Some 0) 1 (\<lambda>_. 0) (\<lambda>_. 0) None (pair_world [7, 8]) = Inr (0, w') \<and>
     in_of w' 2 = [] \<and> out_of w' 3 = [9, 7, 8]"
proof -
  let ?w = "pair_world [7, 8]"
  obtain T where T: "tunnels ?w 0 = Some T" "priv_sock T = Some 2" "remote_sock T = Some 3"
    by (simp add: pair_world_def)
  have l: "live_sock ?w 2" "live_sock ?w 3" using pair_world_ok(1) by (simp_all add: joined_def)
  have "(2, 3) = (if (1 :: int) \<noteq> 0 then (2, 3) else (3, 2 :: addr))" "in_of ?w 2 \<noteq> []" by (simp_all add: pair_world_ok)
  from mediator_relays [OF T _ l this, of "\<lambda>_. 0" "\<lambda>_. 0" None] show ?thesis
    by (auto simp: moved_def pair_world_ok)
qed

end
