(* ===== verification/Together.thy ===== *)
theory Together
  imports Mediator
begin

text \<open>
  Runs of the mediator and of the server with each other: what is read on one side of a connection is
  what the other side has written to the wire.
\<close>

section \<open>The mediator\<close>

text \<open>After \<open>thrdListInit\<close>, and what the kernel answers to an attempt to connect that it takes up.\<close>

definition media_boot :: world where
  "media_boot = demo_boot\<lparr>procs_head := Some HApp, procs_head2 := Some HWait, sockfdlist_head := Some HFd\<rparr>"

definition conn_ok :: "int \<Rightarrow> gai" where
  "conn_ok fd = Some [\<lparr>ct_socket = Inl fd, ct_connect = Some EINPROGRESS\<rparr>]"

definition one_arr :: arr where
  "one_arr = text_arr [0x31]"

text \<open>The start, with host and port \<open>1\<close> and the connection to the server on descriptor 3, and the loop.\<close>

definition media_run :: "(wait_result \<times> gai) list \<Rightarrow> int prog" where
  "media_run evs = bnd (medSvr_init one_arr one_arr (conn_ok 3) True (\<lambda>_. 0) (\<lambda>_. 0)) (\<lambda>r.
     if r < 0 then ret (-1) else media_start one_arr one_arr (map (\<lambda>(e, g). (e, \<lambda>_. g)) evs))"

text \<open>The bytes that arrive on a descriptor.\<close>

definition arrived :: "int \<Rightarrow> wait_result \<Rightarrow> byte list" where
  "arrived fd r = (case r of WaitErr _ \<Rightarrow> []
     | WaitEvents es \<Rightarrow> concat (map (\<lambda>e. case ke_rd e of RdBytes bs \<Rightarrow> bs | RdErr _ \<Rightarrow> []) (filter (\<lambda>e. ke_fd e = fd \<and> ke_in e) es)))"

definition received :: "int \<Rightarrow> wait_result list \<Rightarrow> byte list" where
  "received fd rs = concat (map (arrived fd) rs)"

lemma strlen_numeral:
  "strlen_at (numeral k) a i = (if a i = 0 then Inr i else strlen_at (pred_numeral k) a (Suc i))"
  by (simp add: numeral_eq_Suc)

lemma snprintf_0: "snprintf_s (\<lambda>_. 0) (\<lambda>_. 0) = Inr (\<lambda>_. 0)"
  by (simp add: snprintf_s_def strlen_0 fun_eq_iff)

lemmas media_defs = media_run_def medSvr_init_def openConnSock_def sys_connect_def conn_ok_def one_arr_def media_boot_def
  clt_tunnel_create_def clt_getTargetFrList_def clt_round_def clt_event_def clt_tunnel_read_handle_def clt_tunnel_read_state_def
  clt_tunnel_write_handle_def clt_tunnel_open_handle_def clt_tunnel_write_request_def clt_tunnel_request_handle_def
  clt_request_header_def clt_request_addr_def clt_request_domain_def clt_request_read_addr_def
  clt_tunnel_connected_handle_def clt_get_remote_def clt_tunnel_connect_to_remote_def clt_tunnel_switch_handle_def
  clt_waitLinePairing_def waitListDo_def clt_fndIdleConnElemt_def clt_sock_shutdown_def clt_sock_force_shutdown_def clt_sock_release_def
  clt_forward_left_def clt_after_close_def clt_registry clt_socket clt_write clt_pools clt_getWaitobj snprintf_0

lemmas request_defs = strlen_numeral upt_conv_Cons nport_def ndomainlen_def nheader_req_def NIPV4_def NIPV6_def
  tunnel_request_handle_def request_header_def request_addr_def request_domain_def request_read_addr_def request_done_def
  tunnel_notify_connected_def bytes_of_def connect_reply_def mediator_request_def enc_request_def

lemmas evaluate_both = evaluate media_defs request_defs

section \<open>A request is served\<close>

definition media_up :: "(wait_result \<times> gai) list" where
  "media_up = [(ev_out 3 100, None), (ev_in 3 [5, 0], None), (ev_out 3 100, None), (ev_in 3 connect_reply, None)]"

definition media_serves :: "byte \<Rightarrow> byte \<Rightarrow> (wait_result \<times> gai) list" where
  "media_serves q r = media_up @ [(ev_in 3 [q], conn_ok 7), (ev_out 7 100, None), (ev_in 7 [r], None), (ev_out 3 100, None)]"

definition server_serves :: "byte \<Rightarrow> byte \<Rightarrow> wait_result list" where
  "server_serves q r = [ev_accept 3 5, ev_in 5 [5, 1, 0], ev_out 5 100, ev_in 5 mediator_request, ev_out 5 100,
     ev_accept 4 6, ev_in 6 [q], ev_out 5 100, ev_in 5 [r], ev_out 6 100]"

lemma media_served:
  "wpe {} (media_run (media_serves q r)) (\<lambda>c w. c = 0 \<and> wire w 3 = [5, 1, 0] @ mediator_request @ [r] \<and> wire w 7 = [q]) media_boot"
  by (simp add: evaluate_both media_serves_def media_up_def)

lemma server_served:
  "wpe {} (server_start (server_serves q r)) (\<lambda>c w. c = 0 \<and> wire w 5 = [5, 0] @ connect_reply @ [q] \<and> wire w 6 = [r]) demo_start"
  by (simp add: evaluate_both server_serves_def)

text \<open>
  One schedule in which the two programs serve a request together, for any byte \<open>q\<close> of the user and \<open>r\<close> of the
  service.  The mediator connects to the server (its descriptor 3,
  the server's 5), greets it, asks, and is told that it is connected.  A user connects to the server's
  second port and sends \<open>q\<close>; the mediator opens a connection to the local service and
  passes \<open>q\<close> on; the service answers \<open>r\<close>, and the user gets \<open>r\<close>.  Each program reads on
  the connection between them exactly what the other has written.
\<close>

lemma request_served:
  "\<exists>wc ws. media_run (media_serves q r) media_boot = Inr (0, wc) \<and>
     server_start (server_serves q r) demo_start = Inr (0, ws) \<and>
     received 5 (server_serves q r) = wire wc 3 \<and> received 3 (map fst (media_serves q r)) = wire ws 5 \<and>
     received 6 (server_serves q r) = [q] \<and> wire wc 7 = [q] \<and>
     received 7 (map fst (media_serves q r)) = [r] \<and> wire ws 6 = [r]"
proof -
  from wpe_total [OF media_served [of q r]] wpe_total [OF server_served [of q r]]
  obtain wc ws where "media_run (media_serves q r) media_boot = Inr (0, wc)" "wire wc 3 = [5, 1, 0] @ mediator_request @ [r]"
    "wire wc 7 = [q]" "server_start (server_serves q r) demo_start = Inr (0, ws)"
    "wire ws 5 = [5, 0] @ connect_reply @ [q]" "wire ws 6 = [r]" by blast
  then show ?thesis
    by (simp add: received_def arrived_def server_serves_def media_serves_def media_up_def event_defs)
qed

section \<open>What goes wrong\<close>

text \<open>
  The connection to the local service is parked after an answer and taken again for the next
  request, but its \<open>tunnel\<close> member still names the parked place: the second answer \<open>r2\<close> is
  read and stays in the read buffer, and the mediator does not wait to write to the server.
\<close>

definition media_again :: "byte \<Rightarrow> byte \<Rightarrow> byte \<Rightarrow> byte \<Rightarrow> (wait_result \<times> gai) list" where
  "media_again q r q2 r2 = media_serves q r @ [(ev_in 3 [q2], None), (ev_out 7 100, None), (ev_in 7 [r2], None), (ev_out 3 100, None)]"

lemma second_answer_stays:
  "\<exists>w s T. media_run (media_again q r q2 r2) media_boot = Inr (0, w) \<and>
     wire w 3 = [5, 1, 0] @ mediator_request @ [r] \<and> wire w 7 = [q, q2] \<and>
     tunnels w 0 = Some T \<and> remote_sock T = Some 3 \<and> socks w 3 = Some s \<and> s_fd s = 7 \<and>
     s_tunnel s \<noteq> Some 0 \<and> contents (read_buff s) = [r2]"
proof -
  have "wpe {} (media_run (media_again q r q2 r2)) (\<lambda>c w. c = 0 \<and> (\<exists>s T.
     wire w 3 = [5, 1, 0] @ mediator_request @ [r] \<and> wire w 7 = [q, q2] \<and>
     tunnels w 0 = Some T \<and> remote_sock T = Some 3 \<and> socks w 3 = Some s \<and> s_fd s = 7 \<and>
     s_tunnel s \<noteq> Some 0 \<and> contents (read_buff s) = [r2])) media_boot"
    by (simp add: evaluate_both media_again_def media_serves_def media_up_def)
  from wpe_total [OF this] show ?thesis by blast
qed

text \<open>When the service then closes the connection, the tunnel keeps a pointer to the released socket.\<close>

lemma released_remote_used:
  "media_run (media_again q r q2 r2 @ [(ev_in 7 [], None), (ev_in 3 [q3], None)]) media_boot = Inl UseAfterFree"
proof -
  have "wpe {UseAfterFree} (media_run (media_again q r q2 r2 @ [(ev_in 7 [], None), (ev_in 3 [q3], None)])) (\<lambda>_ _. False) media_boot"
    by (simp add: evaluate_both media_again_def media_serves_def media_up_def)
  then show ?thesis by (auto dest: wpe_only)
qed

text \<open>Without a local service, what the server sent is sent back to it when it closes the connection.\<close>

lemma unserved_echo:
  "\<exists>w. media_run (media_up @ [(ev_in 3 [q], None), (ev_in 3 [], None), (ev_out 3 100, None)]) media_boot = Inr (0, w) \<and>
     wire w 3 = [5, 1, 0] @ mediator_request @ [q]"
proof -
  have "wpe {} (media_run (media_up @ [(ev_in 3 [q], None), (ev_in 3 [], None), (ev_out 3 100, None)]))
     (\<lambda>c w. c = 0 \<and> wire w 3 = [5, 1, 0] @ mediator_request @ [q]) media_boot"
    by (simp add: evaluate_both media_up_def)
  from wpe_total [OF this] show ?thesis by blast
qed

text \<open>\<open>medSvr_init\<close> reads a member of the tunnel it did not get.\<close>

lemma no_tunnel_deref: "media_run [] (media_boot\<lparr>oom := (\<lambda>n. n = 0)\<rparr>) = Inl NullDeref"
proof -
  have "wpe {NullDeref} (media_run []) (\<lambda>_ _. False) (media_boot\<lparr>oom := (\<lambda>n. n = 0)\<rparr>)"
    by (simp add: evaluate_both)
  then show ?thesis by (auto dest: wpe_only)
qed

text \<open>
  A server with credentials answers method 2, and takes the mediator's request, sent all the same, for
  a login, which it refuses.
\<close>

lemma mediator_locked_out:
  "\<exists>w T. server_start [ev_accept 3 5, ev_in 5 [5, 1, 0], ev_out 5 100, ev_in 5 mediator_request] auth_start = Inr (0, w) \<and>
     wire w 5 = [5, 2] \<and> tunnels w 0 = Some T \<and> priv_sock T = None \<and> \<not> fd_open w 5"
proof -
  have "wpe {} (server_start [ev_accept 3 5, ev_in 5 [5, 1, 0], ev_out 5 100, ev_in 5 mediator_request]) (\<lambda>c w. c = 0 \<and> (\<exists>T.
     wire w 5 = [5, 2] \<and> tunnels w 0 = Some T \<and> priv_sock T = None \<and> \<not> fd_open w 5)) auth_start"
    by (simp add: evaluate_both auth_defs)
  from wpe_total [OF this] show ?thesis by blast
qed

end
