(* ===== verification/Options.thy ===== *)
theory Options
  imports Answers ClientLoop
begin

text \<open>
  The two \<open>main\<close> functions.  What \<open>getopt\<close> finds is an argument: the option characters with the
  bytes of \<open>optarg\<close>, in order; any other character is one \<open>usage\<close> is printed for.  Setting \<open>SIGPIPE\<close> to
  be ignored is what makes \<open>write\<close> report an error, as \<open>wr_result\<close> has it.
\<close>

text \<open>\<open>strncpy(dst, src, n)\<close>: up to the zero that ends \<open>src\<close>, then zeros; no zero when \<open>src\<close> is too long.\<close>

definition strncpy_s :: "nat \<Rightarrow> arr \<Rightarrow> byte list \<Rightarrow> arr" where
  "strncpy_s n dst src = (let s = takeWhile (\<lambda>c. c \<noteq> 0) src in
     (\<lambda>i. if i < n then (if i < length s then s ! i else 0) else dst i))"

text \<open>The arrays that \<open>main\<close> fills: local ones, and for the client also \<open>g_locAddr\<close> and \<open>g_locPort\<close>.\<close>

record settings =
  set_addr :: arr
  set_port :: arr
  set_rmtPort :: arr
  set_username :: arr
  set_passwd :: arr

definition no_settings :: settings where
  "no_settings = \<lparr>set_addr = (\<lambda>_. 0), set_port = (\<lambda>_. 0), set_rmtPort = (\<lambda>_. 0), set_username = (\<lambda>_. 0), set_passwd = (\<lambda>_. 0)\<rparr>"

definition server_option :: "char \<times> byte list \<Rightarrow> settings \<Rightarrow> settings" where
  "server_option = (\<lambda>(option, optarg) s.
     if option = CHR ''a'' then s\<lparr>set_addr := strncpy_s 64 (set_addr s) optarg\<rparr>
     else if option = CHR ''p'' then s\<lparr>set_port := strncpy_s 16 (set_port s) optarg\<rparr>
     else if option = CHR ''P'' then s\<lparr>set_rmtPort := strncpy_s 16 (set_rmtPort s) optarg\<rparr>
     else if option = CHR ''u'' then s\<lparr>set_username := strncpy_s 255 (set_username s) optarg\<rparr>
     else if option = CHR ''k'' then s\<lparr>set_passwd := strncpy_s 255 (set_passwd s) optarg\<rparr>
     else s)"

definition server_main :: "(char \<times> byte list) list \<Rightarrow> net_result \<Rightarrow> net_result \<Rightarrow> bool \<Rightarrow> wait_result list \<Rightarrow> int prog" where
  "server_main opts k1 k2 epoll_ok waits =
     (let s = fold server_option opts no_settings in
      if set_port s 0 = 0 \<or> set_addr s 0 = 0 then ret (-1)
      else bnd thrdListInit (\<lambda>_.
      bnd (server_init (set_port s) (set_rmtPort s) k1 k2 epoll_ok (set_username s) (set_passwd s)) (\<lambda>r.
      if r < 0 then ret (-1)
      else bnd (server_start waits) (\<lambda>r. if r < 0 then ret (-1) else ret 0))))"

definition client_option :: "char \<times> byte list \<Rightarrow> settings \<Rightarrow> settings" where
  "client_option = (\<lambda>(option, optarg) s.
     if option = CHR ''a'' then s\<lparr>set_addr := strncpy_s 128 (set_addr s) optarg\<rparr>
     else if option = CHR ''p'' then s\<lparr>set_port := strncpy_s 16 (set_port s) optarg\<rparr>
     else if option = CHR ''P'' then s\<lparr>set_rmtPort := strncpy_s 16 (set_rmtPort s) optarg\<rparr>
     else if option = CHR ''u'' then s\<lparr>set_username := strncpy_s 255 (set_username s) optarg\<rparr>
     else if option = CHR ''k'' then s\<lparr>set_passwd := strncpy_s 255 (set_passwd s) optarg\<rparr>
     else s)"

text \<open>\<open>g_locAddr\<close> is \<open>set_addr\<close>, both the server's host and the local service's; \<open>g_locPort\<close> is \<open>set_rmtPort\<close>.\<close>

definition client_main :: "(char \<times> byte list) list \<Rightarrow> gai \<Rightarrow> bool \<Rightarrow> (wait_result \<times> (int \<Rightarrow> gai)) list \<Rightarrow> int prog" where
  "client_main opts gai epoll_ok waits =
     (let s = fold client_option opts no_settings in
      if set_port s 0 = 0 \<or> set_addr s 0 = 0 then ret (-1)
      else bnd thrdListInit (\<lambda>_.
      bnd (medSvr_init (set_addr s) (set_port s) gai epoll_ok (set_username s) (set_passwd s)) (\<lambda>r.
      if r < 0 then ret (-1)
      else bnd (media_start (set_addr s) (set_rmtPort s) waits) (\<lambda>r. if r < 0 then ret (-1) else ret 0))))"

section \<open>The credentials are the options\<close>

text \<open>The argument of the last option of a kind.\<close>

definition last_arg :: "char \<Rightarrow> (char \<times> byte list) list \<Rightarrow> byte list" where
  "last_arg c opts = (let args = map snd (filter (\<lambda>p. fst p = c) opts) in if args = [] then [] else last args)"

lemma last_arg_snoc: "last_arg c (opts @ [p]) = (if fst p = c then snd p else last_arg c opts)"
  by (simp add: last_arg_def)

lemma strncpy_c_string:
  assumes "0 \<notin> set src" and "length src < n"
  shows "c_string n (strncpy_s n dst src) = src" "strncpy_s n dst src (length src) = 0"
proof -
  have s: "takeWhile (\<lambda>c. c \<noteq> 0) src = src" by (rule takeWhile_eq_all_conv [THEN iffD2]) (use assms(1) in auto)
  have "map (strncpy_s n dst src) [0..<n] = map (arr_copy (\<lambda>_. 0) 0 src) [0..<n]"
    using assms(2) by (simp add: strncpy_s_def s arr_copy_def)
  then have "c_string n (strncpy_s n dst src) = c_string n (arr_copy (\<lambda>_. 0) 0 src)" by (simp only: c_string_def)
  then show "c_string n (strncpy_s n dst src) = src" using c_string_copy [of src n] assms(2) s by simp
  show "strncpy_s n dst src (length src) = 0" using assms(2) by (simp add: strncpy_s_def s)
qed

lemma last_arg_in: "last_arg c opts = [] \<or> last_arg c opts \<in> snd ` set opts"
  by (induction opts rule: rev_induct) (auto simp: last_arg_snoc last_arg_def [of c "[]"])

text \<open>An array of \<open>n\<close> bytes that holds a string shorter than itself.\<close>

definition holds :: "nat \<Rightarrow> arr \<Rightarrow> byte list \<Rightarrow> bool" where
  "holds n a s \<longleftrightarrow> c_string n a = s \<and> (\<exists>k < n. a k = 0)"

lemma holds_strncpy: "0 \<notin> set s \<Longrightarrow> length s < n \<Longrightarrow> holds n (strncpy_s n dst s) s"
  using strncpy_c_string [of s n dst] by (auto simp: holds_def)

lemma holds_zero: "0 < n \<Longrightarrow> holds n (\<lambda>_. 0) []"
  by (auto simp: holds_def c_string_def takeWhile_eq_Nil_iff upt_conv_Cons)

lemma strncpy_first: "0 \<notin> set s \<Longrightarrow> 0 < n \<Longrightarrow> strncpy_s n dst s 0 = 0 \<longleftrightarrow> s = []"
  by (cases s) (auto simp: strncpy_s_def Let_def)

text \<open>Arguments that fit: less than 16 bytes for the ports, less than 255 for the rest; of a host only the first byte counts.\<close>

definition fits :: "char \<times> byte list \<Rightarrow> bool" where
  "fits = (\<lambda>(c, s). 0 \<notin> set s \<and> length s < (if c = CHR ''p'' \<or> c = CHR ''P'' then 16 else 255))"

lemma options_held:
  assumes "\<forall>x \<in> set opts. fits x"
  shows "holds 16 (set_port (fold server_option opts no_settings)) (last_arg CHR ''p'' opts) \<and>
     holds 16 (set_rmtPort (fold server_option opts no_settings)) (last_arg CHR ''P'' opts) \<and>
     holds 255 (set_username (fold server_option opts no_settings)) (last_arg CHR ''u'' opts) \<and>
     holds 255 (set_passwd (fold server_option opts no_settings)) (last_arg CHR ''k'' opts) \<and>
     (set_addr (fold server_option opts no_settings) 0 = 0 \<longleftrightarrow> last_arg CHR ''a'' opts = [])"
  using assms
proof (induction opts rule: rev_induct)
  case Nil
  show ?case by (simp add: no_settings_def last_arg_def holds_zero)
next
  case (snoc p opts)
  obtain c s where p: "p = (c, s)" by (cases p)
  with snoc.prems have "0 \<notin> set s" "c = CHR ''p'' \<or> c = CHR ''P'' \<Longrightarrow> length s < 16" "length s < 255"
    by (auto simp: fits_def split: if_splits)
  with snoc p show ?case by (auto simp: server_option_def last_arg_snoc holds_strncpy strncpy_first)
qed

text \<open>\<open>snprintf\<close> copies it.\<close>

lemma holds_strlen: "holds n a s \<Longrightarrow> \<exists>k. strlen_at n a 0 = Inr k"
  unfolding holds_def by (elim conjE exE) (rule strlen_at_total, auto)

lemma strlen_least: "strlen_at n a i = Inr k \<Longrightarrow> i \<le> j \<Longrightarrow> j < k \<Longrightarrow> a j \<noteq> 0"
  by (induction n arbitrary: i) (fastforce split: if_splits simp: le_eq_less_or_eq)+

lemma snprintf_holds:
  assumes "holds 255 a s"
  shows "\<exists>b. snprintf_s dst a = Inr b \<and> holds 255 b s"
proof -
  from holds_strlen [OF assms] obtain n where n: "strlen_at 255 a 0 = Inr n" by blast
  with strlen_at_runs_out [OF n] have "n < 255" "a n = 0" by auto
  let ?b = "\<lambda>i. if i < min n 254 then a i else if i = min n 254 then 0 else dst i"
  have b: "snprintf_s dst a = Inr ?b" using n by (simp add: snprintf_s_def)
  have "strcmp_at 255 ?b a 0 = Inr True"
    using \<open>n < 255\<close> \<open>a n = 0\<close> strlen_least [OF n] by (auto simp: strcmp_at_True intro!: exI [of _ n])
  moreover have z: "?b n = 0" using \<open>n < 255\<close> by auto
  ultimately have "c_string 255 ?b = c_string 255 a" using strcmp_at_c_string [of ?b n 255 a] \<open>n < 255\<close> by simp
  with assms z \<open>n < 255\<close> have "holds 255 ?b s" unfolding holds_def by blast
  with b show ?thesis by blast
qed

lemma holds_first: "0 < n \<Longrightarrow> holds n a s \<Longrightarrow> a 0 = 0 \<longleftrightarrow> s = []"
  by (auto simp: holds_def c_string_def upt_conv_Cons [of 0 n] split: if_splits)

text \<open>\<open>atoi\<close> stays inside it.\<close>

lemma span_end_held: "a k = 0 \<Longrightarrow> i \<le> k \<Longrightarrow> k < i + n \<Longrightarrow> \<not> P 0 \<Longrightarrow> \<exists>j. span_end P n a i = Inr j \<and> i \<le> j \<and> j \<le> k"
proof (induction n arbitrary: i)
  case (Suc n)
  show ?case
  proof (cases "P (a i)")
    case True
    with Suc.prems have "Suc i \<le> k" by (cases "i = k") auto
    with Suc.IH [of "Suc i"] Suc.prems True show ?thesis by fastforce
  qed (use Suc.prems in auto)
qed simp

lemma atoi_held:
  assumes "holds n a s"
  shows "\<exists>j. atoi_reads n a = Inr j"
proof -
  from assms obtain k where k: "k < n" "a k = 0" by (auto simp: holds_def)
  from span_end_held [of a k 0 n "\<lambda>c. c = 0x20 \<or> 0x09 \<le> c \<and> c \<le> 0x0D"] k obtain i
    where i: "span_end (\<lambda>c. c = 0x20 \<or> 0x09 \<le> c \<and> c \<le> 0x0D) n a 0 = Inr i" "i \<le> k" by auto
  let ?j = "if a i = 0x2B \<or> a i = 0x2D then Suc i else i"
  have "?j \<le> k" using i(2) k(2) by (cases "i = k") auto
  with span_end_held [of a k ?j "n - ?j" "\<lambda>c. 0x30 \<le> c \<and> c \<le> 0x39"] k i show ?thesis
    by (auto simp: atoi_reads_def Let_def)
qed

text \<open>The kernel lets both listeners be opened, on new descriptors.\<close>

definition starts :: "net_result \<Rightarrow> net_result \<Rightarrow> bool \<Rightarrow> bool" where
  "starts k1 k2 epoll_ok \<longleftrightarrow> (\<exists>m n. nr_socket k1 = Inl m \<and> nr_socket k2 = Inl n \<and> 0 \<le> m \<and> 0 \<le> n \<and>
       m \<notin> {0, 1, 2} \<and> n \<notin> {0, 1, 2, m}) \<and>
     nr_reuse k1 \<and> nr_bind k1 \<and> nr_listen k1 \<and> nr_reuse k2 \<and> nr_bind k2 \<and> nr_listen k2 \<and> epoll_ok"

lemma wpe_openServerSock:
  assumes "holds 16 port s"
  shows "wpe E (openServerSock port k) Q w = wpe E (simpNetSrvOpen k) Q w"
  using atoi_held [OF assms] by (auto simp: openServerSock_def wp)

lemma snprintf_cases:
  assumes "holds 255 a s"
  shows "snprintf_s dst a \<noteq> Inl e" "snprintf_s dst a = Inr b \<Longrightarrow> holds 255 b s"
  using snprintf_holds [OF assms, of dst] by auto

lemma server_init_result:
  assumes ports: "holds 16 port ps" "holds 16 rmtPort rs" and u: "holds 255 username us" and k: "holds 255 passwd ks"
    and w: "fd_open w = (\<lambda>fd. fd \<in> {0, 1, 2})"
  shows "wpe {} (server_init port rmtPort k1 k2 eo username passwd) (\<lambda>r w'. r = (if starts k1 k2 eo then 0 else -1) \<and>
     (starts k1 k2 eo \<longrightarrow> holds 255 (mon_username w') us \<and> holds 255 (mon_passwd w') ks)) w"
  using snprintf_cases [OF u] snprintf_cases [OF k]
  by (auto simp: server_init_def wpe_openServerSock [OF ports(1)] wpe_openServerSock [OF ports(2)] simpNetSrvOpen_def
      starts_def wp wp_fun w split: sum.splits)

text \<open>
  C21: when every option argument fits its array (less than 16 bytes for the ports, less than 255 for
  user name, password and host), the start never faults, whatever the kernel answers.  It succeeds
  exactly if \<open>-a\<close> and \<open>-p\<close> are given and not empty and both listeners and the registry can be opened; then
  user name and password of the server are the arguments of the last \<open>-u\<close> and the last \<open>-k\<close>, and logins
  are required exactly if neither is empty.
\<close>

theorem options_configure:
  assumes opts: "\<forall>x \<in> set opts. fits x"
    and ok: "ok \<longleftrightarrow> last_arg CHR ''a'' opts \<noteq> [] \<and> last_arg CHR ''p'' opts \<noteq> [] \<and> starts k1 k2 eo"
  shows "\<exists>w. server_main opts k1 k2 eo [] (boot_world mem dirt l) = Inr (if ok then 0 else -1, w) \<and>
     (ok \<longrightarrow> c_string 255 (mon_username w) = last_arg CHR ''u'' opts \<and>
        c_string 255 (mon_passwd w) = last_arg CHR ''k'' opts \<and>
        (auth_required w \<longleftrightarrow> last_arg CHR ''u'' opts \<noteq> [] \<and> last_arg CHR ''k'' opts \<noteq> []))"
    (is "\<exists>w. _ \<and> ?post w")
proof -
  let ?s = "fold server_option opts no_settings"
  let ?Q = "\<lambda>r w. r = (if ok then 0 else -1 :: int) \<and> ?post w"
  note held = options_held [OF opts]
  have given: "set_port ?s 0 = 0 \<or> set_addr ?s 0 = 0 \<longleftrightarrow> last_arg CHR ''p'' opts = [] \<or> last_arg CHR ''a'' opts = []"
    using held holds_first [of 16 "set_port ?s"] by auto
  have post: "?post w" if "holds 255 (mon_username w) (last_arg CHR ''u'' opts)" "holds 255 (mon_passwd w) (last_arg CHR ''k'' opts)" for w
    using that holds_first [OF _ that(1)] holds_first [OF _ that(2)] by (simp add: auth_required_def holds_def)
  have "wpe {} (server_main opts k1 k2 eo []) ?Q (boot_world mem dirt l)"
  proof (cases "set_port ?s 0 = 0 \<or> set_addr ?s 0 = 0")
    case True
    then show ?thesis using given ok unfolding server_main_def Let_def if_P [OF True] by (auto simp: wpe_ret)
  next
    case False
    then have ok': "ok \<longleftrightarrow> starts k1 k2 eo" using given ok by auto
    show ?thesis
      unfolding server_main_def Let_def if_not_P [OF False] wpe_bnd wpe_def [of _ thrdListInit] thrdListInit_run sum.case prod.case
      by (rule wpe_conseq [OF server_init_result])
         (use held post ok' in \<open>auto simp: boot_world_def wp wp_fun\<close>)
  qed
  from wpe_total [OF this] show ?thesis by blast
qed

lemma options_configure_witness:
  "(\<exists>w. server_main [(CHR ''a'', [0x2A]), (CHR ''p'', [0x39]), (CHR ''u'', [0x75]), (CHR ''k'', [0x70])]
       (net_ok 3) (net_ok 4) True [] demo_boot = Inr (0, w) \<and>
      c_string 255 (mon_username w) = [0x75] \<and> c_string 255 (mon_passwd w) = [0x70] \<and> auth_required w) \<and>
   (\<exists>w. server_main [(CHR ''p'', [0x39])] (net_ok 3) (net_ok 4) True [] demo_boot = Inr (-1, w))"
proof
  have s: "starts (net_ok 3) (net_ok 4) True" by (simp add: starts_def net_ok_def)
  show "\<exists>w. server_main [(CHR ''a'', [0x2A]), (CHR ''p'', [0x39]), (CHR ''u'', [0x75]), (CHR ''k'', [0x70])]
       (net_ok 3) (net_ok 4) True [] demo_boot = Inr (0, w) \<and>
      c_string 255 (mon_username w) = [0x75] \<and> c_string 255 (mon_passwd w) = [0x70] \<and> auth_required w"
    using options_configure [of "[(CHR ''a'', [0x2A]), (CHR ''p'', [0x39]), (CHR ''u'', [0x75]), (CHR ''k'', [0x70])]"
        True "net_ok 3" "net_ok 4" True "\<lambda>_. False" "\<lambda>_. 0" "\<lparr>prev = (\<lambda>x. x), nxt = (\<lambda>x. x)\<rparr>"] s
    by (simp add: last_arg_def demo_boot_def fits_def)
  show "\<exists>w. server_main [(CHR ''p'', [0x39])] (net_ok 3) (net_ok 4) True [] demo_boot = Inr (-1, w)"
    using options_configure [of "[(CHR ''p'', [0x39])]"
        False "net_ok 3" "net_ok 4" True "\<lambda>_. False" "\<lambda>_. 0" "\<lparr>prev = (\<lambda>x. x), nxt = (\<lambda>x. x)\<rparr>"]
    by (simp add: last_arg_def demo_boot_def fits_def)
qed

text \<open>An option of 255 bytes or more leaves no zero in its array, and \<open>snprintf\<close> in \<open>server_init\<close> reads past it.\<close>

lemma strlen_none: "(\<And>j. i \<le> j \<Longrightarrow> j < i + n \<Longrightarrow> a j \<noteq> 0) \<Longrightarrow> strlen_at n a i = Inl Unterminated"
  by (induction n arbitrary: i) auto

lemma long_option:
  assumes "0 \<notin> set s" and "255 \<le> length s"
  shows "snprintf_s dst (strncpy_s 255 d s) = Inl Unterminated"
proof -
  have s: "takeWhile (\<lambda>c. c \<noteq> 0) s = s" by (rule takeWhile_eq_all_conv [THEN iffD2]) (use assms(1) in auto)
  have "s ! j \<noteq> 0" if "j < 255" for j
    using assms that by (metis nth_mem less_le_trans)
  then have "strlen_at 255 (strncpy_s 255 d s) 0 = Inl Unterminated"
    using assms(2) by (intro strlen_none) (simp add: strncpy_s_def s)
  then show ?thesis by (simp add: snprintf_s_def)
qed

lemma server_init_overruns:
  assumes ports: "holds 16 port ps" "holds 16 rmtPort rs" and u: "\<And>dst. snprintf_s dst username = Inl Unterminated"
    and k: "starts k1 k2 True" and w: "fd_open w = (\<lambda>fd. fd \<in> {0, 1, 2})"
  shows "wpe {Unterminated} (server_init port rmtPort k1 k2 True username passwd) (\<lambda>_ _. False) w"
  using k
  by (auto simp: server_init_def wpe_openServerSock [OF ports(1)] wpe_openServerSock [OF ports(2)] simpNetSrvOpen_def
      starts_def wp wp_fun w u)

text \<open>
  C40: an option argument is not checked for its length: a user name of 255 bytes or more, which fills the
  array of \<open>main\<close> to the end, makes \<open>server_init\<close> read past that array as soon as both listeners are open.
\<close>

theorem long_option_overruns:
  assumes s: "0 \<notin> set s" "255 \<le> length s" and ok: "m \<noteq> n" "\<not> m < 0" "\<not> n < 0" "m \<notin> {0, 1, 2}" "n \<notin> {0, 1, 2}"
    and args: "ad \<noteq> 0" "po \<noteq> 0"
  shows "server_main [(CHR ''a'', [ad]), (CHR ''p'', [po]), (CHR ''u'', s)] (net_ok m) (net_ok n) True waits (boot_world mem dirt l) =
     Inl Unterminated"
proof -
  let ?s = "fold server_option [(CHR ''a'', [ad]), (CHR ''p'', [po]), (CHR ''u'', s)] no_settings"
  have set: "set_port ?s = strncpy_s 16 (\<lambda>_. 0) [po]" "set_rmtPort ?s = (\<lambda>_. 0)" "set_addr ?s = strncpy_s 64 (\<lambda>_. 0) [ad]"
    "set_username ?s = strncpy_s 255 (\<lambda>_. 0) s"
    by (simp_all add: server_option_def no_settings_def)
  have go: "\<not> (set_port ?s 0 = 0 \<or> set_addr ?s 0 = 0)" unfolding set using args by (simp add: strncpy_first)
  have ports: "holds 16 (set_port ?s) [po]" "holds 16 (set_rmtPort ?s) []"
    unfolding set using args by (simp_all add: holds_strncpy holds_zero)
  have fault: "snprintf_s dst (set_username ?s) = Inl Unterminated" for dst unfolding set by (rule long_option [OF s])
  have k: "starts (net_ok m) (net_ok n) True" using ok by (simp add: starts_def net_ok_def)
  have "wpe {Unterminated} (server_main [(CHR ''a'', [ad]), (CHR ''p'', [po]), (CHR ''u'', s)] (net_ok m) (net_ok n) True waits)
     (\<lambda>_ _. False) (boot_world mem dirt l)"
    unfolding server_main_def Let_def if_not_P [OF go] wpe_bnd wpe_def [of _ thrdListInit] thrdListInit_run sum.case prod.case
    by (rule wpe_conseq [OF server_init_overruns [OF ports fault k]]) (simp_all add: boot_world_def)
  from wpe_only [OF this] show ?thesis .
qed

text \<open>A port of 16 digits or more fills its array as well, and \<open>atoi\<close> reads past it before anything is opened.\<close>

lemma span_end_none: "(\<And>j. i \<le> j \<Longrightarrow> j < i + n \<Longrightarrow> P (a j)) \<Longrightarrow> span_end P n a i = Inl Unterminated"
  by (induction n arbitrary: i) auto

lemma atoi_long:
  assumes s: "\<forall>c \<in> set s. 0x30 \<le> c \<and> c \<le> 0x39" "16 \<le> length s"
  shows "atoi_reads 16 (strncpy_s 16 dst s) = Inl Unterminated"
proof -
  let ?a = "strncpy_s 16 dst s"
  have t: "takeWhile (\<lambda>c. c \<noteq> 0) s = s" by (rule takeWhile_eq_all_conv [THEN iffD2]) (use s(1) in auto)
  have digit: "0x30 \<le> ?a j \<and> ?a j \<le> 0x39" if "j < 16" for j
    using that s by (auto simp: strncpy_s_def t)
  then have first: "0x30 \<le> ?a 0" "?a 0 \<le> 0x39" by simp_all
  then have "\<not> ?a 0 \<le> 0x0D" "?a 0 \<noteq> 0x20" "?a 0 \<noteq> 0x2B" "?a 0 \<noteq> 0x2D" by (auto dest: order_trans)
  moreover have "span_end (\<lambda>c. 0x30 \<le> c \<and> c \<le> 0x39) 16 ?a 0 = Inl Unterminated"
    by (rule span_end_none) (use digit in simp)
  ultimately show ?thesis by (simp add: atoi_reads_def Let_def span_end.simps(2) [of _ 15, simplified])
qed

lemma server_init_port:
  "atoi_reads 16 port = Inl Unterminated \<Longrightarrow> wpe {Unterminated} (server_init port rmtPort k1 k2 eo u pw) Q w"
  by (simp add: server_init_def openServerSock_def wpe_bnd wp)

lemma long_port_overruns:
  assumes s: "\<forall>c \<in> set s. 0x30 \<le> c \<and> c \<le> 0x39" "16 \<le> length s" and ad: "ad \<noteq> 0"
  shows "server_main [(CHR ''a'', [ad]), (CHR ''p'', s)] k1 k2 eo waits (boot_world mem dirt l) = Inl Unterminated"
proof -
  let ?s = "fold server_option [(CHR ''a'', [ad]), (CHR ''p'', s)] no_settings"
  have set: "set_port ?s = strncpy_s 16 (\<lambda>_. 0) s" "set_addr ?s = strncpy_s 64 (\<lambda>_. 0) [ad]"
    by (simp_all add: server_option_def no_settings_def)
  have nz: "0 \<notin> set s" using s(1) by auto
  have go: "\<not> (set_port ?s 0 = 0 \<or> set_addr ?s 0 = 0)" unfolding set using ad nz s(2) by (auto simp: strncpy_first)
  have fault: "atoi_reads 16 (set_port ?s) = Inl Unterminated" unfolding set by (rule atoi_long [OF s])
  have "wpe {Unterminated} (server_main [(CHR ''a'', [ad]), (CHR ''p'', s)] k1 k2 eo waits) (\<lambda>_ _. False) (boot_world mem dirt l)"
    unfolding server_main_def Let_def if_not_P [OF go] wpe_bnd wpe_def [of _ thrdListInit] thrdListInit_run sum.case prod.case
    by (rule server_init_port [OF fault])
  from wpe_only [OF this] show ?thesis .
qed

lemma long_option_overruns_witness:
  "server_main [(CHR ''a'', [0x2A]), (CHR ''p'', [0x39]), (CHR ''u'', replicate 255 0x75)] (net_ok 3) (net_ok 4) True [] demo_boot = Inl Unterminated"
  unfolding demo_boot_def by (rule long_option_overruns) simp_all

end
