(* ===== verification/Spec2Isabelle.thy ===== *)
theory Spec2Isabelle
  imports Lists Served Opening Together Options
begin

text \<open>
  A verification development for \<open>socks5-fz\<close>: a SOCKS5 server (\<open>src/socks5.c\<close>) with one \<open>epoll\<close>
  loop, and the mediator (\<open>src/clientdemo.c\<close>) that connects to it and to a local service.  Both use
  the growable buffers of \<open>src/buff.c\<close>, the intrusive lists of \<open>src/list.h\<close>, the pools of
  \<open>src/Utils.c\<close> and the types of \<open>src/mysocks5.h\<close> and \<open>src/util.h\<close>.

  \<^bold>\<open>How the program works.\<close>  The server listens on two ports.  A connection on the first is a private
  socket: it greets, may log in, and asks for a connection; the answer is always the same, with the reply
  code 1, and nothing is connected.  Each read of the socket runs one handler, so a second message in the same
  read waits for the next one.  A connection on the second is a remote socket: it is given to a tunnel whose
  private socket is idle, or parked in the wait list until \<open>waitLinePairing\<close> finds one.  Bytes are
  moved from the read buffer of one socket of a tunnel to the write buffer of the other.  When a
  remote socket has been answered it is parked again.  The mediator is the peer of a private socket; it
  opens connections to its local service on demand and parks and reuses them in the same way.

  \<^bold>\<open>The model.\<close>  Every C function is a computation \<open>'a prog\<close> on the store \<open>world\<close>: it ends in a value
  and a new store, or in a fault (\<open>NullDeref\<close>, \<open>UseAfterFree\<close>, \<open>OutOfBounds\<close>, \<open>Unterminated\<close> for a string that
  runs past its array, \<open>AssertFail\<close>, \<open>BadRealloc\<close>, \<open>Diverge\<close>).  The store holds the objects by address, the links of the lists, the
  globals, and what the kernel keeps: the open descriptors, the interest list of \<open>epoll\<close>, and the bytes
  written to each descriptor.  What the allocator, \<open>epoll_wait\<close>, \<open>read\<close>, \<open>write\<close>, \<open>accept\<close>, \<open>socket\<close>,
  \<open>connect\<close>, \<open>getaddrinfo\<close>, \<open>bind\<close>, \<open>listen\<close> and \<open>getopt\<close> answer is an argument.  The theorems hold for every answer
  of the kernel and the peers, unless they say which one they are about.  Those about every reachable state of the
  server (\<open>Served\<close>) are about runs in which the allocator has memory (\<open>plenty\<close>): when it has none, \<open>tunnel_create\<close>
  releases a tunnel that is still in its list (\<open>freed_tunnel_run\<close>).  Those about buffers and answers name the condition
  on memory where they need one.  \<open>size_t\<close> and \<open>int\<close> are written with their wrap-around, bytes are \<open>8 word\<close>.  A \<open>printf\<close> that
  reads a member or a string is kept as that access.

  \<^item> \<open>Prelude\<close>, \<open>Machine\<close>: the computations and their weakest preconditions \<open>wpe E f Q s\<close> (\<open>f\<close> ends in
    \<open>Q\<close> or with a fault of \<open>E\<close>), the integer conversions, C strings, the allocator and \<open>errno\<close>.
  \<^item> \<open>Buff\<close> (\<open>buff.c\<close>), \<open>DList\<close> (\<open>list.h\<close>, \<open>ventry.h\<close>), \<open>World\<close> (\<open>mysocks5.h\<close>), \<open>Pool\<close> (\<open>Utils.c\<close>).
  \<^item> \<open>Sock\<close>, \<open>Proto\<close>, \<open>Tunnel\<close>, \<open>Server\<close> (\<open>socks5.c\<close>): sockets and shutdown; handshake and forwarding;
    choice of tunnels, switching and the two event handlers; the loop and its start.
  \<^item> \<open>ClientSock\<close>, \<open>ClientPool\<close>, \<open>ClientProto\<close>, \<open>ClientLoop\<close> (\<open>clientdemo.c\<close>): the same parts of the
    mediator; \<open>clt_f\<close> is its function \<open>f\<close>.
  \<^item> \<open>Options\<close>: \<open>main\<close> of both programs.

  A function with labels is one definition per label, and a long one is cut at the places its definitions
  name.

  \<^bold>\<open>The proofs.\<close>
  \<^item> \<open>Buff\<close> shows the buffer to be a queue of bytes (locale \<open>byte_queue\<close>), \<open>DList\<close> the links to be
    a list (locale \<open>ring_list\<close>); \<open>Lists\<close> states what the list and pool operations do.
  \<^item> \<open>Invariant\<close> defines \<open>winv\<close>: pointers are alive and agree, the registry points to live sockets,
    descriptors are open and owned by one socket, buffers are within their limits, the pools are
    rings, and a handshake is at one of its positions.  \<open>Session\<close>, \<open>Handshake\<close>, \<open>Closing\<close>, \<open>Placing\<close> and
    \<open>Safety\<close> show that every operation of the server keeps it; \<open>Session\<close> gives a handler's view of
    one socket, under which a statement is a step on the bytes read, the bytes to send and the tunnel.
  \<^item> \<open>Loop\<close> makes the loop a transition system (locale \<open>invariant_system\<close>), interpreted for
    turns with at most one event (\<open>calm_server\<close>) and with any number (\<open>busy_server\<close>);
    \<open>Served\<close> reads off what holds in every reachable state and which faults are left.
  \<^item> \<open>Answers\<close> says what a peer gets for what it sends, handler by handler and then read by read,
    \<open>Relay\<close> what becomes of forwarded bytes.
  \<^item> \<open>Mediator\<close> shows which functions of the mediator are those of the server, its half of the
    handshake, and connecting as a search for the first reachable address; \<open>Opening\<close> shows how it gets
    a connection to the local service when data arrives, and how it relays; \<open>Options\<close> relates the options to
    the start and the credentials.
  \<^item> \<open>Runs\<close> and \<open>Together\<close> hold concrete runs, of the server, of the mediator, and of both against
    each other.  Those that end in a fault or do something else than intended are the findings listed beside the development.

  \<^bold>\<open>Bounds and fuel.\<close>  The walks over a list (\<open>list_find\<close>, \<open>list_do\<close>) take the number of objects ever
  allocated as fuel; the elements of a ring are distinct live objects, so it is enough, and running out
  is the fault \<open>Diverge\<close>, which \<open>busy_turn_faults\<close> excludes.  \<open>strcmp_at\<close> and \<open>strlen_at\<close> take the size of the
  array, and so does \<open>span_end\<close>, the reads of \<open>atoi\<close>; running out is reading past it.  A buffer grows by
  doubling up to \<open>2 ^ 30\<close> bytes.  A turn handles at most \<open>MAX_EPOLL_EVENTS\<close> events.  \<open>server_start\<close> and \<open>media_start\<close> run for as many turns as answers
  are given.

  \<^bold>\<open>Not modelled.\<close>  \<open>openServerSock1\<close>, which is never called, and the code under \<open>#if 0\<close>; \<open>usage\<close> and the log
  output as such; the number \<open>atoi\<close> makes of the port, which only goes to \<open>bind\<close> (the bytes it reads are
  modelled); \<open>waitListDel1\<close>, which nothing calls; the signal mask; \<open>tunnel_release\<close>, which is empty; \<open>src/leveltrg_demo.c\<close>, an example of \<open>epoll\<close> that is not part of
  the proxy.  For the mediator no invariant of the whole store is stated: the runs of \<open>Together\<close> show
  that its sockets and tunnels come to disagree.
\<close>

end
